theory Spec2Isabelle
  imports Main "HOL-Library.Sublist" "HOL-Library.Char_ord" "HOL-Library.List_Lexorder"
begin

section \<open>Python values used by the release scripts\<close>

text \<open>
  The three scripts \<^verbatim>\<open>scripts/release.py\<close>, \<^verbatim>\<open>scripts/bump_level.py\<close> and
  \<^verbatim>\<open>scripts/tag_on_merge.py\<close> work on Python \<^verbatim>\<open>str\<close> values. A Python string is
  modelled as a HOL \<open>string\<close>; a character stands for the code point of the same number, so
  the model covers the code points U+0000 to U+00FF. Every exception the scripts can raise
  is a value of \<open>error\<close>; a function that can raise returns \<open>error + 'a\<close>. Paths are
  relative to \<^verbatim>\<open>REPO_ROOT\<close>. What the scripts print is left out, except the level that
  \<^verbatim>\<open>bump_level.py\<close> prints, which is its result.
\<close>

datatype error =
    CalledProcessError "string list"  \<comment> \<open>\<^verbatim>\<open>subprocess.check_output\<close>: non-zero exit of the given argv\<close>
  | ValueError string
  | SystemExit string                 \<comment> \<open>\<^verbatim>\<open>raise SystemExit(message)\<close>: exit status 1\<close>
  | FileNotFoundError string

abbreviation NL :: char where "NL \<equiv> CHR 0x0A"
abbreviation CR :: char where "CR \<equiv> CHR 0x0D"
abbreviation DQ :: char where "DQ \<equiv> CHR 0x22"

text \<open>\<^verbatim>\<open>str.isspace\<close> of one character, which is also the class \<^verbatim>\<open>\s\<close> of \<^verbatim>\<open>re\<close>
  on \<^verbatim>\<open>str\<close> patterns: TAB, LF, VT, FF, CR, FS, GS, RS, US, SPACE, NEL and NBSP.\<close>

definition isspace :: "char \<Rightarrow> bool" where
  "isspace c = (c \<in> set [CHR 0x09, CHR 0x0A, CHR 0x0B, CHR 0x0C, CHR 0x0D, CHR 0x1C, CHR 0x1D,
                          CHR 0x1E, CHR 0x1F, CHR 0x20, CHR 0x85, CHR 0xA0])"

text \<open>The class \<^verbatim>\<open>\d\<close> (decimal digits; below U+0100 these are the ASCII digits) and
  the class \<^verbatim>\<open>[a-zA-Z]\<close>.\<close>

definition isdigit :: "char \<Rightarrow> bool" where
  "isdigit c = (c \<in> set ''0123456789'')"

definition isalpha :: "char \<Rightarrow> bool" where
  "isalpha c = (c \<in> set ''abcdefghijklmnopqrstuvwxyzABCDEFGHIJKLMNOPQRSTUVWXYZ'')"

text \<open>The line boundaries of \<^verbatim>\<open>str.splitlines\<close>: LF, VT, FF, CR, FS, GS, RS and NEL;
  CR LF counts as one boundary.\<close>

definition islinebreak :: "char \<Rightarrow> bool" where
  "islinebreak c = (c \<in> set [CHR 0x0A, CHR 0x0B, CHR 0x0C, CHR 0x0D, CHR 0x1C, CHR 0x1D,
                              CHR 0x1E, CHR 0x85])"

text \<open>\<^verbatim>\<open>s.strip()\<close>: leading and trailing whitespace removed.\<close>

definition strip :: "string \<Rightarrow> string" where
  "strip s = rev (dropWhile isspace (rev (dropWhile isspace s)))"

text \<open>\<^verbatim>\<open>s.splitlines()\<close>: the first argument is the current line, reversed. A text that
  ends in a line boundary has no empty last line; the empty text has no line.\<close>

fun splitlines_from :: "string \<Rightarrow> string \<Rightarrow> string list" where
  "splitlines_from cur [] = (if cur = [] then [] else [rev cur])"
| "splitlines_from cur [c] =
     (if islinebreak c then [rev cur] else [rev (c # cur)])"
| "splitlines_from cur (c # d # cs) =
     (if c = CR \<and> d = NL then rev cur # splitlines_from [] cs
      else if islinebreak c then rev cur # splitlines_from [] (d # cs)
      else splitlines_from (c # cur) (d # cs))"

definition splitlines :: "string \<Rightarrow> string list" where
  "splitlines s = splitlines_from [] s"

text \<open>\<^verbatim>\<open>s.startswith(p)\<close> is \<^term>\<open>prefix p s\<close>. \<^verbatim>\<open>p in s\<close> on strings:\<close>

fun contains :: "string \<Rightarrow> string \<Rightarrow> bool" where
  "contains p [] = (p = [])"
| "contains p (c # cs) = (prefix p (c # cs) \<or> contains p cs)"

text \<open>The value of a run of decimal digits, and the decimal digits of a number.\<close>

definition digit_value :: "char \<Rightarrow> nat" where
  "digit_value c = of_char c - 48"

definition digits_value :: "string \<Rightarrow> nat" where
  "digits_value ds = foldl (\<lambda>n c. 10 * n + digit_value c) 0 ds"

fun decimal :: "nat \<Rightarrow> string" where
  "decimal n =
     (if n < 10 then [''0123456789'' ! n]
      else decimal (n div 10) @ [''0123456789'' ! (n mod 10)])"

declare decimal.simps [simp del]

text \<open>
  \<^verbatim>\<open>int(d)\<close> on a run of digits, and \<^verbatim>\<open>str(n)\<close> as an f-string field writes a number.
  Python integers are unbounded, but CPython (3.11, and the security releases of the
  earlier versions) refuses to convert a text of more than
  \<^verbatim>\<open>sys.int_info.default_max_str_digits\<close> = 4300 digits to an \<^verbatim>\<open>int\<close>, and an \<^verbatim>\<open>int\<close>
  of more than 4300 digits to a text: both raise \<^verbatim>\<open>ValueError\<close>. The scripts leave the
  limit at its default.
\<close>

definition max_str_digits :: nat where
  "max_str_digits = 4300"

definition int_of_str :: "string \<Rightarrow> error + nat" where
  "int_of_str ds =
     (if length ds > max_str_digits then
        Inl (ValueError (''Exceeds the limit (4300 digits) for integer string conversion: '' @
               ''value has '' @ decimal (length ds) @
               '' digits; use sys.set_int_max_str_digits() to increase the limit''))
      else Inr (digits_value ds))"

definition str_of_int :: "nat \<Rightarrow> error + string" where
  "str_of_int n =
     (if length (decimal n) > max_str_digits then
        Inl (ValueError (''Exceeds the limit (4300 digits) for integer string conversion; '' @
               ''use sys.set_int_max_str_digits() to increase the limit''))
      else Inr (decimal n))"

section \<open>Version arithmetic (\<^verbatim>\<open>release.py\<close>)\<close>

datatype SemverBump = Bump_major | Bump_minor | Bump_patch | Bump_none

text \<open>
  \<^verbatim>\<open>SEMVER_RE = re.compile(r"^(?P<major>\d+)\.(?P<minor>\d+)\.(?P<patch>\d+)$")\<close>, used with
  \<^verbatim>\<open>SEMVER_RE.match(v)\<close>: the three groups of a match. Each \<^verbatim>\<open>\d+\<close> is greedy and is
  followed by a character that is no digit, so it takes the whole run of digits. Without
  \<^verbatim>\<open>re.MULTILINE\<close> the final \<^verbatim>\<open>$\<close> matches at the end of the string and also just
  before a newline that ends it.
\<close>

definition semver_re_match :: "string \<Rightarrow> (string \<times> string \<times> string) option" where
  "semver_re_match v =
     (let major = takeWhile isdigit v in
      if major = [] then None
      else (case dropWhile isdigit v of
        [] \<Rightarrow> None
      | c1 # r1 \<Rightarrow>
          (let minor = takeWhile isdigit r1 in
           if c1 \<noteq> CHR ''.'' \<or> minor = [] then None
           else (case dropWhile isdigit r1 of
             [] \<Rightarrow> None
           | c2 # r2 \<Rightarrow>
               (let patch = takeWhile isdigit r2; rest = dropWhile isdigit r2 in
                if c2 \<noteq> CHR ''.'' \<or> patch = [] then None
                else if rest = [] \<or> rest = [NL] then Some (major, minor, patch)
                else None)))))"

text \<open>\<^verbatim>\<open>parse_semver(v)\<close>: the three conversions are made from left to right.\<close>

definition parse_semver :: "string \<Rightarrow> error + (nat \<times> nat \<times> nat)" where
  "parse_semver v =
     (case semver_re_match v of
        None \<Rightarrow> Inl (ValueError (''Invalid semver: '' @ v))
      | Some (major, minor, patch) \<Rightarrow>
          (case int_of_str major of
             Inl e \<Rightarrow> Inl e
           | Inr a \<Rightarrow>
               (case int_of_str minor of
                  Inl e \<Rightarrow> Inl e
                | Inr b \<Rightarrow>
                    (case int_of_str patch of
                       Inl e \<Rightarrow> Inl e
                     | Inr c \<Rightarrow> Inr (a, b, c)))))"

text \<open>The f-string \<^verbatim>\<open>f"{a}.{b}.{c}"\<close>; its fields are written from left to right.\<close>

definition format_version :: "nat \<times> nat \<times> nat \<Rightarrow> error + string" where
  "format_version t =
     (case t of (a, b, c) \<Rightarrow>
        (case str_of_int a of
           Inl e \<Rightarrow> Inl e
         | Inr sa \<Rightarrow>
             (case str_of_int b of
                Inl e \<Rightarrow> Inl e
              | Inr sb \<Rightarrow>
                  (case str_of_int c of
                     Inl e \<Rightarrow> Inl e
                   | Inr sc \<Rightarrow> Inr (sa @ ''.'' @ sb @ ''.'' @ sc)))))"

text \<open>\<^verbatim>\<open>bump_version(v, bump)\<close>. The final \<^verbatim>\<open>raise ValueError(bump)\<close> of the source
  is unreachable for the four values of \<^verbatim>\<open>SemverBump\<close>.\<close>

definition bump_version :: "string \<Rightarrow> SemverBump \<Rightarrow> error + string" where
  "bump_version v bump =
     (case parse_semver v of
        Inl e \<Rightarrow> Inl e
      | Inr (major, minor, patch) \<Rightarrow>
          (case bump of
             Bump_none \<Rightarrow> Inr v
           | Bump_major \<Rightarrow> format_version (major + 1, 0, 0)
           | Bump_minor \<Rightarrow> format_version (major, minor + 1, 0)
           | Bump_patch \<Rightarrow> format_version (major, minor, patch + 1)))"

text \<open>
  The strings that \<^verbatim>\<open>SEMVER_RE.match\<close> accepts, written out: three non-empty runs of
  digits \<open>a\<close>, \<open>b\<close>, \<open>c\<close> separated by dots, and nothing else but, possibly, one final
  newline (the \<^verbatim>\<open>$\<close> of Python's \<^verbatim>\<open>re\<close>). This predicate states the pattern; the
  function above is the code. \<open>version_text\<close> is the text \<^verbatim>\<open>"X.Y.Z"\<close> of three numbers.
\<close>

definition semver_text :: "string \<Rightarrow> string \<Rightarrow> string \<Rightarrow> string \<Rightarrow> bool" where
  "semver_text v a b c =
     (a \<noteq> [] \<and> b \<noteq> [] \<and> c \<noteq> [] \<and>
      list_all isdigit a \<and> list_all isdigit b \<and> list_all isdigit c \<and>
      (v = a @ ''.'' @ b @ ''.'' @ c \<or> v = a @ ''.'' @ b @ ''.'' @ c @ [NL]))"

definition version_text :: "nat \<times> nat \<times> nat \<Rightarrow> string" where
  "version_text t = (case t of (x, y, z) \<Rightarrow> decimal x @ ''.'' @ decimal y @ ''.'' @ decimal z)"

section \<open>Subprocesses and files (\<^verbatim>\<open>release.py\<close>, \<^verbatim>\<open>bump_level.py\<close>)\<close>

text \<open>
  The queries of \<^verbatim>\<open>release.py\<close> and \<^verbatim>\<open>bump_level.py\<close> only read the repository. A
  \<open>subprocess\<close> gives, for an argument vector, what \<^verbatim>\<open>subprocess.check_output\<close> does
  with it during the run: the decoded output, or \<^verbatim>\<open>CalledProcessError\<close> on a non-zero
  exit. \<^verbatim>\<open>run(*args)\<close> strips the output.
\<close>

type_synonym subprocess = "string list \<Rightarrow> error + string"

definition run :: "subprocess \<Rightarrow> string list \<Rightarrow> error + string" where
  "run sp args = (case sp args of Inl e \<Rightarrow> Inl e | Inr out \<Rightarrow> Inr (strip out))"

text \<open>
  The working tree: the files with their text, by path relative to \<^verbatim>\<open>REPO_ROOT\<close>, in
  the order in which a directory listing yields them. A directory exists when a file
  lies below it.
\<close>

type_synonym filesystem = "(string \<times> string) list"

definition path_exists :: "filesystem \<Rightarrow> string \<Rightarrow> bool" where
  "path_exists fs p = (map_of fs p \<noteq> None)"

definition dir_exists :: "filesystem \<Rightarrow> string \<Rightarrow> bool" where
  "dir_exists fs d = list_ex (\<lambda>f. prefix (d @ ''/'') (fst f)) fs"

definition read_text :: "filesystem \<Rightarrow> string \<Rightarrow> error + string" where
  "read_text fs p = (case map_of fs p of None \<Rightarrow> Inl (FileNotFoundError p) | Some txt \<Rightarrow> Inr txt)"

text \<open>What the \<^verbatim>\<open>*\<close> of a glob \<^verbatim>\<open><pre>*<suf>\<close> matches in the path \<open>p\<close>: one non-empty
  path component.\<close>

definition star_component :: "string \<Rightarrow> string \<Rightarrow> string \<Rightarrow> string option" where
  "star_component pre suf p =
     (if prefix pre p \<and> suffix suf (drop (length pre) p) then
        (let d = take (length p - length pre - length suf) (drop (length pre) p) in
         if d \<noteq> [] \<and> CHR ''/'' \<notin> set d then Some d else None)
      else None)"

definition glob_star :: "filesystem \<Rightarrow> string \<Rightarrow> string \<Rightarrow> string list" where
  "glob_star fs pre suf = List.map_filter (\<lambda>f. star_component pre suf (fst f)) fs"

section \<open>Packages, tags and change detection (\<^verbatim>\<open>release.py\<close>)\<close>

record Package =
  name :: string
  path :: string

definition tag_prefix :: "Package \<Rightarrow> string" where
  "tag_prefix pkg = ''better-mcps-'' @ name pkg @ ''-v''"

text \<open>\<^verbatim>\<open>list_packages()\<close>: the glob \<^verbatim>\<open>*/pyproject.toml\<close> below the root (none of its
  results has the root as parent), sorted by name.\<close>

definition list_packages :: "filesystem \<Rightarrow> Package list" where
  "list_packages fs =
     sort_key name (map (\<lambda>d. \<lparr>name = d, path = d\<rparr>) (glob_star fs [] ''/pyproject.toml''))"

text \<open>\<^verbatim>\<open>latest_tag_for(pkg)\<close>: the \<^verbatim>\<open>try\<close> block holds the query and the index
  \<^verbatim>\<open>[0]\<close>; \<^verbatim>\<open>except Exception\<close> turns a failed query and an empty list (IndexError)
  alike into \<^verbatim>\<open>None\<close>.\<close>

definition latest_tag_for :: "subprocess \<Rightarrow> Package \<Rightarrow> string option" where
  "latest_tag_for sp pkg =
     (case run sp [''git'', ''tag'', ''--list'', tag_prefix pkg @ ''*'', ''--sort=-creatordate''] of
        Inl e \<Rightarrow> None
      | Inr out \<Rightarrow> (case splitlines out of [] \<Rightarrow> None | t # ts \<Rightarrow> Some t))"

definition git_range_since :: "string option \<Rightarrow> string" where
  "git_range_since tag =
     (case tag of None \<Rightarrow> ''HEAD'' | Some t \<Rightarrow> if t = [] then ''HEAD'' else t @ ''..HEAD'')"

definition changed_files_since :: "subprocess \<Rightarrow> string option \<Rightarrow> error + string list" where
  "changed_files_since sp tag =
     (let rng = git_range_since tag in
      if rng = ''HEAD'' then
        (case run sp [''git'', ''ls-files''] of Inl e \<Rightarrow> Inl e | Inr out \<Rightarrow> Inr (splitlines out))
      else
        (case run sp [''git'', ''diff'', ''--name-only'', rng] of
           Inl e \<Rightarrow> Inl e | Inr out \<Rightarrow> Inr (splitlines out)))"

definition package_changed :: "subprocess \<Rightarrow> Package \<Rightarrow> string option \<Rightarrow> error + bool" where
  "package_changed sp pkg tag =
     (case changed_files_since sp tag of
        Inl e \<Rightarrow> Inl e
      | Inr fs \<Rightarrow> Inr (list_ex (\<lambda>f. prefix (name pkg @ ''/'') f) fs))"

section \<open>Commit classification\<close>

text \<open>The three per-commit queries; both scripts issue the same argument vectors.\<close>

definition git_show_names :: "subprocess \<Rightarrow> string \<Rightarrow> error + string" where
  "git_show_names sp sha = run sp [''git'', ''show'', ''--name-only'', ''--pretty=format:'', sha]"

definition git_show_subject :: "subprocess \<Rightarrow> string \<Rightarrow> error + string" where
  "git_show_subject sp sha = run sp [''git'', ''show'', ''-s'', ''--format=%s'', sha]"

definition git_show_body :: "subprocess \<Rightarrow> string \<Rightarrow> error + string" where
  "git_show_body sp sha = run sp [''git'', ''show'', ''-s'', ''--format=%b'', sha]"

text \<open>\<^verbatim>\<open>any(p.startswith(f"{pkg}/") for p in touched if p)\<close> on the lines of the output.\<close>

definition touches :: "string \<Rightarrow> string \<Rightarrow> bool" where
  "touches package out = list_ex (\<lambda>p. p \<noteq> [] \<and> prefix (package @ ''/'') p) (splitlines out)"

text \<open>
  \<^verbatim>\<open>re.match(r"^[a-zA-Z]+\(.+\)!:|^[a-zA-Z]+!:", subject)\<close>. The run of letters is followed
  by \<^verbatim>\<open>(\<close> or \<^verbatim>\<open>!\<close>, which are no letters, so it is the whole run. After \<^verbatim>\<open>(\<close>,
  \<^verbatim>\<open>.+\<close> takes one or more characters other than newline and must be followed by
  \<^verbatim>\<open>)!:\<close>: \<open>scope_close\<close> tries every such length.
\<close>

fun scope_close :: "string \<Rightarrow> bool" where
  "scope_close [] = False"
| "scope_close (c # cs) = (c \<noteq> NL \<and> (prefix '')!:'' cs \<or> scope_close cs))"

definition breaking_marker :: "string \<Rightarrow> bool" where
  "breaking_marker subject =
     (let r = dropWhile isalpha subject in
      takeWhile isalpha subject \<noteq> [] \<and>
      ((case r of [] \<Rightarrow> False | c # cs \<Rightarrow> c = CHR ''('' \<and> scope_close cs) \<or> prefix ''!:'' r))"

definition is_breaking :: "string \<Rightarrow> string \<Rightarrow> bool" where
  "is_breaking subject body = (contains ''BREAKING CHANGE'' body \<or> breaking_marker subject)"

subsection \<open>\<^verbatim>\<open>release.py\<close>: \<^verbatim>\<open>conventional_bump_from_commits\<close>\<close>

text \<open>The loop over \<^verbatim>\<open>commit_list\<close>, with the running \<^verbatim>\<open>bump\<close>. Each query that
  fails ends the loop with its error; a breaking commit ends it with \<^verbatim>\<open>"major"\<close>.\<close>

fun bump_from_commits :: "subprocess \<Rightarrow> Package \<Rightarrow> SemverBump \<Rightarrow> string list \<Rightarrow> error + SemverBump" where
  "bump_from_commits sp pkg bump [] = Inr bump"
| "bump_from_commits sp pkg bump (sha # shas) =
     (case git_show_names sp sha of
        Inl e \<Rightarrow> Inl e
      | Inr touched \<Rightarrow>
          if \<not> touches (name pkg) touched then bump_from_commits sp pkg bump shas
          else (case git_show_subject sp sha of
            Inl e \<Rightarrow> Inl e
          | Inr subject \<Rightarrow>
              (case git_show_body sp sha of
                 Inl e \<Rightarrow> Inl e
               | Inr body \<Rightarrow>
                   if is_breaking subject body then Inr Bump_major
                   else if prefix ''feat'' subject then
                     bump_from_commits sp pkg
                       (if bump \<in> {Bump_none, Bump_patch, Bump_minor} then Bump_minor else bump) shas
                   else if prefix ''fix'' subject then
                     bump_from_commits sp pkg (if bump = Bump_none then Bump_patch else bump) shas
                   else bump_from_commits sp pkg bump shas)))"

text \<open>The commits of the range: \<^verbatim>\<open>commit_list\<close>, from \<^verbatim>\<open>git rev-list\<close>.\<close>

definition commit_list :: "subprocess \<Rightarrow> string option \<Rightarrow> error + string list" where
  "commit_list sp tag =
     (let rng = git_range_since tag in
      case (case tag of None \<Rightarrow> run sp [''git'', ''rev-list'', ''HEAD'']
                      | Some t \<Rightarrow> run sp [''git'', ''rev-list'', rng]) of
        Inl e \<Rightarrow> Inl e
      | Inr out \<Rightarrow> Inr (splitlines out))"

definition conventional_bump_from_commits ::
  "subprocess \<Rightarrow> string option \<Rightarrow> Package \<Rightarrow> error + SemverBump" where
  "conventional_bump_from_commits sp tag pkg =
     (case commit_list sp tag of
        Inl e \<Rightarrow> Inl e
      | Inr shas \<Rightarrow> bump_from_commits sp pkg Bump_none shas)"

subsection \<open>\<^verbatim>\<open>bump_level.py\<close>\<close>

text \<open>\<^verbatim>\<open>str.lower\<close> on the code points below U+0100.\<close>

definition lower_char :: "char \<Rightarrow> char" where
  "lower_char c =
     (let n = (of_char c :: nat) in
      if (65 \<le> n \<and> n \<le> 90) \<or> (192 \<le> n \<and> n \<le> 222 \<and> n \<noteq> 215) then char_of (n + 32) else c)"

definition commits_since :: "subprocess \<Rightarrow> string \<Rightarrow> error + string list" where
  "commits_since sp since_ref =
     (case (if since_ref = [] \<or> map lower_char since_ref = ''none''
            then run sp [''git'', ''rev-list'', ''HEAD'']
            else run sp [''git'', ''rev-list'', since_ref @ ''..HEAD'']) of
        Inl e \<Rightarrow> Inl e
      | Inr out \<Rightarrow> Inr (splitlines out))"

definition touched_package :: "subprocess \<Rightarrow> string \<Rightarrow> string \<Rightarrow> error + bool" where
  "touched_package sp sha package =
     (case git_show_names sp sha of Inl e \<Rightarrow> Inl e | Inr files \<Rightarrow> Inr (touches package files))"

definition subject_body :: "subprocess \<Rightarrow> string \<Rightarrow> error + (string \<times> string)" where
  "subject_body sp sha =
     (case git_show_subject sp sha of
        Inl e \<Rightarrow> Inl e
      | Inr subject \<Rightarrow>
          (case git_show_body sp sha of Inl e \<Rightarrow> Inl e | Inr body \<Rightarrow> Inr (subject, body)))"

text \<open>The loop of \<^verbatim>\<open>main\<close>; the running \<^verbatim>\<open>bump\<close> is the string the script prints.\<close>

fun bump_level_loop :: "subprocess \<Rightarrow> string \<Rightarrow> string \<Rightarrow> string list \<Rightarrow> error + string" where
  "bump_level_loop sp package bump [] = Inr bump"
| "bump_level_loop sp package bump (sha # shas) =
     (case touched_package sp sha package of
        Inl e \<Rightarrow> Inl e
      | Inr touched \<Rightarrow>
          if \<not> touched then bump_level_loop sp package bump shas
          else (case subject_body sp sha of
            Inl e \<Rightarrow> Inl e
          | Inr (subj, body) \<Rightarrow>
              if is_breaking subj body then Inr ''major''
              else if prefix ''feat'' subj then bump_level_loop sp package ''minor'' shas
              else if prefix ''fix'' subj \<or> prefix ''perf'' subj then
                bump_level_loop sp package (if bump = ''none'' then ''patch'' else bump) shas
              else bump_level_loop sp package bump shas))"

text \<open>\<^verbatim>\<open>main(argv)\<close>: the exit status and the lines printed on standard output. The
  change of directory around the loop has no part in the result.\<close>

definition bump_level_main :: "subprocess \<Rightarrow> string list \<Rightarrow> error + (nat \<times> string list)" where
  "bump_level_main sp argv =
     (if length argv \<noteq> 3 then Inr (2, [])
      else (let package = argv ! 1; since_ref = argv ! 2 in
        case commits_since sp since_ref of
          Inl e \<Rightarrow> Inl e
        | Inr shas \<Rightarrow>
            (case bump_level_loop sp package ''none'' shas of
               Inl e \<Rightarrow> Inl e
             | Inr bump \<Rightarrow> Inr (0, [bump]))))"

section \<open>Version files\<close>

text \<open>
  \<^verbatim>\<open>re.search(r'^<key>\s*=\s*"([^"]+)"\s*$', text, flags=re.MULTILINE)\<close> with the key
  \<^verbatim>\<open>version\<close> or \<^verbatim>\<open>__version__\<close>. \<open>assignment_at\<close> matches the pattern at one
  position and gives group 1. A greedy \<^verbatim>\<open>\s*\<close> before \<^verbatim>\<open>=\<close> or before the quote takes
  all the whitespace (neither character is whitespace), and \<^verbatim>\<open>[^"]+\<close> runs to the next
  quote; both span line breaks. The final \<^verbatim>\<open>\s*$\<close> is \<open>at_line_end\<close>: it succeeds
  when, after whitespace other than a newline, the text ends or a newline follows.
  \<open>search_assignment\<close> tries the positions from left to right; \<^verbatim>\<open>^\<close> holds at the
  start of the text and after each newline.
\<close>

definition at_line_end :: "string \<Rightarrow> bool" where
  "at_line_end r =
     (case dropWhile (\<lambda>c. isspace c \<and> c \<noteq> NL) r of [] \<Rightarrow> True | c # cs \<Rightarrow> c = NL)"

definition assignment_at :: "string \<Rightarrow> string \<Rightarrow> string option" where
  "assignment_at key s =
     (if \<not> prefix key s then None
      else (case dropWhile isspace (drop (length key) s) of
        [] \<Rightarrow> None
      | c1 # r1 \<Rightarrow>
          if c1 \<noteq> CHR ''='' then None
          else (case dropWhile isspace r1 of
            [] \<Rightarrow> None
          | c2 # r2 \<Rightarrow>
              if c2 \<noteq> DQ \<or> takeWhile (\<lambda>c. c \<noteq> DQ) r2 = [] then None
              else (case dropWhile (\<lambda>c. c \<noteq> DQ) r2 of
                [] \<Rightarrow> None
              | c3 # r3 \<Rightarrow>
                  if at_line_end r3 then Some (takeWhile (\<lambda>c. c \<noteq> DQ) r2) else None))))"

fun search_assignment :: "string \<Rightarrow> bool \<Rightarrow> string \<Rightarrow> string option" where
  "search_assignment key bol [] = (if bol then assignment_at key [] else None)"
| "search_assignment key bol (c # cs) =
     (case (if bol then assignment_at key (c # cs) else None) of
        Some v \<Rightarrow> Some v
      | None \<Rightarrow> search_assignment key (c = NL) cs)"

text \<open>\<^verbatim>\<open>read_pyproject_version\<close> (\<^verbatim>\<open>release.py\<close>) and \<^verbatim>\<open>read_project_version\<close>,
  \<^verbatim>\<open>read_init_version\<close> (\<^verbatim>\<open>tag_on_merge.py\<close>).\<close>

definition read_pyproject_version :: "filesystem \<Rightarrow> string \<Rightarrow> error + string" where
  "read_pyproject_version fs pyproject =
     (case read_text fs pyproject of
        Inl e \<Rightarrow> Inl e
      | Inr txt \<Rightarrow>
          (case search_assignment ''version'' True txt of
             None \<Rightarrow> Inl (ValueError (''Could not find version in '' @ pyproject))
           | Some v \<Rightarrow> Inr v))"

definition read_project_version :: "filesystem \<Rightarrow> string \<Rightarrow> error + string" where
  "read_project_version fs pyproject =
     (case read_text fs pyproject of
        Inl e \<Rightarrow> Inl e
      | Inr txt \<Rightarrow>
          (case search_assignment ''version'' True txt of
             None \<Rightarrow> Inl (ValueError (''Could not find version in '' @ pyproject))
           | Some v \<Rightarrow> Inr v))"

definition read_init_version :: "filesystem \<Rightarrow> string \<Rightarrow> error + string" where
  "read_init_version fs init_py =
     (case read_text fs init_py of
        Inl e \<Rightarrow> Inl e
      | Inr txt \<Rightarrow>
          (case search_assignment ''__version__'' True txt of
             None \<Rightarrow> Inl (ValueError (''Could not find __version__ in '' @ init_py))
           | Some v \<Rightarrow> Inr v))"

text \<open>\<^verbatim>\<open>find_init_with_version(pkg_dir)\<close>: the first \<^verbatim>\<open>src/*/__init__.py\<close> of the
  listing whose text contains \<^verbatim>\<open>__version__\<close>.\<close>

definition find_init_with_version :: "filesystem \<Rightarrow> string \<Rightarrow> string option" where
  "find_init_with_version fs pkg_dir =
     (let src = pkg_dir @ ''/src'' in
      if \<not> dir_exists fs src then None
      else find (\<lambda>init_py. case read_text fs init_py of
                              Inl e \<Rightarrow> False
                            | Inr txt \<Rightarrow> contains ''__version__'' txt)
             (map (\<lambda>d. src @ ''/'' @ d @ ''/__init__.py'')
                (glob_star fs (src @ ''/'') ''/__init__.py'')))"

section \<open>The planning loop of \<^verbatim>\<open>cmd_tag_main\<close> (\<^verbatim>\<open>release.py\<close>)\<close>

text \<open>
  The first loop of \<^verbatim>\<open>cmd_tag_main\<close> builds \<^verbatim>\<open>planned\<close>, the list of packages with
  their next version; nothing is written before it ends. \<^verbatim>\<open>cmd_detect_changed\<close> gives
  the names of the changed packages.
\<close>

fun plan_packages ::
  "subprocess \<Rightarrow> filesystem \<Rightarrow> (Package \<times> string) list \<Rightarrow> Package list \<Rightarrow>
   error + (Package \<times> string) list" where
  "plan_packages sp fs planned [] = Inr planned"
| "plan_packages sp fs planned (pkg # pkgs) =
     (let last_tag = latest_tag_for sp pkg in
      case package_changed sp pkg last_tag of
        Inl e \<Rightarrow> Inl e
      | Inr changed \<Rightarrow>
          if \<not> changed then plan_packages sp fs planned pkgs
          else (case conventional_bump_from_commits sp last_tag pkg of
            Inl e \<Rightarrow> Inl e
          | Inr classified \<Rightarrow>
              (let bump = (if classified = Bump_none then Bump_patch else classified) in
               case read_pyproject_version fs (path pkg @ ''/pyproject.toml'') of
                 Inl e \<Rightarrow> Inl e
               | Inr current \<Rightarrow>
                   (case bump_version current bump of
                      Inl e \<Rightarrow> Inl e
                    | Inr next_v \<Rightarrow> plan_packages sp fs (planned @ [(pkg, next_v)]) pkgs))))"

definition cmd_tag_main_plan :: "subprocess \<Rightarrow> filesystem \<Rightarrow> error + (Package \<times> string) list" where
  "cmd_tag_main_plan sp fs = plan_packages sp fs [] (list_packages fs)"

fun detect_changed :: "subprocess \<Rightarrow> string list \<Rightarrow> Package list \<Rightarrow> error + string list" where
  "detect_changed sp changed [] = Inr changed"
| "detect_changed sp changed (pkg # pkgs) =
     (case package_changed sp pkg (latest_tag_for sp pkg) of
        Inl e \<Rightarrow> Inl e
      | Inr c \<Rightarrow> detect_changed sp (if c then changed @ [name pkg] else changed) pkgs)"

definition cmd_detect_changed :: "subprocess \<Rightarrow> filesystem \<Rightarrow> error + string list" where
  "cmd_detect_changed sp fs = detect_changed sp [] (list_packages fs)"

section \<open>Writing the versions and tagging (\<^verbatim>\<open>cmd_tag_main\<close>, \<^verbatim>\<open>release.py\<close>)\<close>

text \<open>
  \<^verbatim>\<open>re.subn(r'^<key>\s*=\s*"([^"]+)"\s*$', repl, text, flags=re.MULTILINE)\<close> replaces
  every match, from left to right, and counts them. A match at a position is the one
  \<open>assignment_at\<close> finds. Its final \<^verbatim>\<open>\s*\<close> is greedy: when the whitespace after the
  closing quote runs to the end of the text it takes all of it, and otherwise it gives
  back characters until a newline follows, so it stops before the last newline of the
  run; \<open>match_end_space\<close> is the number of characters it takes and
  \<open>assignment_length\<close> the length of the whole match. \<open>subn_from\<close> scans the text:
  \<open>bol\<close> says that the position starts a line, and \<open>skip\<close> counts the characters
  of the last match that are still to be passed. The versions written here consist of
  digits and dots, so the replacement holds no backslash and is inserted as it is.
\<close>

definition match_end_space :: "string \<Rightarrow> nat" where
  "match_end_space r =
     (let ws = takeWhile isspace r in
      if dropWhile isspace r = [] then length ws
      else length ws - Suc (length (takeWhile (\<lambda>c. c \<noteq> NL) (rev ws))))"

definition assignment_length :: "string \<Rightarrow> string \<Rightarrow> nat" where
  "assignment_length key s =
     (let r1 = tl (dropWhile isspace (drop (length key) s));
          r2 = tl (dropWhile isspace r1);
          r3 = tl (dropWhile (\<lambda>c. c \<noteq> DQ) r2)
      in length s - length r3 + match_end_space r3)"

fun subn_from :: "string \<Rightarrow> string \<Rightarrow> bool \<Rightarrow> nat \<Rightarrow> string \<Rightarrow> string \<times> nat" where
  "subn_from key repl bol skip [] = ([], 0)"
| "subn_from key repl bol skip (c # cs) =
     (if skip > 0 then subn_from key repl (c = NL) (skip - 1) cs
      else (case (if bol then assignment_at key (c # cs) else None) of
        Some v \<Rightarrow>
          (case subn_from key repl (c = NL) (assignment_length key (c # cs) - 1) cs of
             (t, n) \<Rightarrow> (repl @ t, Suc n))
      | None \<Rightarrow>
          (case subn_from key repl (c = NL) 0 cs of (t, n) \<Rightarrow> (c # t, n))))"

text \<open>\<^verbatim>\<open>Path.write_text\<close>: the file gets the text; a new file comes last in the
  listing.\<close>

fun write_text :: "filesystem \<Rightarrow> string \<Rightarrow> string \<Rightarrow> filesystem" where
  "write_text [] p txt = [(p, txt)]"
| "write_text (f # fs) p txt = (if fst f = p then (p, txt) # fs else f # write_text fs p txt)"

definition write_pyproject_version :: "filesystem \<Rightarrow> string \<Rightarrow> string \<Rightarrow> error + filesystem" where
  "write_pyproject_version fs pyproject new_version =
     (case read_text fs pyproject of
        Inl e \<Rightarrow> Inl e
      | Inr txt \<Rightarrow>
          (case subn_from ''version'' (''version = '' @ [DQ] @ new_version @ [DQ]) True 0 txt of
             (new_txt, n) \<Rightarrow>
               if n \<noteq> 1 then
                 Inl (ValueError (''Expected to replace exactly 1 version in '' @ pyproject @
                        '', replaced '' @ decimal n))
               else Inr (write_text fs pyproject new_txt)))"

definition find_init_version_file :: "filesystem \<Rightarrow> Package \<Rightarrow> string option" where
  "find_init_version_file fs pkg =
     (let src = path pkg @ ''/src'' in
      if \<not> dir_exists fs src then None
      else find (\<lambda>c. case read_text fs c of
                        Inl e \<Rightarrow> False
                      | Inr txt \<Rightarrow> contains ''__version__'' txt)
             (map (\<lambda>d. src @ ''/'' @ d @ ''/__init__.py'')
                (glob_star fs (src @ ''/'') ''/__init__.py'')))"

definition write_init_version :: "filesystem \<Rightarrow> string \<Rightarrow> string \<Rightarrow> error + filesystem" where
  "write_init_version fs init_py new_version =
     (case read_text fs init_py of
        Inl e \<Rightarrow> Inl e
      | Inr txt \<Rightarrow>
          (case subn_from ''__version__'' (''__version__ = '' @ [DQ] @ new_version @ [DQ]) True 0 txt of
             (new_txt, n) \<Rightarrow>
               if n \<noteq> 1 then
                 Inl (ValueError (''Expected to replace exactly 1 __version__ in '' @ init_py @
                        '', replaced '' @ decimal n))
               else Inr (write_text fs init_py new_txt)))"

text \<open>
  The second loop of \<^verbatim>\<open>cmd_tag_main\<close> (lines 258 to 267), its body in two parts: the
  two writes, which give \<^verbatim>\<open>init_py\<close>, and the two \<^verbatim>\<open>git add\<close>. The working tree is
  returned as the run leaves it, also when the run ends with an exception. Each command
  of this phase is run once, after the last query, so a \<open>subprocess\<close> says for these
  too what they do during the run.
\<close>

definition write_versions ::
  "filesystem \<Rightarrow> Package \<Rightarrow> string \<Rightarrow> (error + string option) \<times> filesystem" where
  "write_versions fs pkg next_v =
     (case write_pyproject_version fs (path pkg @ ''/pyproject.toml'') next_v of
        Inl e \<Rightarrow> (Inl e, fs)
      | Inr fs1 \<Rightarrow>
          (case find_init_version_file fs1 pkg of
             None \<Rightarrow> (Inr None, fs1)
           | Some init_py \<Rightarrow>
               (case write_init_version fs1 init_py next_v of
                  Inl e \<Rightarrow> (Inl e, fs1)
                | Inr fs2 \<Rightarrow> (Inr (Some init_py), fs2))))"

definition add_versions :: "subprocess \<Rightarrow> Package \<Rightarrow> string option \<Rightarrow> error + unit" where
  "add_versions sp pkg init_py =
     (case run sp [''git'', ''add'', path pkg @ ''/pyproject.toml''] of
        Inl e \<Rightarrow> Inl e
      | Inr out \<Rightarrow>
          (case init_py of
             None \<Rightarrow> Inr ()
           | Some i \<Rightarrow> (case run sp [''git'', ''add'', i] of Inl e \<Rightarrow> Inl e | Inr out' \<Rightarrow> Inr ())))"

fun apply_planned ::
  "subprocess \<Rightarrow> filesystem \<Rightarrow> (Package \<times> string) list \<Rightarrow> (error + unit) \<times> filesystem" where
  "apply_planned sp fs [] = (Inr (), fs)"
| "apply_planned sp fs ((pkg, next_v) # planned) =
     (case write_versions fs pkg next_v of
        (Inl e, fs1) \<Rightarrow> (Inl e, fs1)
      | (Inr init_py, fs1) \<Rightarrow>
          (case add_versions sp pkg init_py of
             Inl e \<Rightarrow> (Inl e, fs1)
           | Inr u \<Rightarrow> apply_planned sp fs1 planned))"

text \<open>\<^verbatim>\<open>", ".join(...)\<close> and the message of the release commit.\<close>

fun join :: "string \<Rightarrow> string list \<Rightarrow> string" where
  "join sep [] = []"
| "join sep [x] = x"
| "join sep (x # y # ys) = x @ sep @ join sep (y # ys)"

definition release_message :: "(Package \<times> string) list \<Rightarrow> string" where
  "release_message planned =
     ''chore(release): '' @ join '', '' (map (\<lambda>(pkg, v). name pkg @ '' v'' @ v) planned)"

text \<open>The third loop (lines 275 to 278): a tag for each planned package, pushed at
  once.\<close>

fun tag_planned :: "subprocess \<Rightarrow> (Package \<times> string) list \<Rightarrow> error + unit" where
  "tag_planned sp [] = Inr ()"
| "tag_planned sp ((pkg, next_v) # planned) =
     (let tag_name = tag_prefix pkg @ next_v in
      case run sp [''git'', ''tag'', ''-a'', tag_name, ''-m'', ''Release '' @ tag_name] of
        Inl e \<Rightarrow> Inl e
      | Inr out \<Rightarrow>
          (case run sp [''git'', ''push'', ''origin'', tag_name] of
             Inl e \<Rightarrow> Inl e
           | Inr out' \<Rightarrow> tag_planned sp planned))"

text \<open>\<^verbatim>\<open>cmd_tag_main\<close>: the exit status with the lines printed, or the exception that
  ends the process, and the working tree.\<close>

definition cmd_tag_main ::
  "subprocess \<Rightarrow> filesystem \<Rightarrow> (error + nat \<times> string list) \<times> filesystem" where
  "cmd_tag_main sp fs =
     (case cmd_tag_main_plan sp fs of
        Inl e \<Rightarrow> (Inl e, fs)
      | Inr planned \<Rightarrow>
          if planned = [] then (Inr (0, [''No packages changed; nothing to tag.'']), fs)
          else (case apply_planned sp fs planned of
            (Inl e, fs1) \<Rightarrow> (Inl e, fs1)
          | (Inr u, fs1) \<Rightarrow>
              (case run sp [''git'', ''commit'', ''-m'', release_message planned] of
                 Inl e \<Rightarrow> (Inl e, fs1)
               | Inr out \<Rightarrow>
                   (case run sp [''git'', ''push'', ''origin'', ''HEAD:main''] of
                      Inl e \<Rightarrow> (Inl e, fs1)
                    | Inr out' \<Rightarrow>
                        (case tag_planned sp planned of
                           Inl e \<Rightarrow> (Inl e, fs1)
                         | Inr u' \<Rightarrow> (Inr (0, []), fs1))))))"

section \<open>\<^verbatim>\<open>tag_on_merge.py\<close>\<close>

text \<open>
  This script creates and pushes tags, so the repository is a state. \<open>world\<close> holds the
  working tree, the names that \<^verbatim>\<open>git rev-parse\<close> resolves with their objects, the tags
  created so far, in order, and the tags pushed so far. \<open>git_env\<close> holds what the script
  does not control: the answer of \<^verbatim>\<open>git diff --name-only\<close> for two revisions, the names
  for which \<^verbatim>\<open>git tag -a\<close> or \<^verbatim>\<open>git push\<close> exits non-zero, and the object a new tag
  gets.
\<close>

record world =
  files :: filesystem
  refs :: "string \<rightharpoonup> string"
  created :: "string list"
  pushed :: "string list"

record git_env =
  diff_names :: "string \<Rightarrow> string \<Rightarrow> error + string"
  tag_refused :: "string \<Rightarrow> bool"
  push_refused :: "string \<Rightarrow> bool"
  new_object :: "string \<Rightarrow> string"

text \<open>
  The four commands the script runs. \<^verbatim>\<open>git rev-parse <name>\<close> prints the object of a
  name it resolves and fails otherwise. \<^verbatim>\<open>git tag -a <name> -m <message>\<close> fails for a
  name that exists or is refused, and otherwise makes the name resolve.
  \<^verbatim>\<open>git push origin <name>\<close> fails for a name that does not resolve or is refused.
\<close>

definition git_exec :: "git_env \<Rightarrow> string list \<Rightarrow> world \<Rightarrow> (error + string) \<times> world" where
  "git_exec env args w =
     (if length args = 5 \<and> take 3 args = [''git'', ''diff'', ''--name-only''] then
        (diff_names env (args ! 3) (args ! 4), w)
      else if length args = 3 \<and> take 2 args = [''git'', ''rev-parse''] then
        (case refs w (args ! 2) of
           None \<Rightarrow> (Inl (CalledProcessError args), w)
         | Some obj \<Rightarrow> (Inr (obj @ [NL]), w))
      else if length args = 6 \<and> take 3 args = [''git'', ''tag'', ''-a''] \<and> args ! 4 = ''-m'' then
        (let t = args ! 3 in
         if refs w t \<noteq> None \<or> tag_refused env t then (Inl (CalledProcessError args), w)
         else (Inr [], w\<lparr>refs := (refs w)(t \<mapsto> new_object env t), created := created w @ [t]\<rparr>))
      else if length args = 4 \<and> take 3 args = [''git'', ''push'', ''origin''] then
        (let t = args ! 3 in
         if refs w t = None \<or> push_refused env t then (Inl (CalledProcessError args), w)
         else (Inr [], w\<lparr>pushed := pushed w @ [t]\<rparr>))
      else (Inl (CalledProcessError args), w))"

definition run_git :: "git_env \<Rightarrow> string list \<Rightarrow> world \<Rightarrow> (error + string) \<times> world" where
  "run_git env args w =
     (case git_exec env args w of
        (Inl e, w') \<Rightarrow> (Inl e, w')
      | (Inr out, w') \<Rightarrow> (Inr (strip out), w'))"

text \<open>\<^verbatim>\<open>tag_exists(tag)\<close> catches \<^verbatim>\<open>CalledProcessError\<close> only.\<close>

definition tag_exists :: "git_env \<Rightarrow> string \<Rightarrow> world \<Rightarrow> (error + bool) \<times> world" where
  "tag_exists env tag w =
     (case run_git env [''git'', ''rev-parse'', tag] w of
        (Inr out, w') \<Rightarrow> (Inr True, w')
      | (Inl (CalledProcessError a), w') \<Rightarrow> (Inr False, w')
      | (Inl e, w') \<Rightarrow> (Inl e, w'))"

text \<open>\<^verbatim>\<open>re.match(r"^([^/]+)/pyproject\.toml$", line.strip())\<close>: group 1, the directory.\<close>

definition pyproject_dir :: "string \<Rightarrow> string option" where
  "pyproject_dir line =
     (let d = takeWhile (\<lambda>c. c \<noteq> CHR ''/'') line; r = dropWhile (\<lambda>c. c \<noteq> CHR ''/'') line in
      if d \<noteq> [] \<and> (r = ''/pyproject.toml'' \<or> r = ''/pyproject.toml'' @ [NL]) then Some d else None)"

definition changed_packages :: "string \<Rightarrow> string list" where
  "changed_packages changed =
     sort (remdups (List.map_filter (\<lambda>line. pyproject_dir (strip line)) (splitlines changed)))"

text \<open>The body of the loop \<^verbatim>\<open>for pkg in sorted(pkgs)\<close>, in three parts: the comparison
  of the two versions (lines 101 to 107), the tagging (lines 109 to 116), and the whole
  body.\<close>

definition check_init_version :: "filesystem \<Rightarrow> string \<Rightarrow> string \<Rightarrow> error + unit" where
  "check_init_version fs pkg version =
     (case find_init_with_version fs pkg of
        None \<Rightarrow> Inr ()
      | Some init_py \<Rightarrow>
          (case read_init_version fs init_py of
             Inl e \<Rightarrow> Inl e
           | Inr init_version \<Rightarrow>
               if init_version \<noteq> version then
                 Inl (SystemExit (''Version mismatch for '' @ pkg @ '': pyproject='' @ version @
                        '' init='' @ init_version @ '' ('' @ init_py @ '')''))
               else Inr ()))"

definition create_tag :: "git_env \<Rightarrow> string \<Rightarrow> world \<Rightarrow> (error + unit) \<times> world" where
  "create_tag env tag w =
     (case tag_exists env tag w of
        (Inl e, w1) \<Rightarrow> (Inl e, w1)
      | (Inr True, w1) \<Rightarrow> (Inr (), w1)
      | (Inr False, w1) \<Rightarrow>
          (case run_git env [''git'', ''tag'', ''-a'', tag, ''-m'', ''Release '' @ tag] w1 of
             (Inl e, w2) \<Rightarrow> (Inl e, w2)
           | (Inr out, w2) \<Rightarrow>
               (case run_git env [''git'', ''push'', ''origin'', tag] w2 of
                  (Inl e, w3) \<Rightarrow> (Inl e, w3)
                | (Inr out', w3) \<Rightarrow> (Inr (), w3))))"

definition tag_package :: "git_env \<Rightarrow> string \<Rightarrow> world \<Rightarrow> (error + unit) \<times> world" where
  "tag_package env pkg w =
     (let pyproject = pkg @ ''/pyproject.toml'' in
      if \<not> path_exists (files w) pyproject then (Inr (), w)
      else (case read_project_version (files w) pyproject of
        Inl e \<Rightarrow> (Inl e, w)
      | Inr version \<Rightarrow>
          (case check_init_version (files w) pkg version of
             Inl e \<Rightarrow> (Inl e, w)
           | Inr u \<Rightarrow> create_tag env (''better-mcps-'' @ pkg @ ''-v'' @ version) w)))"

fun tag_packages :: "git_env \<Rightarrow> string list \<Rightarrow> world \<Rightarrow> (error + unit) \<times> world" where
  "tag_packages env [] w = (Inr (), w)"
| "tag_packages env (pkg # pkgs) w =
     (case tag_package env pkg w of
        (Inl e, w') \<Rightarrow> (Inl e, w')
      | (Inr u, w') \<Rightarrow> tag_packages env pkgs w')"

text \<open>\<^verbatim>\<open>main(argv)\<close>: the exit status, or the exception that ends the process.\<close>

definition tag_on_merge_main :: "git_env \<Rightarrow> string list \<Rightarrow> world \<Rightarrow> (error + nat) \<times> world" where
  "tag_on_merge_main env argv w =
     (if length argv \<noteq> 3 then (Inr 2, w)
      else (let before = argv ! 1; after = argv ! 2 in
        case (if before \<noteq> after then run_git env [''git'', ''diff'', ''--name-only'', before, after] w
              else (Inr [], w)) of
          (Inl e, w1) \<Rightarrow> (Inl e, w1)
        | (Inr changed, w1) \<Rightarrow>
            (let pkgs = changed_packages changed in
             if pkgs = [] then (Inr 0, w1)
             else (case tag_packages env pkgs w1 of
               (Inl e, w2) \<Rightarrow> (Inl e, w2)
             | (Inr u, w2) \<Rightarrow> (Inr 0, w2)))))"

section \<open>Commits of a range, as the queries show them\<close>

text \<open>
  The claims about the classifier speak of the commits of a range. For a commit \<open>sha\<close>
  these predicates say what the three queries answer: that all three succeed, that the
  commit touches the package, that it is a breaking change, and that its subject starts
  with a given word.
\<close>

definition commit_readable :: "subprocess \<Rightarrow> string \<Rightarrow> bool" where
  "commit_readable sp sha =
     (\<not> isl (git_show_names sp sha) \<and> \<not> isl (git_show_subject sp sha) \<and>
      \<not> isl (git_show_body sp sha))"

definition commit_touches :: "subprocess \<Rightarrow> string \<Rightarrow> string \<Rightarrow> bool" where
  "commit_touches sp package sha =
     (case git_show_names sp sha of Inl e \<Rightarrow> False | Inr out \<Rightarrow> touches package out)"

definition commit_breaking :: "subprocess \<Rightarrow> string \<Rightarrow> bool" where
  "commit_breaking sp sha =
     (case git_show_subject sp sha of
        Inl e \<Rightarrow> False
      | Inr subject \<Rightarrow>
          (case git_show_body sp sha of Inl e \<Rightarrow> False | Inr body \<Rightarrow> is_breaking subject body))"

definition commit_startswith :: "subprocess \<Rightarrow> string \<Rightarrow> string \<Rightarrow> bool" where
  "commit_startswith sp word sha =
     (case git_show_subject sp sha of Inl e \<Rightarrow> False | Inr subject \<Rightarrow> prefix word subject)"

text \<open>
  \<open>commit_passed\<close>: the loop of a classifier goes on after the commit, because the
  commit does not touch the package, or touches it and is no breaking change.
\<close>

definition commit_passed :: "subprocess \<Rightarrow> string \<Rightarrow> string \<Rightarrow> bool" where
  "commit_passed sp package sha =
     (case git_show_names sp sha of
        Inl e \<Rightarrow> False
      | Inr touched \<Rightarrow>
          \<not> touches package touched \<or>
          (case git_show_subject sp sha of
             Inl e \<Rightarrow> False
           | Inr subject \<Rightarrow>
               (case git_show_body sp sha of
                  Inl e \<Rightarrow> False
                | Inr body \<Rightarrow> \<not> is_breaking subject body)))"

text \<open>
  The two marks of a breaking change, stated on the texts themselves: the body holds the
  words \<^verbatim>\<open>BREAKING CHANGE\<close> somewhere; the subject starts with a type made of letters
  that is followed by \<^verbatim>\<open>!:\<close>, either at once or after a scope in parentheses (one or
  more characters, none of them a newline).
\<close>

definition mentions_breaking_change :: "string \<Rightarrow> bool" where
  "mentions_breaking_change body = (\<exists>pre post. body = pre @ ''BREAKING CHANGE'' @ post)"

definition bang_marker :: "string \<Rightarrow> bool" where
  "bang_marker subject =
     (\<exists>ty rest. ty \<noteq> [] \<and> list_all isalpha ty \<and>
        (subject = ty @ ''!:'' @ rest \<or>
         (\<exists>scope. scope \<noteq> [] \<and> NL \<notin> set scope \<and>
            subject = ty @ ''('' @ scope @ '')!:'' @ rest)))"

text \<open>The order of the bump levels: none, patch, minor, major.\<close>

fun bump_rank :: "SemverBump \<Rightarrow> nat" where
  "bump_rank Bump_none = 0"
| "bump_rank Bump_patch = 1"
| "bump_rank Bump_minor = 2"
| "bump_rank Bump_major = 3"

text \<open>
  A repository for concrete runs: \<open>tags\<close> is the answer to every \<^verbatim>\<open>git tag --list\<close>
  query, and each commit of the history is given by its id, the output of the name query,
  its subject and its body, newest first. \<^verbatim>\<open>git ls-files\<close> lists \<open>tracked\<close>; every other
  command exits non-zero.
\<close>

definition example_git ::
  "error + string \<Rightarrow> string \<Rightarrow> (string \<times> string \<times> string \<times> string) list \<Rightarrow> subprocess" where
  "example_git tags tracked commits args =
     (if length args = 5 \<and> take 3 args = [''git'', ''tag'', ''--list''] then tags
      else if args = [''git'', ''ls-files''] then Inr tracked
      else if args = [''git'', ''rev-list'', ''HEAD''] then
        Inr (concat (map (\<lambda>c. fst c @ [NL]) commits))
      else if length args = 5 \<and> take 3 args = [''git'', ''show'', ''--name-only''] then
        (case find (\<lambda>c. fst c = args ! 4) commits of
           None \<Rightarrow> Inl (CalledProcessError args)
         | Some c \<Rightarrow> Inr (fst (snd c)))
      else if length args = 5 \<and> take 4 args = [''git'', ''show'', ''-s'', ''--format=%s''] then
        (case find (\<lambda>c. fst c = args ! 4) commits of
           None \<Rightarrow> Inl (CalledProcessError args)
         | Some c \<Rightarrow> Inr (fst (snd (snd c))))
      else if length args = 5 \<and> take 4 args = [''git'', ''show'', ''-s'', ''--format=%b''] then
        (case find (\<lambda>c. fst c = args ! 4) commits of
           None \<Rightarrow> Inl (CalledProcessError args)
         | Some c \<Rightarrow> Inr (snd (snd (snd c))))
      else Inl (CalledProcessError args))"

text \<open>The package \<^verbatim>\<open>p\<close> and histories for concrete runs: a \<^verbatim>\<open>fix\<close> and a
  \<^verbatim>\<open>feat\<close> commit in \<^verbatim>\<open>p\<close> with a breaking commit in another package; three
  histories with one breaking commit in \<^verbatim>\<open>p\<close>, marked by \<^verbatim>\<open>feat!:\<close>, by the words
  \<^verbatim>\<open>BREAKING CHANGE\<close> in its body, and by \<^verbatim>\<open>feat(api)!:\<close>; and a single
  \<^verbatim>\<open>perf\<close> commit in \<^verbatim>\<open>p\<close>.\<close>

definition example_package :: Package where
  "example_package = \<lparr>name = ''p'', path = ''p''\<rparr>"

definition feat_fix_git :: subprocess where
  "feat_fix_git = example_git (Inr []) ''p/pyproject.toml''
     [(''c3'', ''p/a.py'', ''fix: y'', []),
      (''c2'', ''p/b.py'', ''feat: add x'', []),
      (''c1'', ''q/c.py'', ''feat!: other package'', [])]"

definition breaking_git :: subprocess where
  "breaking_git = example_git (Inr []) ''p/pyproject.toml''
     [(''c3'', ''p/a.py'', ''feat: add x'', []),
      (''c2'', ''p/b.py'', ''fix: y'', []),
      (''c1'', ''p/api.py'', ''feat!: remove old api'', [])]"

definition breaking_body_git :: subprocess where
  "breaking_body_git = example_git (Inr []) ''p/pyproject.toml''
     [(''c2'', ''p/a.py'', ''fix: y'', []),
      (''c1'', ''p/api.py'', ''refactor: drop the old api'',
         ''The v1 endpoints are gone.'' @ [NL, NL] @ ''BREAKING CHANGE: clients must use v2'')]"

definition breaking_scope_git :: subprocess where
  "breaking_scope_git = example_git (Inr []) ''p/pyproject.toml''
     [(''c2'', ''p/a.py'', ''feat: add x'', []),
      (''c1'', ''p/api.py'', ''feat(api)!: remove old api'', [])]"

definition perf_git :: subprocess where
  "perf_git = example_git (Inr []) ''p/pyproject.toml''
     [(''c1'', ''p/mod.py'', ''perf: faster lookup'', [])]"

text \<open>A working tree with the descriptor of \<^verbatim>\<open>p\<close> at version 0.1.0; a history whose only
  commit follows no convention; the same history in a repository whose tag listing exits
  non-zero; a \<^verbatim>\<open>git\<close> that always exits non-zero, for both scripts; and a world without
  files or tags.\<close>

definition example_fs :: filesystem where
  "example_fs = [(''p/pyproject.toml'',
     ''[project]'' @ [NL] @ ''version = '' @ [DQ] @ ''0.1.0'' @ [DQ] @ [NL])]"

definition chore_git :: subprocess where
  "chore_git = example_git (Inr []) ''p/pyproject.toml''
     [(''c1'', ''p/notes.txt'', ''update notes'', [])]"

definition failing_tags_git :: subprocess where
  "failing_tags_git =
     example_git (Inl (CalledProcessError [''git'', ''tag''])) ''p/pyproject.toml''
       [(''c1'', ''p/notes.txt'', ''update notes'', [])]"

definition failing_git :: subprocess where
  "failing_git args = Inl (CalledProcessError args)"

definition failing_env :: git_env where
  "failing_env = \<lparr>diff_names = (\<lambda>before after. Inl (CalledProcessError [''git'', ''diff''])),
     tag_refused = (\<lambda>t. True), push_refused = (\<lambda>t. True), new_object = (\<lambda>t. ''0a'')\<rparr>"

definition empty_world :: world where
  "empty_world = \<lparr>files = [], refs = Map.empty, created = [], pushed = []\<rparr>"

text \<open>
  Repositories for runs that end with a failing command. \<open>allowing cmds sp\<close> is
  \<open>sp\<close> where the commands \<open>cmds\<close> succeed without output. \<open>two_commit_git\<close> has
  a \<^verbatim>\<open>fix\<close> commit \<^verbatim>\<open>c2\<close> in \<^verbatim>\<open>p\<close> on top of the commit \<^verbatim>\<open>c1\<close>, of which
  \<open>unreadable\<close> says which of the three queries exit non-zero. \<open>since_tag_git\<close>
  has the tag \<^verbatim>\<open>better-mcps-p-v0.1.0\<close> and answers the diff since the tag, but not the
  \<^verbatim>\<open>git rev-list\<close> of that range.
\<close>

definition allowing :: "string list list \<Rightarrow> subprocess \<Rightarrow> subprocess" where
  "allowing cmds sp args = (if args \<in> set cmds then Inr [] else sp args)"

definition two_commit_git :: "string list \<Rightarrow> subprocess" where
  "two_commit_git unreadable args =
     (if length args = 5 \<and> args ! 4 = ''c1'' \<and> args ! 3 \<in> set unreadable then
        Inl (CalledProcessError args)
      else example_git (Inr []) ''p/pyproject.toml''
        [(''c2'', ''p/a.py'', ''fix: y'', []),
         (''c1'', ''p/b.py'', ''feat: add x'', [])] args)"

definition since_tag_git :: subprocess where
  "since_tag_git args =
     (if args = [''git'', ''diff'', ''--name-only'', ''better-mcps-p-v0.1.0..HEAD''] then
        Inr ''p/a.py''
      else example_git (Inr ''better-mcps-p-v0.1.0'') ''p/pyproject.toml'' [] args)"

text \<open>The commands of the apply phase for the release of \<^verbatim>\<open>p\<close> 0.1.1, in the order
  in which \<^verbatim>\<open>cmd_tag_main\<close> runs them; a working tree with both version files at
  0.1.0; and the tree after the two writes (the match of \<^verbatim>\<open>re.subn\<close> takes the
  whitespace that ends the text, so the last newline of each file is gone).\<close>

definition release_commands :: "string list list" where
  "release_commands =
     [[''git'', ''add'', ''p/pyproject.toml''],
      [''git'', ''add'', ''p/src/m/__init__.py''],
      [''git'', ''commit'', ''-m'', ''chore(release): p v0.1.1''],
      [''git'', ''push'', ''origin'', ''HEAD:main''],
      [''git'', ''tag'', ''-a'', ''better-mcps-p-v0.1.1'', ''-m'', ''Release better-mcps-p-v0.1.1''],
      [''git'', ''push'', ''origin'', ''better-mcps-p-v0.1.1'']]"

definition versions_fs :: filesystem where
  "versions_fs =
     [(''p/pyproject.toml'',
        ''[project]'' @ [NL] @ ''version = '' @ [DQ] @ ''0.1.0'' @ [DQ] @ [NL]),
      (''p/src/m/__init__.py'', ''__version__ = '' @ [DQ] @ ''0.1.0'' @ [DQ] @ [NL])]"

definition bumped_fs :: filesystem where
  "bumped_fs =
     [(''p/pyproject.toml'', ''[project]'' @ [NL] @ ''version = '' @ [DQ] @ ''0.1.1'' @ [DQ]),
      (''p/src/m/__init__.py'', ''__version__ = '' @ [DQ] @ ''0.1.1'' @ [DQ])]"

text \<open>An environment of \<^verbatim>\<open>tag_on_merge.py\<close> where tags are created and no push is
  accepted.\<close>

definition no_push_env :: git_env where
  "no_push_env = \<lparr>diff_names = (\<lambda>before after. Inr (''p/pyproject.toml'' @ [NL])),
     tag_refused = (\<lambda>t. False), push_refused = (\<lambda>t. True), new_object = (\<lambda>t. ''0a'')\<rparr>"

text \<open>Every tag in the log of created tags was created once and resolves.\<close>

definition tags_created_once :: "world \<Rightarrow> bool" where
  "tags_created_once w = (distinct (created w) \<and> set (created w) \<subseteq> dom (refs w))"

text \<open>
  Worlds and environments for concrete runs of \<^verbatim>\<open>tag_on_merge.py\<close>: a diff that names the
  descriptor of a package \<^verbatim>\<open>gone\<close>; a diff that names the two version files of \<^verbatim>\<open>p\<close>; a
  working tree where the descriptor says 1.2.0 and \<^verbatim>\<open>__init__.py\<close> says 1.1.9; one where
  both say 1.2.0; and the latter after its tag has been created and pushed.
\<close>

definition gone_env :: git_env where
  "gone_env = \<lparr>diff_names = (\<lambda>before after. Inr (''gone/pyproject.toml'' @ [NL])),
     tag_refused = (\<lambda>t. False), push_refused = (\<lambda>t. False), new_object = (\<lambda>t. ''0a'')\<rparr>"

definition release_env :: git_env where
  "release_env = \<lparr>diff_names = (\<lambda>before after. Inr (''p/pyproject.toml'' @ [NL] @ ''p/src/m/__init__.py'' @ [NL])),
     tag_refused = (\<lambda>t. False), push_refused = (\<lambda>t. False), new_object = (\<lambda>t. ''0a'')\<rparr>"

definition mismatch_world :: world where
  "mismatch_world = \<lparr>files =
       [(''p/pyproject.toml'', ''version = '' @ [DQ] @ ''1.2.0'' @ [DQ] @ [NL]),
        (''p/src/m/__init__.py'', ''__version__ = '' @ [DQ] @ ''1.1.9'' @ [DQ] @ [NL])],
     refs = Map.empty, created = [], pushed = []\<rparr>"

definition release_world :: world where
  "release_world = \<lparr>files =
       [(''p/pyproject.toml'', ''version = '' @ [DQ] @ ''1.2.0'' @ [DQ] @ [NL]),
        (''p/src/m/__init__.py'', ''__version__ = '' @ [DQ] @ ''1.2.0'' @ [DQ] @ [NL])],
     refs = Map.empty, created = [], pushed = []\<rparr>"


definition tagged_world :: world where
  "tagged_world = release_world
     \<lparr>refs := [''better-mcps-p-v1.2.0'' \<mapsto> ''0a''], created := [''better-mcps-p-v1.2.0''],
      pushed := [''better-mcps-p-v1.2.0'']\<rparr>"

section \<open>Lines of a version file\<close>

text \<open>
  A line breaks off inside an assignment when it starts with the key and ends after the
  key, after \<^verbatim>\<open>=\<close> or inside the quoted value (whitespace aside): there the pattern, whose
  whitespace and value classes match newlines, can go on into the next line.
\<close>

definition unfinished :: "string \<Rightarrow> string \<Rightarrow> bool" where
  "unfinished key l =
     (prefix key l \<and>
      (case dropWhile isspace (drop (length key) l) of
         [] \<Rightarrow> True
       | c1 # r1 \<Rightarrow>
           c1 = CHR ''='' \<and>
           (case dropWhile isspace r1 of
              [] \<Rightarrow> True
            | c2 # r2 \<Rightarrow> c2 = DQ \<and> DQ \<notin> set r2)))"

text \<open>The text whose lines are \<open>ls\<close>, each ended by a newline.\<close>

definition lines_text :: "string list \<Rightarrow> string" where
  "lines_text ls = concat (map (\<lambda>l. l @ [NL]) ls)"

text \<open>A descriptor with two version assignments, and one with none.\<close>

definition two_versions_fs :: filesystem where
  "two_versions_fs = [(''p/pyproject.toml'',
     ''[project]'' @ [NL] @ ''version = '' @ [DQ] @ ''1.0.0'' @ [DQ] @ [NL] @
     ''version = '' @ [DQ] @ ''2.0.0'' @ [DQ] @ [NL])]"

definition no_version_fs :: filesystem where
  "no_version_fs = [(''p/pyproject.toml'',
     ''[project]'' @ [NL] @ ''name = '' @ [DQ] @ ''p'' @ [DQ] @ [NL])]"

section \<open>Properties of the version arithmetic\<close>

lemma dot_not_digit: "\<not> isdigit (CHR ''.'')" "\<not> isdigit NL"
  by (simp_all add: isdigit_def)

lemma takeWhile_run:
  "list_all P xs \<Longrightarrow> \<not> P y \<Longrightarrow> takeWhile P (xs @ y # ys) = xs"
  by (induction xs) auto

lemma dropWhile_run:
  "list_all P xs \<Longrightarrow> \<not> P y \<Longrightarrow> dropWhile P (xs @ y # ys) = y # ys"
  by (induction xs) auto

lemma takeWhile_all: "list_all P xs \<Longrightarrow> takeWhile P xs = xs"
  by (induction xs) auto

lemma dropWhile_all: "list_all P xs \<Longrightarrow> dropWhile P xs = []"
  by (induction xs) auto

lemma semver_re_match_text:
  assumes "semver_text v a b c"
  shows "semver_re_match v = Some (a, b, c)"
proof -
  from assms have a: "a \<noteq> []" "list_all isdigit a" and b: "b \<noteq> []" "list_all isdigit b"
    and c: "c \<noteq> []" "list_all isdigit c"
    and v: "v = a @ CHR ''.'' # b @ CHR ''.'' # c \<or> v = a @ CHR ''.'' # b @ CHR ''.'' # c @ [NL]"
    by (simp_all add: semver_text_def)
  from v show ?thesis
  proof
    assume "v = a @ CHR ''.'' # b @ CHR ''.'' # c"
    then show ?thesis using a b c
      by (simp add: semver_re_match_def takeWhile_run dropWhile_run dot_not_digit
          takeWhile_all dropWhile_all)
  next
    assume "v = a @ CHR ''.'' # b @ CHR ''.'' # c @ [NL]"
    then show ?thesis using a b c
      by (simp add: semver_re_match_def takeWhile_run dropWhile_run dot_not_digit)
  qed
qed

lemma list_all_takeWhile: "list_all P (takeWhile P xs)"
  by (induction xs) auto

lemma semver_re_match_Some:
  assumes "semver_re_match v = Some (a, b, c)"
  shows "semver_text v a b c"
proof -
  define a' where "a' = takeWhile isdigit v"
  define r0 where "r0 = dropWhile isdigit v"
  have v: "v = a' @ r0" by (simp add: a'_def r0_def)
  from assms have a: "a' \<noteq> []" and r0: "r0 \<noteq> []"
    by (auto simp: semver_re_match_def Let_def a'_def r0_def simp del: dropWhile_eq_Nil_conv
        split: if_splits list.splits)
  then obtain c1 r1 where r0c: "r0 = c1 # r1" by (cases r0) auto
  define b' where "b' = takeWhile isdigit r1"
  define r2 where "r2 = dropWhile isdigit r1"
  have r1: "r1 = b' @ r2" by (simp add: b'_def r2_def)
  from assms a r0c have c1: "c1 = CHR ''.''" and b: "b' \<noteq> []" and r2n: "r2 \<noteq> []"
    by (auto simp: semver_re_match_def Let_def a'_def[symmetric] r0_def[symmetric] b'_def r2_def
        simp del: dropWhile_eq_Nil_conv split: if_splits list.splits)
  then obtain c2 r3 where r2c: "r2 = c2 # r3" by (cases r2) auto
  define c' where "c' = takeWhile isdigit r3"
  define r4 where "r4 = dropWhile isdigit r3"
  have r3: "r3 = c' @ r4" by (simp add: c'_def r4_def)
  from assms a r0c c1 b r2c have c2: "c2 = CHR ''.''" and c: "c' \<noteq> []"
    and r4: "r4 = [] \<or> r4 = [NL]"
    and res: "a = a'" "b = b'" "c = c'"
    by (auto simp: semver_re_match_def Let_def a'_def[symmetric] r0_def[symmetric]
        b'_def[symmetric] r2_def[symmetric] c'_def r4_def
        simp del: dropWhile_eq_Nil_conv split: if_splits list.splits)
  have "semver_text v a' b' c'"
    using a b c r4 unfolding semver_text_def v r0c c1 r1 r2c c2 r3
    by (auto simp: a'_def b'_def c'_def list_all_takeWhile)
  with res show ?thesis by simp
qed

lemma semver_re_match_None:
  "(\<forall>a b c. \<not> semver_text v a b c) \<Longrightarrow> semver_re_match v = None"
  using semver_re_match_Some [of v] by (cases "semver_re_match v") auto

lemma digit_cases: "(d::nat) < 10 \<Longrightarrow> d \<in> {0, 1, 2, 3, 4, 5, 6, 7, 8, 9}"
  by auto

lemma isdigit_char_of: "(d::nat) < 10 \<Longrightarrow> isdigit (''0123456789'' ! d)"
  by (drule digit_cases) (auto simp: isdigit_def)

lemma digit_value_char_of: "(d::nat) < 10 \<Longrightarrow> digit_value (''0123456789'' ! d) = d"
  by (drule digit_cases) (auto simp: digit_value_def)

lemma digit_value_less: "isdigit c \<Longrightarrow> digit_value c < 10"
  by (auto simp: isdigit_def digit_value_def)

lemma decimal_nonempty: "decimal n \<noteq> []"
  by (subst decimal.simps) simp

lemma decimal_digits: "list_all isdigit (decimal n)"
proof (induction n rule: decimal.induct)
  case (1 n)
  show ?case
  proof (cases "n < 10")
    case True
    then show ?thesis by (subst decimal.simps) (simp add: isdigit_char_of)
  next
    case False
    with 1 show ?thesis by (subst decimal.simps) (simp add: isdigit_char_of)
  qed
qed

lemma digits_value_snoc: "digits_value (ds @ [c]) = 10 * digits_value ds + digit_value c"
  by (simp add: digits_value_def)

lemma digits_value_decimal: "digits_value (decimal n) = n"
proof (induction n rule: decimal.induct)
  case (1 n)
  show ?case
  proof (cases "n < 10")
    case True
    then show ?thesis
      by (subst decimal.simps) (simp add: digits_value_def digit_value_char_of)
  next
    case False
    with 1 show ?thesis
      by (subst decimal.simps) (simp add: digits_value_snoc digit_value_char_of)
  qed
qed

text \<open>Leading zeros aside, a number has as many digits as the run it was read from.\<close>

lemma length_decimal_digits_value:
  "ds \<noteq> [] \<Longrightarrow> list_all isdigit ds \<Longrightarrow> length (decimal (digits_value ds)) \<le> length ds"
proof (induction ds rule: rev_induct)
  case Nil
  then show ?case by simp
next
  case (snoc c ds)
  from snoc.prems have d: "digit_value c < 10" by (simp add: digit_value_less)
  show ?case
  proof (cases "10 * digits_value ds + digit_value c < 10")
    case True
    then show ?thesis
      by (subst decimal.simps) (simp add: digits_value_snoc)
  next
    case False
    with d have pos: "digits_value ds \<noteq> 0" by auto
    then have "ds \<noteq> []" by (auto simp: digits_value_def)
    with snoc have ih: "length (decimal (digits_value ds)) \<le> length ds" by simp
    from d have "(10 * digits_value ds + digit_value c) div 10 = digits_value ds" by simp
    with False ih show ?thesis
      by (subst decimal.simps) (simp add: digits_value_snoc)
  qed
qed

lemma parse_semver_text:
  assumes "semver_text v a b c"
    and "length a \<le> max_str_digits" and "length b \<le> max_str_digits"
    and "length c \<le> max_str_digits"
  shows "parse_semver v = Inr (digits_value a, digits_value b, digits_value c)"
  using assms(2-4) semver_re_match_text [OF assms(1)]
  by (simp add: parse_semver_def int_of_str_def)

lemma parse_semver_too_long:
  assumes "semver_text v a b c"
    and "max_str_digits < length a \<or> max_str_digits < length b \<or> max_str_digits < length c"
  shows "isl (parse_semver v)"
  using assms(2) semver_re_match_text [OF assms(1)]
  by (auto simp: parse_semver_def int_of_str_def)

lemma format_version_text:
  assumes "length (decimal x) \<le> max_str_digits" and "length (decimal y) \<le> max_str_digits"
    and "length (decimal z) \<le> max_str_digits"
  shows "format_version (x, y, z) = Inr (version_text (x, y, z))"
  using assms by (simp add: format_version_def str_of_int_def version_text_def)

lemma semver_text_version_text:
  "semver_text (version_text (x, y, z)) (decimal x) (decimal y) (decimal z)"
  by (simp add: semver_text_def version_text_def decimal_nonempty decimal_digits)

lemma parse_semver_version_text:
  assumes "length (decimal x) \<le> max_str_digits" and "length (decimal y) \<le> max_str_digits"
    and "length (decimal z) \<le> max_str_digits"
  shows "parse_semver (version_text (x, y, z)) = Inr (x, y, z)"
  using parse_semver_text [OF semver_text_version_text [of x y z] assms]
  by (simp add: digits_value_decimal)

lemma decimal_zero: "decimal 0 = ''0''"
  by (subst decimal.simps) simp

lemma bump_version_text:
  assumes "semver_text v a b c"
    and "length a \<le> max_str_digits" and "length b \<le> max_str_digits"
    and "length c \<le> max_str_digits"
  shows "bump_version v Bump_none = Inr v"
    and "length (decimal (digits_value c + 1)) \<le> max_str_digits \<Longrightarrow>
         bump_version v Bump_patch =
           Inr (version_text (digits_value a, digits_value b, digits_value c + 1))"
    and "length (decimal (digits_value b + 1)) \<le> max_str_digits \<Longrightarrow>
         bump_version v Bump_minor = Inr (version_text (digits_value a, digits_value b + 1, 0))"
    and "length (decimal (digits_value a + 1)) \<le> max_str_digits \<Longrightarrow>
         bump_version v Bump_major = Inr (version_text (digits_value a + 1, 0, 0))"
proof -
  from assms(1) have ne: "a \<noteq> []" "b \<noteq> []" "c \<noteq> []"
    and dg: "list_all isdigit a" "list_all isdigit b" "list_all isdigit c"
    by (simp_all add: semver_text_def)
  have la: "length (decimal (digits_value a)) \<le> max_str_digits"
    using length_decimal_digits_value [OF ne(1) dg(1)] assms(2) by simp
  have lb: "length (decimal (digits_value b)) \<le> max_str_digits"
    using length_decimal_digits_value [OF ne(2) dg(2)] assms(3) by simp
  have zero: "length (decimal 0) \<le> max_str_digits"
    by (simp add: decimal_zero max_str_digits_def)
  note parse = parse_semver_text [OF assms]
  show "bump_version v Bump_none = Inr v"
    by (simp add: bump_version_def parse)
  show "bump_version v Bump_patch =
           Inr (version_text (digits_value a, digits_value b, digits_value c + 1))"
    if "length (decimal (digits_value c + 1)) \<le> max_str_digits"
    using that la lb by (simp add: bump_version_def parse format_version_text)
  show "bump_version v Bump_minor = Inr (version_text (digits_value a, digits_value b + 1, 0))"
    if "length (decimal (digits_value b + 1)) \<le> max_str_digits"
    using that la zero by (simp add: bump_version_def parse format_version_text)
  show "bump_version v Bump_major = Inr (version_text (digits_value a + 1, 0, 0))"
    if "length (decimal (digits_value a + 1)) \<le> max_str_digits"
    using that zero by (simp add: bump_version_def parse format_version_text)
qed

text \<open>
  Claim C4, as stated, at the version whose major component is 4301 times the digit 1:
  the pattern matches it, but \<^verbatim>\<open>int\<close> refuses the component, so \<^verbatim>\<open>parse_semver\<close> and
  every \<^verbatim>\<open>bump_version\<close>, also with \<^verbatim>\<open>"none"\<close>, raise \<^verbatim>\<open>ValueError\<close>.
\<close>

theorem bump_version_digit_limit:
  "semver_text (replicate 4301 (CHR ''1'') @ ''.0.0'') (replicate 4301 (CHR ''1'')) ''0'' ''0'' \<and>
   isl (parse_semver (replicate 4301 (CHR ''1'') @ ''.0.0'')) \<and>
   isl (bump_version (replicate 4301 (CHR ''1'') @ ''.0.0'') Bump_none) \<and>
   bump_version (replicate 4301 (CHR ''1'') @ ''.0.0'') Bump_none
     \<noteq> Inr (replicate 4301 (CHR ''1'') @ ''.0.0'')"
proof -
  have shape: "semver_text (replicate 4301 (CHR ''1'') @ ''.0.0'')
      (replicate 4301 (CHR ''1'')) ''0'' ''0''"
    by (simp add: semver_text_def isdigit_def list_all_iff)
  then have "isl (parse_semver (replicate 4301 (CHR ''1'') @ ''.0.0''))"
    by (rule parse_semver_too_long) (simp add: max_str_digits_def)
  with shape show ?thesis
    by (auto simp: bump_version_def split: sum.splits)
qed

text \<open>
  Claim C4, amended. For every version string \<open>v\<close> that \<^verbatim>\<open>^\d+\.\d+\.\d+$\<close> matches and
  whose three runs of digits have at most 4300 digits each, with the components
  \<open>(M, m, p)\<close> read from them: \<^verbatim>\<open>bump_version(v, "none")\<close> is \<open>v\<close> itself, \<^verbatim>\<open>"patch"\<close> gives
  \<open>(M, m, p + 1)\<close>, \<^verbatim>\<open>"minor"\<close> gives \<open>(M, m + 1, 0)\<close> and \<^verbatim>\<open>"major"\<close> gives
  \<open>(M + 1, 0, 0)\<close>, each written as \<^verbatim>\<open>"X.Y.Z"\<close>, when the component that is incremented
  still has at most 4300 digits; such a text parses back to the same three numbers.
  \<^verbatim>\<open>parse_semver\<close> (hence \<^verbatim>\<open>bump_version\<close>) raises \<^verbatim>\<open>ValueError\<close> on every string the
  pattern does not match, and on a match with a run of more than 4300 digits. The pattern
  is read as Python's \<^verbatim>\<open>re\<close> reads it: \<^verbatim>\<open>$\<close> also matches before one final newline, so
  \<open>semver_text\<close> admits that newline.
\<close>

theorem bump_version_semver:
  "(semver_text v a b c \<and> length a \<le> max_str_digits \<and> length b \<le> max_str_digits \<and>
    length c \<le> max_str_digits \<longrightarrow>
      parse_semver v = Inr (digits_value a, digits_value b, digits_value c) \<and>
      bump_version v Bump_none = Inr v \<and>
      (length (decimal (digits_value c + 1)) \<le> max_str_digits \<longrightarrow>
         bump_version v Bump_patch =
           Inr (version_text (digits_value a, digits_value b, digits_value c + 1))) \<and>
      (length (decimal (digits_value b + 1)) \<le> max_str_digits \<longrightarrow>
         bump_version v Bump_minor =
           Inr (version_text (digits_value a, digits_value b + 1, 0))) \<and>
      (length (decimal (digits_value a + 1)) \<le> max_str_digits \<longrightarrow>
         bump_version v Bump_major = Inr (version_text (digits_value a + 1, 0, 0)))) \<and>
   (length (decimal x) \<le> max_str_digits \<and> length (decimal y) \<le> max_str_digits \<and>
    length (decimal z) \<le> max_str_digits \<longrightarrow>
      parse_semver (version_text (x, y, z)) = Inr (x, y, z)) \<and>
   ((\<forall>a b c. \<not> semver_text v a b c) \<longrightarrow>
      parse_semver v = Inl (ValueError (''Invalid semver: '' @ v)) \<and>
      bump_version v bump = Inl (ValueError (''Invalid semver: '' @ v))) \<and>
   (semver_text v a b c \<and>
    (max_str_digits < length a \<or> max_str_digits < length b \<or> max_str_digits < length c) \<longrightarrow>
      isl (parse_semver v) \<and> isl (bump_version v bump))"
proof (intro conjI impI)
  assume none: "\<forall>a b c. \<not> semver_text v a b c"
  then show inv: "parse_semver v = Inl (ValueError (''Invalid semver: '' @ v))"
    by (simp add: parse_semver_def semver_re_match_None)
  then show "bump_version v bump = Inl (ValueError (''Invalid semver: '' @ v))"
    by (simp add: bump_version_def)
next
  assume long: "semver_text v a b c \<and>
    (max_str_digits < length a \<or> max_str_digits < length b \<or> max_str_digits < length c)"
  then show fails: "isl (parse_semver v)"
    using parse_semver_too_long [of v a b c] by blast
  then show "isl (bump_version v bump)"
    by (auto simp: bump_version_def split: sum.splits)
next
  assume "length (decimal x) \<le> max_str_digits \<and> length (decimal y) \<le> max_str_digits \<and>
    length (decimal z) \<le> max_str_digits"
  then show "parse_semver (version_text (x, y, z)) = Inr (x, y, z)"
    by (simp add: parse_semver_version_text)
next
  assume h: "semver_text v a b c \<and> length a \<le> max_str_digits \<and>
    length b \<le> max_str_digits \<and> length c \<le> max_str_digits"
  then have s: "semver_text v a b c" and la: "length a \<le> max_str_digits"
    and lb: "length b \<le> max_str_digits" and lc: "length c \<le> max_str_digits"
    by simp_all
  show "parse_semver v = Inr (digits_value a, digits_value b, digits_value c)"
    using s la lb lc by (rule parse_semver_text)
  show "bump_version v Bump_none = Inr v"
    using s la lb lc by (rule bump_version_text)
  show "bump_version v Bump_patch =
           Inr (version_text (digits_value a, digits_value b, digits_value c + 1))"
    if "length (decimal (digits_value c + 1)) \<le> max_str_digits"
    using s la lb lc that by (rule bump_version_text)
  show "bump_version v Bump_minor = Inr (version_text (digits_value a, digits_value b + 1, 0))"
    if "length (decimal (digits_value b + 1)) \<le> max_str_digits"
    using s la lb lc that by (rule bump_version_text)
  show "bump_version v Bump_major = Inr (version_text (digits_value a + 1, 0, 0))"
    if "length (decimal (digits_value a + 1)) \<le> max_str_digits"
    using s la lb lc that by (rule bump_version_text)
qed

theorem bump_version_semver_witness:
  "semver_text ''1.2.3'' ''1'' ''2'' ''3'' \<and>
   parse_semver ''1.2.3'' = Inr (1, 2, 3) \<and>
   bump_version ''1.2.3'' Bump_none = Inr ''1.2.3'' \<and>
   bump_version ''1.2.3'' Bump_patch = Inr ''1.2.4'' \<and>
   bump_version ''1.2.3'' Bump_minor = Inr ''1.3.0'' \<and>
   bump_version ''1.2.3'' Bump_major = Inr ''2.0.0'' \<and>
   parse_semver ''1.2.4'' = Inr (1, 2, 4) \<and>
   (\<forall>a b c. \<not> semver_text ''1.2'' a b c) \<and>
   parse_semver ''1.2'' = Inl (ValueError ''Invalid semver: 1.2'') \<and>
   semver_text (replicate 4301 (CHR ''1'') @ ''.0.0'') (replicate 4301 (CHR ''1'')) ''0'' ''0'' \<and>
   max_str_digits < length (replicate 4301 (CHR ''1'')) \<and>
   isl (bump_version (replicate 4301 (CHR ''1'') @ ''.0.0'') Bump_patch)"
proof -
  have shape: "semver_text ''1.2.3'' ''1'' ''2'' ''3''"
    by (simp add: semver_text_def isdigit_def)
  have short: "length ''1'' \<le> max_str_digits" "length ''2'' \<le> max_str_digits"
    "length ''3'' \<le> max_str_digits"
    by (simp_all add: max_str_digits_def)
  have "semver_re_match ''1.2'' = None"
    by (simp add: semver_re_match_def isdigit_def)
  then have none: "\<forall>a b c. \<not> semver_text ''1.2'' a b c"
    using semver_re_match_text [of "''1.2''"] by auto
  have digits: "digits_value ''1'' = 1" "digits_value ''2'' = 2" "digits_value ''3'' = 3"
    by (simp_all add: digits_value_def digit_value_def)
  have texts: "version_text (Suc 0, 2, 4) = ''1.2.4''"
    "version_text (Suc 0, 3, 0) = ''1.3.0''" "version_text (Suc (Suc 0), 0, 0) = ''2.0.0''"
    by (simp_all add: version_text_def decimal.simps)
  have lens: "length (decimal 4) \<le> max_str_digits" "length (decimal 3) \<le> max_str_digits"
    "length (decimal (Suc (Suc 0))) \<le> max_str_digits" "length (decimal (Suc 0)) \<le> max_str_digits"
    "length (decimal 2) \<le> max_str_digits"
    by (simp_all add: decimal.simps max_str_digits_def)
  have long: "semver_text (replicate 4301 (CHR ''1'') @ ''.0.0'')
      (replicate 4301 (CHR ''1'')) ''0'' ''0''"
    "max_str_digits < length (replicate 4301 (CHR ''1''))"
    by (simp_all add: semver_text_def isdigit_def list_all_iff max_str_digits_def)
  from bump_version_semver [of "''1.2.3''" "''1''" "''2''" "''3''" 1 2 4 Bump_none] shape short
    bump_version_semver [of "''1.2''" "[]" "[]" "[]" 0 0 0 Bump_none] none
    bump_version_semver [of "replicate 4301 (CHR ''1'') @ ''.0.0''" "replicate 4301 (CHR ''1'')"
      "''0''" "''0''" 0 0 0 Bump_patch] long
  show ?thesis by (simp add: digits texts lens)
qed

section \<open>Properties of the commit classifiers\<close>

lemma readable_outputs:
  assumes "commit_readable sp sha"
  obtains touched subject body where "git_show_names sp sha = Inr touched"
    "git_show_subject sp sha = Inr subject" "git_show_body sp sha = Inr body"
  using assms unfolding commit_readable_def
  by (cases "git_show_names sp sha"; cases "git_show_subject sp sha"; cases "git_show_body sp sha") auto

lemma bump_from_commits_major:
  assumes "\<forall>sha\<in>set shas. commit_readable sp sha"
    and "\<exists>sha\<in>set shas. commit_touches sp (name pkg) sha \<and> commit_breaking sp sha"
  shows "bump_from_commits sp pkg bump shas = Inr Bump_major"
  using assms
proof (induction shas arbitrary: bump)
  case Nil
  then show ?case by simp
next
  case (Cons sha shas)
  from Cons.prems(1) have "commit_readable sp sha" by simp
  then obtain touched subject body where out: "git_show_names sp sha = Inr touched"
    "git_show_subject sp sha = Inr subject" "git_show_body sp sha = Inr body"
    by (rule readable_outputs)
  show ?case
  proof (cases "commit_touches sp (name pkg) sha \<and> commit_breaking sp sha")
    case True
    with out show ?thesis by (simp add: commit_touches_def commit_breaking_def)
  next
    case False
    with Cons.prems have rest: "\<forall>sha\<in>set shas. commit_readable sp sha"
      "\<exists>sha\<in>set shas. commit_touches sp (name pkg) sha \<and> commit_breaking sp sha"
      by auto
    have ih: "\<And>b. bump_from_commits sp pkg b shas = Inr Bump_major"
      using Cons.IH rest by blast
    show ?thesis using out by (simp add: ih)
  qed
qed

lemma bump_level_loop_major:
  assumes "\<forall>sha\<in>set shas. commit_readable sp sha"
    and "\<exists>sha\<in>set shas. commit_touches sp package sha \<and> commit_breaking sp sha"
  shows "bump_level_loop sp package bump shas = Inr ''major''"
  using assms
proof (induction shas arbitrary: bump)
  case Nil
  then show ?case by simp
next
  case (Cons sha shas)
  from Cons.prems(1) have "commit_readable sp sha" by simp
  then obtain touched subject body where out: "git_show_names sp sha = Inr touched"
    "git_show_subject sp sha = Inr subject" "git_show_body sp sha = Inr body"
    by (rule readable_outputs)
  show ?case
  proof (cases "commit_touches sp package sha \<and> commit_breaking sp sha")
    case True
    with out show ?thesis
      by (simp add: commit_touches_def commit_breaking_def touched_package_def subject_body_def)
  next
    case False
    with Cons.prems have rest: "\<forall>sha\<in>set shas. commit_readable sp sha"
      "\<exists>sha\<in>set shas. commit_touches sp package sha \<and> commit_breaking sp sha"
      by auto
    have ih: "\<And>b. bump_level_loop sp package b shas = Inr ''major''"
      using Cons.IH rest by blast
    show ?thesis using out by (simp add: ih touched_package_def subject_body_def)
  qed
qed

lemma contains_iff: "contains p s = (\<exists>pre post. s = pre @ p @ post)"
proof (induction s)
  case Nil
  then show ?case by auto
next
  case (Cons c cs)
  show ?case
  proof
    assume "contains p (c # cs)"
    then consider "prefix p (c # cs)" | "contains p cs" by auto
    then show "\<exists>pre post. c # cs = pre @ p @ post"
    proof cases
      case 1
      then obtain post where "c # cs = p @ post" by (auto simp: prefix_def)
      then have "c # cs = [] @ p @ post" by simp
      then show ?thesis by blast
    next
      case 2
      with Cons obtain pre post where "cs = pre @ p @ post" by auto
      then have "c # cs = (c # pre) @ p @ post" by simp
      then show ?thesis by blast
    qed
  next
    assume "\<exists>pre post. c # cs = pre @ p @ post"
    then obtain pre post where eq: "c # cs = pre @ p @ post" by blast
    show "contains p (c # cs)"
    proof (cases pre)
      case Nil
      with eq have "prefix p (c # cs)" by (simp add: prefix_def)
      then show ?thesis by simp
    next
      case (Cons d pre')
      with eq have "cs = pre' @ p @ post" by simp
      with Cons.IH show ?thesis by auto
    qed
  qed
qed

lemma scope_close_iff:
  "scope_close cs = (\<exists>scope rest. scope \<noteq> [] \<and> NL \<notin> set scope \<and> cs = scope @ '')!:'' @ rest)"
proof (induction cs)
  case Nil
  then show ?case by simp
next
  case (Cons c cs)
  show ?case
  proof
    assume "scope_close (c # cs)"
    then have c: "c \<noteq> NL" and "prefix '')!:'' cs \<or> scope_close cs" by auto
    then consider "prefix '')!:'' cs" | "scope_close cs" by auto
    then show "\<exists>scope rest. scope \<noteq> [] \<and> NL \<notin> set scope \<and> c # cs = scope @ '')!:'' @ rest"
    proof cases
      case 1
      then obtain rest where "cs = '')!:'' @ rest" by (auto simp: prefix_def)
      with c have "[c] \<noteq> [] \<and> NL \<notin> set [c] \<and> c # cs = [c] @ '')!:'' @ rest" by simp
      then show ?thesis by blast
    next
      case 2
      with Cons obtain scope rest where "scope \<noteq> []" "NL \<notin> set scope"
        "cs = scope @ '')!:'' @ rest" by auto
      with c have "c # scope \<noteq> [] \<and> NL \<notin> set (c # scope) \<and>
        c # cs = (c # scope) @ '')!:'' @ rest" by simp
      then show ?thesis by blast
    qed
  next
    assume "\<exists>scope rest. scope \<noteq> [] \<and> NL \<notin> set scope \<and> c # cs = scope @ '')!:'' @ rest"
    then obtain scope rest where sc: "scope \<noteq> []" "NL \<notin> set scope"
      "c # cs = scope @ '')!:'' @ rest" by blast
    then obtain scope' where scope: "scope = c # scope'" by (cases scope) auto
    with sc have c: "c \<noteq> NL" and cs: "cs = scope' @ '')!:'' @ rest" and nl: "NL \<notin> set scope'"
      by auto
    show "scope_close (c # cs)"
    proof (cases scope')
      case Nil
      with cs c show ?thesis by simp
    next
      case (Cons d ds)
      with cs nl Cons.IH have "scope_close cs" by blast
      with c show ?thesis by simp
    qed
  qed
qed

lemma not_alpha_marks: "\<not> isalpha (CHR ''!'')" "\<not> isalpha (CHR ''('')"
  by (simp_all add: isalpha_def)

lemma breaking_marker_iff: "breaking_marker subject = bang_marker subject"
proof
  assume m: "breaking_marker subject"
  define ty where "ty = takeWhile isalpha subject"
  define r where "r = dropWhile isalpha subject"
  have subject: "subject = ty @ r" by (simp add: ty_def r_def)
  have alpha: "list_all isalpha ty" by (simp add: ty_def list_all_takeWhile)
  from m have ne: "ty \<noteq> []"
    and alt: "(case r of [] \<Rightarrow> False | c # cs \<Rightarrow> c = CHR ''('' \<and> scope_close cs) \<or> prefix ''!:'' r"
    by (simp_all add: breaking_marker_def Let_def ty_def r_def)
  from alt show "bang_marker subject"
  proof
    assume "case r of [] \<Rightarrow> False | c # cs \<Rightarrow> c = CHR ''('' \<and> scope_close cs"
    then obtain cs where r: "r = CHR ''('' # cs" and "scope_close cs"
      by (cases r) auto
    then obtain scope rest where "scope \<noteq> []" "NL \<notin> set scope" "cs = scope @ '')!:'' @ rest"
      by (auto simp: scope_close_iff)
    with subject r ne alpha show ?thesis
      unfolding bang_marker_def by (intro exI [of _ ty] exI [of _ rest]) auto
  next
    assume "prefix ''!:'' r"
    then obtain rest where "r = ''!:'' @ rest" by (auto simp: prefix_def)
    with subject ne alpha show ?thesis
      unfolding bang_marker_def by (intro exI [of _ ty] exI [of _ rest]) auto
  qed
next
  assume "bang_marker subject"
  then obtain ty rest where ne: "ty \<noteq> []" and alpha: "list_all isalpha ty"
    and alt: "subject = ty @ ''!:'' @ rest \<or>
      (\<exists>scope. scope \<noteq> [] \<and> NL \<notin> set scope \<and> subject = ty @ ''('' @ scope @ '')!:'' @ rest)"
    unfolding bang_marker_def by blast
  from alt show "breaking_marker subject"
  proof
    assume "subject = ty @ ''!:'' @ rest"
    then have "subject = ty @ CHR ''!'' # CHR '':'' # rest" by simp
    with ne alpha show ?thesis
      by (simp add: breaking_marker_def takeWhile_run dropWhile_run not_alpha_marks)
  next
    assume "\<exists>scope. scope \<noteq> [] \<and> NL \<notin> set scope \<and> subject = ty @ ''('' @ scope @ '')!:'' @ rest"
    then obtain scope where sc: "scope \<noteq> []" "NL \<notin> set scope"
      and "subject = ty @ ''('' @ scope @ '')!:'' @ rest" by blast
    then have subject: "subject = ty @ CHR ''('' # (scope @ '')!:'' @ rest)" by simp
    from sc have "scope_close (scope @ '')!:'' @ rest)"
      unfolding scope_close_iff by blast
    with ne alpha show ?thesis
      unfolding subject
      by (simp add: breaking_marker_def takeWhile_run dropWhile_run not_alpha_marks)
  qed
qed

lemma is_breaking_iff:
  "is_breaking subject body = (mentions_breaking_change body \<or> bang_marker subject)"
  by (simp add: is_breaking_def contains_iff mentions_breaking_change_def breaking_marker_iff)

lemma touches_iff:
  "touches package out = (\<exists>f\<in>set (splitlines out). prefix (package @ ''/'') f)"
proof -
  have "f \<noteq> []" if "prefix (package @ ''/'') f" for f
    using that by (auto simp: prefix_def)
  then show ?thesis
    by (auto simp: touches_def list_ex_iff)
qed

text \<open>
  Claim C2. Let \<open>shas\<close> be the commits of the range, each of which the queries can show,
  and let one of them touch the package (one of the lines that
  \<^verbatim>\<open>git show --name-only\<close> prints for it starts with the package's name and a slash) and
  be a breaking change: the body that \<^verbatim>\<open>git show -s --format=%b\<close> prints holds the words
  \<^verbatim>\<open>BREAKING CHANGE\<close>, or the subject that \<^verbatim>\<open>git show -s --format=%s\<close> prints starts with
  \<^verbatim>\<open>type!:\<close> or \<^verbatim>\<open>type(scope)!:\<close>. Then the classifier of \<^verbatim>\<open>release.py\<close> returns
  \<^verbatim>\<open>major\<close> and \<^verbatim>\<open>bump_level.py\<close> prints \<^verbatim>\<open>major\<close> and exits with 0, whatever the other
  commits are and wherever the breaking one stands.
\<close>

theorem breaking_commit_gives_major:
  assumes "\<forall>s\<in>set shas. commit_readable sp s"
    and "sha \<in> set shas"
    and "run sp [''git'', ''show'', ''--name-only'', ''--pretty=format:'', sha] = Inr touched"
    and "\<exists>f\<in>set (splitlines touched). prefix (package @ ''/'') f"
    and "run sp [''git'', ''show'', ''-s'', ''--format=%s'', sha] = Inr subject"
    and "run sp [''git'', ''show'', ''-s'', ''--format=%b'', sha] = Inr body"
    and "mentions_breaking_change body \<or> bang_marker subject"
  shows "(commit_list sp tag = Inr shas \<and> name pkg = package \<longrightarrow>
            conventional_bump_from_commits sp tag pkg = Inr Bump_major) \<and>
         (commits_since sp since_ref = Inr shas \<longrightarrow>
            bump_level_main sp [prog, package, since_ref] = Inr (0, [''major'']))"
proof -
  from assms(3,4) have "commit_touches sp package sha"
    by (simp add: commit_touches_def git_show_names_def touches_iff)
  moreover from assms(5-7) have "commit_breaking sp sha"
    by (simp add: commit_breaking_def git_show_subject_def git_show_body_def is_breaking_iff)
  ultimately have ex: "\<exists>sha\<in>set shas. commit_touches sp package sha \<and> commit_breaking sp sha"
    using assms(2) by blast
  show ?thesis
    using bump_from_commits_major [OF assms(1), of pkg Bump_none]
      bump_level_loop_major [OF assms(1) ex, of "''none''"] ex
    by (auto simp: conventional_bump_from_commits_def bump_level_main_def)
qed

theorem breaking_commit_gives_major_witness:
  "list_all (commit_readable breaking_body_git) [''c2'', ''c1''] \<and>
   run breaking_body_git [''git'', ''show'', ''--name-only'', ''--pretty=format:'', ''c1'']
     = Inr ''p/api.py'' \<and>
   run breaking_body_git [''git'', ''show'', ''-s'', ''--format=%s'', ''c1'']
     = Inr ''refactor: drop the old api'' \<and>
   run breaking_body_git [''git'', ''show'', ''-s'', ''--format=%b'', ''c1'']
     = Inr (''The v1 endpoints are gone.'' @ [NL, NL] @ ''BREAKING CHANGE: clients must use v2'') \<and>
   mentions_breaking_change
     (''The v1 endpoints are gone.'' @ [NL, NL] @ ''BREAKING CHANGE: clients must use v2'') \<and>
   conventional_bump_from_commits breaking_body_git None example_package = Inr Bump_major \<and>
   bump_level_main breaking_body_git [''bump_level.py'', ''p'', []] = Inr (0, [''major'']) \<and>
   list_all (commit_readable breaking_scope_git) [''c2'', ''c1''] \<and>
   run breaking_scope_git [''git'', ''show'', ''-s'', ''--format=%s'', ''c1'']
     = Inr ''feat(api)!: remove old api'' \<and>
   bang_marker ''feat(api)!: remove old api'' \<and>
   conventional_bump_from_commits breaking_scope_git None example_package = Inr Bump_major \<and>
   bump_level_main breaking_scope_git [''bump_level.py'', ''p'', []] = Inr (0, [''major'']) \<and>
   list_all (commit_readable breaking_git) [''c3'', ''c2'', ''c1''] \<and>
   run breaking_git [''git'', ''show'', ''-s'', ''--format=%s'', ''c1'']
     = Inr ''feat!: remove old api'' \<and>
   bang_marker ''feat!: remove old api'' \<and>
   conventional_bump_from_commits breaking_git None example_package = Inr Bump_major \<and>
   bump_level_main breaking_git [''bump_level.py'', ''p'', []] = Inr (0, [''major''])"
proof -
  have pkg: "name example_package = ''p''"
    by (simp add: example_package_def)
  have path: "\<exists>f\<in>set (splitlines ''p/api.py''). prefix (''p'' @ ''/'') f"
    by code_simp
  \<comment> \<open>the words in the body\<close>
  have readable1: "\<forall>s\<in>set [''c2'', ''c1'']. commit_readable breaking_body_git s"
    by code_simp
  have names1: "run breaking_body_git [''git'', ''show'', ''--name-only'', ''--pretty=format:'', ''c1'']
     = Inr ''p/api.py''"
    by code_simp
  have subject1: "run breaking_body_git [''git'', ''show'', ''-s'', ''--format=%s'', ''c1'']
     = Inr ''refactor: drop the old api''"
    by code_simp
  have body1: "run breaking_body_git [''git'', ''show'', ''-s'', ''--format=%b'', ''c1'']
     = Inr (''The v1 endpoints are gone.'' @ [NL, NL] @ ''BREAKING CHANGE: clients must use v2'')"
    by code_simp
  have words: "mentions_breaking_change
     (''The v1 endpoints are gone.'' @ [NL, NL] @ ''BREAKING CHANGE: clients must use v2'')"
    unfolding mentions_breaking_change_def
    by (intro exI [of _ "''The v1 endpoints are gone.'' @ [NL, NL]"]
        exI [of _ "'': clients must use v2''"]) simp
  have range1: "commit_list breaking_body_git None = Inr [''c2'', ''c1'']"
    "commits_since breaking_body_git [] = Inr [''c2'', ''c1'']"
    by code_simp+
  have major1: "conventional_bump_from_commits breaking_body_git None example_package = Inr Bump_major"
    "bump_level_main breaking_body_git [''bump_level.py'', ''p'', []] = Inr (0, [''major''])"
    using breaking_commit_gives_major [OF readable1 _ names1 path subject1 body1, of None
        example_package "[]" "''bump_level.py''"] words range1 pkg
    by simp_all
  \<comment> \<open>the marker with a scope\<close>
  have readable2: "\<forall>s\<in>set [''c2'', ''c1'']. commit_readable breaking_scope_git s"
    by code_simp
  have names2: "run breaking_scope_git [''git'', ''show'', ''--name-only'', ''--pretty=format:'', ''c1'']
     = Inr ''p/api.py''"
    by code_simp
  have subject2: "run breaking_scope_git [''git'', ''show'', ''-s'', ''--format=%s'', ''c1'']
     = Inr ''feat(api)!: remove old api''"
    by code_simp
  have body2: "run breaking_scope_git [''git'', ''show'', ''-s'', ''--format=%b'', ''c1''] = Inr []"
    by code_simp
  have scoped: "bang_marker ''feat(api)!: remove old api''"
    unfolding bang_marker_def
    by (intro exI [of _ "''feat''"] exI [of _ "'' remove old api''"] conjI disjI2
        exI [of _ "''api''"]) (simp_all add: isalpha_def)
  have range2: "commit_list breaking_scope_git None = Inr [''c2'', ''c1'']"
    "commits_since breaking_scope_git [] = Inr [''c2'', ''c1'']"
    by code_simp+
  have major2: "conventional_bump_from_commits breaking_scope_git None example_package = Inr Bump_major"
    "bump_level_main breaking_scope_git [''bump_level.py'', ''p'', []] = Inr (0, [''major''])"
    using breaking_commit_gives_major [OF readable2 _ names2 path subject2 body2, of None
        example_package "[]" "''bump_level.py''"] scoped range2 pkg
    by simp_all
  \<comment> \<open>the marker without a scope\<close>
  have readable3: "\<forall>s\<in>set [''c3'', ''c2'', ''c1'']. commit_readable breaking_git s"
    by code_simp
  have names3: "run breaking_git [''git'', ''show'', ''--name-only'', ''--pretty=format:'', ''c1'']
     = Inr ''p/api.py''"
    by code_simp
  have subject3: "run breaking_git [''git'', ''show'', ''-s'', ''--format=%s'', ''c1'']
     = Inr ''feat!: remove old api''"
    by code_simp
  have body3: "run breaking_git [''git'', ''show'', ''-s'', ''--format=%b'', ''c1''] = Inr []"
    by code_simp
  have plain: "bang_marker ''feat!: remove old api''"
    unfolding bang_marker_def
    by (intro exI [of _ "''feat''"] exI [of _ "'' remove old api''"] conjI disjI1)
      (simp_all add: isalpha_def)
  have range3: "commit_list breaking_git None = Inr [''c3'', ''c2'', ''c1'']"
    "commits_since breaking_git [] = Inr [''c3'', ''c2'', ''c1'']"
    by code_simp+
  have major3: "conventional_bump_from_commits breaking_git None example_package = Inr Bump_major"
    "bump_level_main breaking_git [''bump_level.py'', ''p'', []] = Inr (0, [''major''])"
    using breaking_commit_gives_major [OF readable3 _ names3 path subject3 body3, of None
        example_package "[]" "''bump_level.py''"] plain range3 pkg
    by simp_all
  from readable1 names1 subject1 body1 words major1 readable2 subject2 scoped major2
    readable3 subject3 plain major3
  show ?thesis by (simp add: list_all_iff)
qed

lemma bump_from_commits_minor:
  assumes "\<forall>sha\<in>set shas. commit_readable sp sha"
    and "\<forall>sha\<in>set shas. commit_touches sp (name pkg) sha \<longrightarrow> \<not> commit_breaking sp sha"
    and "bump = Bump_minor \<or>
         (\<exists>sha\<in>set shas. commit_touches sp (name pkg) sha \<and> commit_startswith sp ''feat'' sha)"
    and "bump \<noteq> Bump_major"
  shows "bump_from_commits sp pkg bump shas = Inr Bump_minor"
  using assms
proof (induction shas arbitrary: bump)
  case Nil
  then show ?case by simp
next
  case (Cons sha shas)
  from Cons.prems(1) have "commit_readable sp sha" by simp
  then obtain touched subject body where out: "git_show_names sp sha = Inr touched"
    "git_show_subject sp sha = Inr subject" "git_show_body sp sha = Inr body"
    by (rule readable_outputs)
  from Cons.prems have rest: "\<forall>sha\<in>set shas. commit_readable sp sha"
    "\<forall>sha\<in>set shas. commit_touches sp (name pkg) sha \<longrightarrow> \<not> commit_breaking sp sha"
    by auto
  note ih = Cons.IH [OF rest]
  show ?case
  proof (cases "touches (name pkg) touched")
    case False
    with Cons.prems(3) out have "bump = Bump_minor \<or>
         (\<exists>sha\<in>set shas. commit_touches sp (name pkg) sha \<and> commit_startswith sp ''feat'' sha)"
      by (auto simp: commit_touches_def)
    from ih [OF this Cons.prems(4)] False out show ?thesis by simp
  next
    case True
    with Cons.prems(2) out have nb: "\<not> is_breaking subject body"
      by (simp add: commit_touches_def commit_breaking_def)
    show ?thesis
    proof (cases "prefix ''feat'' subject")
      case feat: True
      have "bump_from_commits sp pkg Bump_minor shas = Inr Bump_minor"
        by (rule ih) simp_all
      with True nb feat out Cons.prems(4) show ?thesis
        by (cases bump) simp_all
    next
      case nofeat: False
      with Cons.prems(3) out have later: "bump = Bump_minor \<or>
         (\<exists>sha\<in>set shas. commit_touches sp (name pkg) sha \<and> commit_startswith sp ''feat'' sha)"
        by (auto simp: commit_startswith_def)
      show ?thesis
      proof (cases "bump = Bump_minor")
        case True
        with ih [of Bump_minor] \<open>touches (name pkg) touched\<close> nb nofeat out show ?thesis by simp
      next
        case False
        with later have ex: "\<exists>sha\<in>set shas. commit_touches sp (name pkg) sha \<and>
          commit_startswith sp ''feat'' sha" by simp
        then have "\<And>b. b \<noteq> Bump_major \<Longrightarrow> bump_from_commits sp pkg b shas = Inr Bump_minor"
          using ih by blast
        with \<open>touches (name pkg) touched\<close> nb nofeat out Cons.prems(4) show ?thesis by simp
      qed
    qed
  qed
qed

lemma bump_from_commits_mono:
  "bump_from_commits sp pkg b shas = Inr b' \<Longrightarrow> bump_rank b \<le> bump_rank b'"
proof (induction shas arbitrary: b)
  case Nil
  then show ?case by simp
next
  case (Cons sha shas)
  have ih: "bump_rank c \<le> bump_rank b'" if "bump_from_commits sp pkg c shas = Inr b'" for c
    using that by (rule Cons.IH)
  from Cons.prems show ?case
    by (cases b) (auto split: sum.splits if_splits dest: ih)
qed


lemma bump_level_loop_minor:
  assumes "\<forall>sha\<in>set shas. commit_readable sp sha"
    and "\<forall>sha\<in>set shas. commit_touches sp package sha \<longrightarrow> \<not> commit_breaking sp sha"
    and "bump = ''minor'' \<or>
         (\<exists>sha\<in>set shas. commit_touches sp package sha \<and> commit_startswith sp ''feat'' sha)"
  shows "bump_level_loop sp package bump shas = Inr ''minor''"
  using assms
proof (induction shas arbitrary: bump)
  case Nil
  then show ?case by simp
next
  case (Cons sha shas)
  from Cons.prems(1) have "commit_readable sp sha" by simp
  then obtain touched subject body where out: "git_show_names sp sha = Inr touched"
    "git_show_subject sp sha = Inr subject" "git_show_body sp sha = Inr body"
    by (rule readable_outputs)
  from Cons.prems have rest: "\<forall>sha\<in>set shas. commit_readable sp sha"
    "\<forall>sha\<in>set shas. commit_touches sp package sha \<longrightarrow> \<not> commit_breaking sp sha"
    by auto
  note ih = Cons.IH [OF rest]
  show ?case
  proof (cases "touches package touched")
    case False
    with Cons.prems(3) out have "bump = ''minor'' \<or>
         (\<exists>sha\<in>set shas. commit_touches sp package sha \<and> commit_startswith sp ''feat'' sha)"
      by (auto simp: commit_touches_def)
    from ih [OF this] False out show ?thesis by (simp add: touched_package_def)
  next
    case True
    with Cons.prems(2) out have nb: "\<not> is_breaking subject body"
      by (simp add: commit_touches_def commit_breaking_def)
    show ?thesis
    proof (cases "prefix ''feat'' subject")
      case feat: True
      have "bump_level_loop sp package ''minor'' shas = Inr ''minor''"
        by (rule ih) simp
      with True nb feat out show ?thesis
        by (simp add: touched_package_def subject_body_def)
    next
      case nofeat: False
      with Cons.prems(3) out have later: "bump = ''minor'' \<or>
         (\<exists>sha\<in>set shas. commit_touches sp package sha \<and> commit_startswith sp ''feat'' sha)"
        by (auto simp: commit_startswith_def)
      have same: "bump_level_loop sp package bump shas = Inr ''minor''"
        using later by (rule ih)
      have "(if bump = ''none'' then ''patch'' else bump) = ''minor'' \<or>
         (\<exists>sha\<in>set shas. commit_touches sp package sha \<and> commit_startswith sp ''feat'' sha)"
        using later by auto
      then have raised: "bump_level_loop sp package (if bump = ''none'' then ''patch'' else bump) shas
          = Inr ''minor''"
        by (rule ih)
      from True nb nofeat out same raised show ?thesis
        by (simp add: touched_package_def subject_body_def)
    qed
  qed
qed

lemma bump_level_loop_from_minor:
  "bump_level_loop sp package ''minor'' shas = Inr b' \<Longrightarrow> b' = ''minor'' \<or> b' = ''major''"
proof (induction shas)
  case Nil
  then show ?case by simp
next
  case (Cons sha shas)
  then show ?case
    by (auto simp: touched_package_def subject_body_def split: sum.splits if_splits)
qed

text \<open>
  Claim C3. Let \<open>shas\<close> be the commits of the range, each of which the queries can show.
  If no commit that touches the package is a breaking change and at least one that
  touches it has a subject starting with \<^verbatim>\<open>feat\<close>, both classifiers give \<^verbatim>\<open>minor\<close>,
  wherever the \<^verbatim>\<open>feat\<close> commit stands among \<^verbatim>\<open>fix\<close> commits (and any others). The
  running bump never decreases: the loop of \<^verbatim>\<open>release.py\<close> returns a level at least
  the one it started from, and the loop of \<^verbatim>\<open>bump_level.py\<close>, once at \<^verbatim>\<open>minor\<close>,
  ends with \<^verbatim>\<open>minor\<close> or \<^verbatim>\<open>major\<close>.
\<close>

theorem feat_and_fix_give_minor:
  assumes "\<forall>sha\<in>set shas. commit_readable sp sha"
    and "\<forall>sha\<in>set shas. commit_touches sp package sha \<longrightarrow> \<not> commit_breaking sp sha"
    and "\<exists>sha\<in>set shas. commit_touches sp package sha \<and> commit_startswith sp ''feat'' sha"
  shows "(commit_list sp tag = Inr shas \<and> name pkg = package \<longrightarrow>
            conventional_bump_from_commits sp tag pkg = Inr Bump_minor) \<and>
         (commits_since sp since_ref = Inr shas \<longrightarrow>
            bump_level_main sp [prog, package, since_ref] = Inr (0, [''minor''])) \<and>
         (\<forall>b b' cs. bump_from_commits sp pkg b cs = Inr b' \<longrightarrow> bump_rank b \<le> bump_rank b') \<and>
         (\<forall>b' cs. bump_level_loop sp package ''minor'' cs = Inr b' \<longrightarrow>
            b' = ''minor'' \<or> b' = ''major'')"
proof (intro conjI impI allI)
  assume "commit_list sp tag = Inr shas \<and> name pkg = package"
  then show "conventional_bump_from_commits sp tag pkg = Inr Bump_minor"
    using bump_from_commits_minor [of shas sp pkg Bump_none] assms
    by (auto simp: conventional_bump_from_commits_def)
next
  assume "commits_since sp since_ref = Inr shas"
  then show "bump_level_main sp [prog, package, since_ref] = Inr (0, [''minor''])"
    using bump_level_loop_minor [OF assms(1,2), of "''none''"] assms(3)
    by (simp add: bump_level_main_def)
next
  fix b b' cs assume "bump_from_commits sp pkg b cs = Inr b'"
  then show "bump_rank b \<le> bump_rank b'" by (rule bump_from_commits_mono)
next
  fix b' cs assume "bump_level_loop sp package ''minor'' cs = Inr b'"
  then show "b' = ''minor'' \<or> b' = ''major''" by (rule bump_level_loop_from_minor)
qed

theorem feat_and_fix_give_minor_witness:
  "list_all (commit_readable feat_fix_git) [''c3'', ''c2'', ''c1''] \<and>
   list_all (\<lambda>sha. \<not> (commit_touches feat_fix_git ''p'' sha \<and> commit_breaking feat_fix_git sha))
     [''c3'', ''c2'', ''c1''] \<and>
   (\<exists>sha\<in>set [''c3'', ''c2'', ''c1''].
      commit_touches feat_fix_git ''p'' sha \<and> commit_startswith feat_fix_git ''feat'' sha) \<and>
   commit_list feat_fix_git None = Inr [''c3'', ''c2'', ''c1''] \<and>
   commits_since feat_fix_git [] = Inr [''c3'', ''c2'', ''c1''] \<and>
   conventional_bump_from_commits feat_fix_git None example_package = Inr Bump_minor \<and>
   bump_level_main feat_fix_git [''bump_level.py'', ''p'', []] = Inr (0, [''minor'']) \<and>
   bump_from_commits feat_fix_git example_package Bump_minor [''c3''] = Inr Bump_minor \<and>
   bump_rank Bump_minor \<le> bump_rank Bump_minor \<and>
   bump_level_loop feat_fix_git ''p'' ''minor'' [''c3''] = Inr ''minor''"
proof -
  have readable: "\<forall>sha\<in>set [''c3'', ''c2'', ''c1'']. commit_readable feat_fix_git sha"
    by code_simp
  have unbroken: "\<forall>sha\<in>set [''c3'', ''c2'', ''c1''].
      commit_touches feat_fix_git ''p'' sha \<longrightarrow> \<not> commit_breaking feat_fix_git sha"
    by code_simp
  have feat: "\<exists>sha\<in>set [''c3'', ''c2'', ''c1''].
      commit_touches feat_fix_git ''p'' sha \<and> commit_startswith feat_fix_git ''feat'' sha"
    by code_simp
  have range1: "commit_list feat_fix_git None = Inr [''c3'', ''c2'', ''c1'']"
    by code_simp
  have range2: "commits_since feat_fix_git [] = Inr [''c3'', ''c2'', ''c1'']"
    by code_simp
  have later: "bump_from_commits feat_fix_git example_package Bump_minor [''c3''] = Inr Bump_minor"
    "bump_level_loop feat_fix_git ''p'' ''minor'' [''c3''] = Inr ''minor''"
    by code_simp+
  have pkg: "name example_package = ''p''"
    by (simp add: example_package_def)
  from feat_and_fix_give_minor [OF readable unbroken feat, of None example_package "[]"
      "''bump_level.py''"] range1 range2 pkg readable unbroken feat later
  show ?thesis by (simp add: list_all_iff)
qed

text \<open>
  Claim C1 at a range whose only commit touches the package and has the subject
  \<^verbatim>\<open>perf: faster lookup\<close>: \<^verbatim>\<open>conventional_bump_from_commits\<close> of \<^verbatim>\<open>release.py\<close>, which
  tests the subject for \<^verbatim>\<open>fix\<close> only, returns \<^verbatim>\<open>none\<close>, while \<^verbatim>\<open>bump_level.py\<close>,
  which tests for \<^verbatim>\<open>fix\<close> or \<^verbatim>\<open>perf\<close>, prints \<^verbatim>\<open>patch\<close>.
\<close>

theorem perf_commit_release_none:
  "commit_list perf_git None = Inr [''c1''] \<and>
   commit_touches perf_git ''p'' ''c1'' \<and>
   commit_startswith perf_git ''perf'' ''c1'' \<and>
   \<not> commit_breaking perf_git ''c1'' \<and>
   conventional_bump_from_commits perf_git None example_package = Inr Bump_none \<and>
   bump_level_main perf_git [''bump_level.py'', ''p'', []] = Inr (0, [''patch''])"
  by code_simp

section \<open>Properties of the planning loop\<close>

lemma plan_packages_append:
  "plan_packages sp fs planned (xs @ ys) =
     (case plan_packages sp fs planned xs of
        Inl e \<Rightarrow> Inl e
      | Inr p \<Rightarrow> plan_packages sp fs p ys)"
  by (induction xs arbitrary: planned) (auto simp: Let_def split: sum.splits)

lemma plan_packages_keeps:
  "plan_packages sp fs planned pkgs = Inr plan \<Longrightarrow> set planned \<subseteq> set plan"
proof (induction pkgs arbitrary: planned)
  case Nil
  then show ?case by simp
next
  case (Cons pkg pkgs)
  have ih: "set q \<subseteq> set plan" if "plan_packages sp fs q pkgs = Inr plan" for q
    using that by (rule Cons.IH)
  from Cons.prems show ?case
    by (auto simp: Let_def split: sum.splits if_splits dest!: ih)
qed

lemma plan_packages_forced_patch:
  assumes "package_changed sp pkg (latest_tag_for sp pkg) = Inr True"
    and "conventional_bump_from_commits sp (latest_tag_for sp pkg) pkg = Inr Bump_none"
  shows "plan_packages sp fs planned (pkg # pkgs) =
     (case read_pyproject_version fs (path pkg @ ''/pyproject.toml'') of
        Inl e \<Rightarrow> Inl e
      | Inr current \<Rightarrow>
          (case bump_version current Bump_patch of
             Inl e \<Rightarrow> Inl e
           | Inr next_v \<Rightarrow> plan_packages sp fs (planned @ [(pkg, next_v)]) pkgs))"
  using assms by (simp add: Let_def)

text \<open>
  Claim C8. In the planning loop of \<^verbatim>\<open>cmd_tag_main\<close>, a package that
  \<^verbatim>\<open>package_changed\<close> reports as changed and that the classifier gives \<^verbatim>\<open>none\<close> is
  planned with the bump \<^verbatim>\<open>patch\<close>: the loop goes on with the entry
  \<open>(pkg, bump_version current patch)\<close> appended (or ends with the error of reading or
  bumping the version), and when the planning of all packages succeeds, the plan holds
  that entry. The package is never dropped from the plan.
\<close>

theorem changed_unclassified_forced_patch:
  assumes "package_changed sp pkg (latest_tag_for sp pkg) = Inr True"
    and "conventional_bump_from_commits sp (latest_tag_for sp pkg) pkg = Inr Bump_none"
  shows "plan_packages sp fs planned (pkg # pkgs) =
           (case read_pyproject_version fs (path pkg @ ''/pyproject.toml'') of
              Inl e \<Rightarrow> Inl e
            | Inr current \<Rightarrow>
                (case bump_version current Bump_patch of
                   Inl e \<Rightarrow> Inl e
                 | Inr next_v \<Rightarrow> plan_packages sp fs (planned @ [(pkg, next_v)]) pkgs)) \<and>
         (pkg \<in> set (list_packages fs) \<and> cmd_tag_main_plan sp fs = Inr plan \<longrightarrow>
            (\<exists>current next_v.
               read_pyproject_version fs (path pkg @ ''/pyproject.toml'') = Inr current \<and>
               bump_version current Bump_patch = Inr next_v \<and> (pkg, next_v) \<in> set plan))"
proof (intro conjI impI)
  show "plan_packages sp fs planned (pkg # pkgs) =
           (case read_pyproject_version fs (path pkg @ ''/pyproject.toml'') of
              Inl e \<Rightarrow> Inl e
            | Inr current \<Rightarrow>
                (case bump_version current Bump_patch of
                   Inl e \<Rightarrow> Inl e
                 | Inr next_v \<Rightarrow> plan_packages sp fs (planned @ [(pkg, next_v)]) pkgs))"
    using assms by (rule plan_packages_forced_patch)
next
  assume a: "pkg \<in> set (list_packages fs) \<and> cmd_tag_main_plan sp fs = Inr plan"
  then obtain pre post where split: "list_packages fs = pre @ pkg # post"
    by (auto simp: in_set_conv_decomp)
  from a have "plan_packages sp fs [] (pre @ pkg # post) = Inr plan"
    by (simp add: cmd_tag_main_plan_def split)
  then obtain q where q: "plan_packages sp fs [] pre = Inr q"
    and rest: "plan_packages sp fs q (pkg # post) = Inr plan"
    by (auto simp: plan_packages_append split: sum.splits)
  from rest obtain current next_v where
    cur: "read_pyproject_version fs (path pkg @ ''/pyproject.toml'') = Inr current"
    and nxt: "bump_version current Bump_patch = Inr next_v"
    and tail: "plan_packages sp fs (q @ [(pkg, next_v)]) post = Inr plan"
    unfolding plan_packages_forced_patch [OF assms] by (auto split: sum.splits)
  from plan_packages_keeps [OF tail] have "(pkg, next_v) \<in> set plan" by simp
  with cur nxt show "\<exists>current next_v.
               read_pyproject_version fs (path pkg @ ''/pyproject.toml'') = Inr current \<and>
               bump_version current Bump_patch = Inr next_v \<and> (pkg, next_v) \<in> set plan"
    by blast
qed

theorem changed_unclassified_forced_patch_witness:
  "package_changed chore_git example_package (latest_tag_for chore_git example_package) = Inr True \<and>
   conventional_bump_from_commits chore_git (latest_tag_for chore_git example_package)
     example_package = Inr Bump_none \<and>
   example_package \<in> set (list_packages example_fs) \<and>
   cmd_tag_main_plan chore_git example_fs = Inr [(example_package, ''0.1.1'')] \<and>
   read_pyproject_version example_fs ''p/pyproject.toml'' = Inr ''0.1.0'' \<and>
   bump_version ''0.1.0'' Bump_patch = Inr ''0.1.1''"
proof -
  have changed: "package_changed chore_git example_package
      (latest_tag_for chore_git example_package) = Inr True"
    by code_simp
  have unclassified: "conventional_bump_from_commits chore_git
      (latest_tag_for chore_git example_package) example_package = Inr Bump_none"
    by code_simp
  have listed: "example_package \<in> set (list_packages example_fs)"
    by code_simp
  have plan: "cmd_tag_main_plan chore_git example_fs = Inr [(example_package, ''0.1.1'')]"
    by code_simp
  have current: "read_pyproject_version example_fs ''p/pyproject.toml'' = Inr ''0.1.0''"
    by code_simp
  have pth: "path example_package = ''p''"
    by (simp add: example_package_def)
  from changed_unclassified_forced_patch [OF changed unclassified, of example_fs "[]" "[]"
      "[(example_package, ''0.1.1'')]"] listed plan current changed unclassified
  show ?thesis by (auto simp: pth)
qed


section \<open>Properties of \<^verbatim>\<open>tag_on_merge.py\<close>\<close>

lemma tag_exists_eq:
  "tag_exists env tag w = (Inr (refs w tag \<noteq> None), w)"
  by (cases "refs w tag") (simp_all add: tag_exists_def run_git_def git_exec_def)

lemma create_tag_eq:
  "create_tag env tag w =
     (if refs w tag \<noteq> None then (Inr (), w)
      else if tag_refused env tag then
        (Inl (CalledProcessError [''git'', ''tag'', ''-a'', tag, ''-m'', ''Release '' @ tag]), w)
      else if push_refused env tag then
        (Inl (CalledProcessError [''git'', ''push'', ''origin'', tag]),
         w\<lparr>refs := (refs w)(tag \<mapsto> new_object env tag), created := created w @ [tag]\<rparr>)
      else
        (Inr (), w\<lparr>refs := (refs w)(tag \<mapsto> new_object env tag), created := created w @ [tag],
                   pushed := pushed w @ [tag]\<rparr>))"
  by (cases "refs w tag") (simp_all add: create_tag_def tag_exists_eq run_git_def git_exec_def strip_def)

lemma create_tag_result:
  assumes "create_tag env tag w = (r, w')"
  shows "files w' = files w" and "dom (refs w) \<subseteq> dom (refs w')"
    and "r = Inr () \<Longrightarrow> refs w' tag \<noteq> None"
    and "tags_created_once w \<Longrightarrow> tags_created_once w'"
  using assms
  by (auto simp: create_tag_eq tags_created_once_def split: if_splits)

lemma tag_package_result:
  assumes "tag_package env pkg w = (r, w')"
  shows "files w' = files w" and "dom (refs w) \<subseteq> dom (refs w')"
    and "tags_created_once w \<Longrightarrow> tags_created_once w'"
proof -
  from assms consider "w' = w"
    | version where "create_tag env (''better-mcps-'' @ pkg @ ''-v'' @ version) w = (r, w')"
    by (auto simp: tag_package_def Let_def split: if_splits sum.splits)
  then have "files w' = files w \<and> dom (refs w) \<subseteq> dom (refs w') \<and>
      (tags_created_once w \<longrightarrow> tags_created_once w')"
    by cases (auto dest: create_tag_result)
  then show "files w' = files w" and "dom (refs w) \<subseteq> dom (refs w')"
    and "tags_created_once w \<Longrightarrow> tags_created_once w'"
    by simp_all
qed

lemma tag_packages_result:
  assumes "tag_packages env pkgs w = (r, w')"
  shows "files w' = files w \<and> dom (refs w) \<subseteq> dom (refs w') \<and>
      (tags_created_once w \<longrightarrow> tags_created_once w')"
  using assms
proof (induction pkgs arbitrary: w)
  case Nil
  then show ?case by simp
next
  case (Cons pkg pkgs)
  obtain r1 w1 where step: "tag_package env pkg w = (r1, w1)"
    by (cases "tag_package env pkg w")
  note one = tag_package_result [OF step]
  show ?case
  proof (cases r1)
    case (Inl e)
    with Cons.prems step have "w' = w1" by simp
    with one show ?thesis by simp
  next
    case (Inr u)
    with Cons.prems step have "tag_packages env pkgs w1 = (r, w')" by simp
    from Cons.IH [OF this] one show ?thesis by auto
  qed
qed

lemma tag_packages_append:
  "tag_packages env (xs @ ys) w =
     (case tag_packages env xs w of
        (Inl e, w') \<Rightarrow> (Inl e, w')
      | (Inr u, w') \<Rightarrow> tag_packages env ys w')"
  by (induction xs arbitrary: w) (auto split: prod.splits sum.splits)

lemma main_result:
  assumes "tag_on_merge_main env argv w = (r, w')"
  shows "files w' = files w \<and> dom (refs w) \<subseteq> dom (refs w') \<and>
      (tags_created_once w \<longrightarrow> tags_created_once w')"
proof -
  from assms consider "w' = w"
    | pkgs u where "tag_packages env pkgs w = (u, w')"
    by (auto simp: tag_on_merge_main_def Let_def run_git_def git_exec_def
        split: if_splits sum.splits prod.splits)
  then show ?thesis
    by cases (auto dest: tag_packages_result)
qed


lemma tag_package_missing:
  "\<not> path_exists (files w) (pkg @ ''/pyproject.toml'') \<Longrightarrow> tag_package env pkg w = (Inr (), w)"
  by (simp add: tag_package_def)

lemma tag_packages_skip:
  assumes "\<not> path_exists (files w) (pkg @ ''/pyproject.toml'')"
  shows "tag_packages env (pre @ pkg # post) w = tag_packages env (pre @ post) w"
proof -
  obtain r w1 where pre: "tag_packages env pre w = (r, w1)"
    by (cases "tag_packages env pre w")
  from tag_packages_result [OF pre] assms
  have "\<not> path_exists (files w1) (pkg @ ''/pyproject.toml'')" by simp
  then have "tag_package env pkg w1 = (Inr (), w1)" by (rule tag_package_missing)
  with pre show ?thesis
    by (cases r) (simp_all add: tag_packages_append)
qed

text \<open>
  Claim C10. A package whose \<^verbatim>\<open>pyproject.toml\<close> is named by the diff but does not
  exist in the working tree is skipped: the loop body returns at once without reading a
  version, the world is unchanged (no tag), the loop goes on as if the package were not in
  the list, and a run whose only changed package is this one exits with status 0.
\<close>

theorem missing_descriptor_skipped:
  assumes "\<not> path_exists (files w) (pkg @ ''/pyproject.toml'')"
  shows "tag_package env pkg w = (Inr (), w) \<and>
         tag_packages env (pre @ pkg # post) w = tag_packages env (pre @ post) w \<and>
         (before \<noteq> after \<and> diff_names env before after = Inr changed \<and>
          changed_packages (strip changed) = [pkg] \<longrightarrow>
            tag_on_merge_main env [prog, before, after] w = (Inr 0, w))"
  using assms tag_packages_skip [OF assms, of env "[]" "[]"]
  by (auto simp: tag_package_missing tag_packages_skip tag_on_merge_main_def run_git_def
      git_exec_def Let_def)

theorem missing_descriptor_skipped_witness:
  "\<not> path_exists (files empty_world) (''gone'' @ ''/pyproject.toml'') \<and>
   ''a'' \<noteq> ''b'' \<and>
   diff_names gone_env ''a'' ''b'' = Inr (''gone/pyproject.toml'' @ [NL]) \<and>
   changed_packages (strip (''gone/pyproject.toml'' @ [NL])) = [''gone''] \<and>
   tag_package gone_env ''gone'' empty_world = (Inr (), empty_world) \<and>
   tag_on_merge_main gone_env [''tag_on_merge.py'', ''a'', ''b''] empty_world = (Inr 0, empty_world)"
proof -
  have missing: "\<not> path_exists (files empty_world) (''gone'' @ ''/pyproject.toml'')"
    by (simp add: empty_world_def path_exists_def)
  have diff: "diff_names gone_env ''a'' ''b'' = Inr (''gone/pyproject.toml'' @ [NL])"
    by (simp add: gone_env_def)
  have pkgs: "changed_packages (strip (''gone/pyproject.toml'' @ [NL])) = [''gone'']"
    by code_simp
  from missing_descriptor_skipped [OF missing, of gone_env "[]" "[]" "''a''" "''b''"
      "''gone/pyproject.toml'' @ [NL]" "''tag_on_merge.py''"] missing diff pkgs
  show ?thesis by simp
qed


lemma tag_package_mismatch:
  assumes "read_project_version (files w) (pkg @ ''/pyproject.toml'') = Inr version"
    and "find_init_with_version (files w) pkg = Some init_py"
    and "read_init_version (files w) init_py = Inr init_version"
    and "init_version \<noteq> version"
  shows "tag_package env pkg w =
     (Inl (SystemExit (''Version mismatch for '' @ pkg @ '': pyproject='' @ version @
        '' init='' @ init_version @ '' ('' @ init_py @ '')'')), w)"
proof -
  from assms(1) have "path_exists (files w) (pkg @ ''/pyproject.toml'')"
    by (auto simp: read_project_version_def read_text_def path_exists_def split: option.splits)
  with assms show ?thesis
    by (simp add: tag_package_def check_init_version_def)
qed

text \<open>
  Claim C6. When the version of the descriptor and the version of the package's
  \<^verbatim>\<open>__init__.py\<close> differ, the loop body raises \<^verbatim>\<open>SystemExit\<close> with the mismatch message
  and leaves the world as it was; a loop that reaches the package ends there, in the
  world left by the packages before it, so no tag is created for it or after it; a run
  whose diff names the package does not end normally; and no run changes a file.
\<close>

theorem version_mismatch_fails:
  assumes "read_project_version (files w) (pkg @ ''/pyproject.toml'') = Inr version"
    and "find_init_with_version (files w) pkg = Some init_py"
    and "read_init_version (files w) init_py = Inr init_version"
    and "init_version \<noteq> version"
  shows "tag_package env pkg w =
           (Inl (SystemExit (''Version mismatch for '' @ pkg @ '': pyproject='' @ version @
              '' init='' @ init_version @ '' ('' @ init_py @ '')'')), w) \<and>
         tag_packages env (pre @ pkg # post) w =
           (case tag_packages env pre w of
              (Inl e, w') \<Rightarrow> (Inl e, w')
            | (Inr u, w') \<Rightarrow>
                (Inl (SystemExit (''Version mismatch for '' @ pkg @ '': pyproject='' @ version @
                   '' init='' @ init_version @ '' ('' @ init_py @ '')'')), w')) \<and>
         files (snd (tag_on_merge_main env argv w)) = files w \<and>
         (before \<noteq> after \<and> diff_names env before after = Inr changed \<and>
          pkg \<in> set (changed_packages (strip changed)) \<longrightarrow>
            isl (fst (tag_on_merge_main env [prog, before, after] w)))"
proof (intro conjI impI)
  show "tag_package env pkg w =
           (Inl (SystemExit (''Version mismatch for '' @ pkg @ '': pyproject='' @ version @
              '' init='' @ init_version @ '' ('' @ init_py @ '')'')), w)"
    using assms by (rule tag_package_mismatch)
next
  obtain r w1 where pre: "tag_packages env pre w = (r, w1)"
    by (cases "tag_packages env pre w")
  from tag_packages_result [OF pre] have same: "files w1 = files w" by simp
  have "tag_package env pkg w1 =
     (Inl (SystemExit (''Version mismatch for '' @ pkg @ '': pyproject='' @ version @
        '' init='' @ init_version @ '' ('' @ init_py @ '')'')), w1)"
    by (rule tag_package_mismatch) (simp_all add: same assms)
  with pre show "tag_packages env (pre @ pkg # post) w =
           (case tag_packages env pre w of
              (Inl e, w') \<Rightarrow> (Inl e, w')
            | (Inr u, w') \<Rightarrow>
                (Inl (SystemExit (''Version mismatch for '' @ pkg @ '': pyproject='' @ version @
                   '' init='' @ init_version @ '' ('' @ init_py @ '')'')), w'))"
    by (cases r) (simp_all add: tag_packages_append)
next
  show "files (snd (tag_on_merge_main env argv w)) = files w"
    using main_result [of env argv w] by (cases "tag_on_merge_main env argv w") simp
next
  assume a: "before \<noteq> after \<and> diff_names env before after = Inr changed \<and>
          pkg \<in> set (changed_packages (strip changed))"
  then obtain pre post where split: "changed_packages (strip changed) = pre @ pkg # post"
    by (auto simp: in_set_conv_decomp)
  obtain r w1 where pre: "tag_packages env pre w = (r, w1)"
    by (cases "tag_packages env pre w")
  from tag_packages_result [OF pre] have same: "files w1 = files w" by simp
  have "tag_package env pkg w1 =
     (Inl (SystemExit (''Version mismatch for '' @ pkg @ '': pyproject='' @ version @
        '' init='' @ init_version @ '' ('' @ init_py @ '')'')), w1)"
    by (rule tag_package_mismatch) (simp_all add: same assms)
  with pre have "isl (fst (tag_packages env (pre @ pkg # post) w))"
    by (cases r) (simp_all add: tag_packages_append)
  with a split show "isl (fst (tag_on_merge_main env [prog, before, after] w))"
    by (auto simp: tag_on_merge_main_def run_git_def git_exec_def Let_def
        split: prod.splits sum.splits)
qed


theorem version_mismatch_fails_witness:
  "read_project_version (files mismatch_world) (''p'' @ ''/pyproject.toml'') = Inr ''1.2.0'' \<and>
   find_init_with_version (files mismatch_world) ''p'' = Some ''p/src/m/__init__.py'' \<and>
   read_init_version (files mismatch_world) ''p/src/m/__init__.py'' = Inr ''1.1.9'' \<and>
   ''1.1.9'' \<noteq> ''1.2.0'' \<and>
   ''p'' \<in> set (changed_packages
      (strip (''p/pyproject.toml'' @ [NL] @ ''p/src/m/__init__.py'' @ [NL]))) \<and>
   tag_package release_env ''p'' mismatch_world =
     (Inl (SystemExit ''Version mismatch for p: pyproject=1.2.0 init=1.1.9 (p/src/m/__init__.py)''),
      mismatch_world) \<and>
   isl (fst (tag_on_merge_main release_env [''tag_on_merge.py'', ''a'', ''b''] mismatch_world)) \<and>
   files (snd (tag_on_merge_main release_env [''tag_on_merge.py'', ''a'', ''b''] mismatch_world))
     = files mismatch_world"
proof -
  have fs: "files mismatch_world =
       [(''p/pyproject.toml'', ''version = '' @ [DQ] @ ''1.2.0'' @ [DQ] @ [NL]),
        (''p/src/m/__init__.py'', ''__version__ = '' @ [DQ] @ ''1.1.9'' @ [DQ] @ [NL])]"
    by (simp add: mismatch_world_def)
  have descriptor: "read_project_version (files mismatch_world) (''p'' @ ''/pyproject.toml'')
      = Inr ''1.2.0''"
    unfolding fs by code_simp
  have init: "find_init_with_version (files mismatch_world) ''p'' = Some ''p/src/m/__init__.py''"
    unfolding fs by code_simp
  have secondary: "read_init_version (files mismatch_world) ''p/src/m/__init__.py'' = Inr ''1.1.9''"
    unfolding fs by code_simp
  have differ: "''1.1.9'' \<noteq> ''1.2.0''"
    by simp
  have listed: "''p'' \<in> set (changed_packages
      (strip (''p/pyproject.toml'' @ [NL] @ ''p/src/m/__init__.py'' @ [NL])))"
    by code_simp
  have diff: "''a'' \<noteq> ''b'' \<and> diff_names release_env ''a'' ''b''
      = Inr (''p/pyproject.toml'' @ [NL] @ ''p/src/m/__init__.py'' @ [NL])"
    by (simp add: release_env_def)
  from version_mismatch_fails [OF descriptor init secondary differ, of release_env "[]" "[]"
      "[''tag_on_merge.py'', ''a'', ''b'']" "''a''" "''b''"
      "''p/pyproject.toml'' @ [NL] @ ''p/src/m/__init__.py'' @ [NL]" "''tag_on_merge.py''"]
    descriptor init secondary listed diff
  show ?thesis by simp
qed

lemma tag_package_again:
  assumes "tag_package env pkg w = (Inr (), w')"
    and "files w2 = files w" and "dom (refs w') \<subseteq> dom (refs w2)"
  shows "tag_package env pkg w2 = (Inr (), w2)"
proof (cases "path_exists (files w) (pkg @ ''/pyproject.toml'')")
  case False
  with assms(2) show ?thesis by (simp add: tag_package_def)
next
  case True
  with assms(1) obtain version where
    v: "read_project_version (files w) (pkg @ ''/pyproject.toml'') = Inr version"
    and c: "check_init_version (files w) pkg version = Inr ()"
    and t: "create_tag env (''better-mcps-'' @ pkg @ ''-v'' @ version) w = (Inr (), w')"
    by (auto simp: tag_package_def split: sum.splits)
  from create_tag_result(3) [OF t] assms(3)
  have "refs w2 (''better-mcps-'' @ pkg @ ''-v'' @ version) \<noteq> None" by auto
  then have "create_tag env (''better-mcps-'' @ pkg @ ''-v'' @ version) w2 = (Inr (), w2)"
    by (simp add: create_tag_eq)
  with True v c assms(2) show ?thesis by (simp add: tag_package_def)
qed

lemma tag_packages_again:
  assumes "tag_packages env pkgs w = (Inr (), w1)"
    and "files w2 = files w" and "dom (refs w1) \<subseteq> dom (refs w2)"
  shows "tag_packages env pkgs w2 = (Inr (), w2)"
  using assms
proof (induction pkgs arbitrary: w)
  case Nil
  then show ?case by simp
next
  case (Cons pkg pkgs)
  from Cons.prems(1) obtain w' where step: "tag_package env pkg w = (Inr (), w')"
    and rest: "tag_packages env pkgs w' = (Inr (), w1)"
    by (auto split: prod.splits sum.splits)
  from tag_package_result [OF step] have fw: "files w' = files w" by simp
  from tag_packages_result [OF rest] have "dom (refs w') \<subseteq> dom (refs w1)" by simp
  with Cons.prems(3) have "dom (refs w') \<subseteq> dom (refs w2)" by blast
  with step Cons.prems(2) have one: "tag_package env pkg w2 = (Inr (), w2)"
    by (rule tag_package_again)
  have "tag_packages env pkgs w2 = (Inr (), w2)"
    by (rule Cons.IH [OF rest]) (simp_all add: fw Cons.prems)
  with one show ?case by simp
qed

lemma main_again:
  assumes "tag_on_merge_main env argv w = (Inr 0, w1)"
  shows "tag_on_merge_main env argv w1 = (Inr 0, w1)"
proof -
  from main_result [OF assms] have fw: "files w1 = files w" by simp
  from assms have len: "length argv = 3"
    by (auto simp: tag_on_merge_main_def split: if_splits)
  then obtain prog before after where argv: "argv = [prog, before, after]"
    by (cases argv; cases "tl argv"; cases "tl (tl argv)") auto
  define changed where "changed = (if before \<noteq> after
     then (case diff_names env before after of Inl e \<Rightarrow> Inl e
           | Inr out \<Rightarrow> Inr (strip out)) else Inr [])"
  have q: "(if before \<noteq> after
          then run_git env [''git'', ''diff'', ''--name-only'', before, after] v
          else (Inr [], v)) = (changed, v)" for v
    by (auto simp: changed_def run_git_def git_exec_def split: sum.splits)
  have main: "tag_on_merge_main env argv v =
     (case changed of Inl e \<Rightarrow> (Inl e, v)
      | Inr c \<Rightarrow> if changed_packages c = [] then (Inr 0, v)
          else (case tag_packages env (changed_packages c) v of
                  (Inl e, v2) \<Rightarrow> (Inl e, v2) | (Inr u, v2) \<Rightarrow> (Inr 0, v2)))" for v
  proof (cases "before = after")
    case True
    then have "changed = Inr []" by (simp add: changed_def)
    with True show ?thesis
      by (simp add: argv tag_on_merge_main_def Let_def)
  next
    case False
    with q [of v] have "run_git env [''git'', ''diff'', ''--name-only'', before, after] v
        = (changed, v)" by simp
    with False show ?thesis
      by (cases changed) (simp_all add: argv tag_on_merge_main_def Let_def)
  qed
  from assms obtain c where c: "changed = Inr c"
    by (cases changed) (simp_all add: main)
  show ?thesis
  proof (cases "changed_packages c = []")
    case True
    with assms c show ?thesis by (simp add: main)
  next
    case False
    with assms c have "tag_packages env (changed_packages c) w = (Inr (), w1)"
      by (auto simp: main split: prod.splits sum.splits)
    then have "tag_packages env (changed_packages c) w1 = (Inr (), w1)"
      using fw by (rule tag_packages_again) simp_all
    with False c show ?thesis by (simp add: main)
  qed
qed

text \<open>
  Claim C9. A run that ended with status 0, run again in the world it left, ends with
  status 0 and changes nothing: every tag it would create resolves already, and
  \<^verbatim>\<open>tag_exists\<close> makes the loop skip it. In any two runs in a row, whatever their
  results, each tag of the log of created tags is there once.
\<close>

theorem reconcile_idempotent:
  "(tag_on_merge_main env argv w = (Inr 0, w1) \<longrightarrow>
      tag_on_merge_main env argv w1 = (Inr 0, w1)) \<and>
   (refs w tag \<noteq> None \<longrightarrow> create_tag env tag w = (Inr (), w)) \<and>
   (tags_created_once w \<and> tag_on_merge_main env argv w = (r1, w1) \<and>
    tag_on_merge_main env argv w1 = (r2, w2) \<longrightarrow>
      distinct (created w2) \<and> set (created w2) \<subseteq> dom (refs w2))"
proof (intro conjI impI)
  assume "tag_on_merge_main env argv w = (Inr 0, w1)"
  then show "tag_on_merge_main env argv w1 = (Inr 0, w1)" by (rule main_again)
next
  assume "refs w tag \<noteq> None"
  then show "create_tag env tag w = (Inr (), w)" by (simp add: create_tag_eq)
next
  assume a: "tags_created_once w \<and> tag_on_merge_main env argv w = (r1, w1) \<and>
    tag_on_merge_main env argv w1 = (r2, w2)"
  then have "tags_created_once w1" using main_result [of env argv w r1 w1] by simp
  with a have "tags_created_once w2" using main_result [of env argv w1 r2 w2] by simp
  then show "distinct (created w2)" and "set (created w2) \<subseteq> dom (refs w2)"
    by (simp_all add: tags_created_once_def)
qed


theorem reconcile_idempotent_witness:
  "tag_on_merge_main release_env [''tag_on_merge.py'', ''a'', ''b''] release_world
     = (Inr 0, tagged_world) \<and>
   tag_on_merge_main release_env [''tag_on_merge.py'', ''a'', ''b''] tagged_world
     = (Inr 0, tagged_world) \<and>
   refs tagged_world ''better-mcps-p-v1.2.0'' \<noteq> None \<and>
   create_tag release_env ''better-mcps-p-v1.2.0'' tagged_world = (Inr (), tagged_world) \<and>
   tags_created_once release_world \<and>
   created tagged_world = [''better-mcps-p-v1.2.0''] \<and>
   distinct (created tagged_world)"
proof -
  have fs: "files release_world =
       [(''p/pyproject.toml'', ''version = '' @ [DQ] @ ''1.2.0'' @ [DQ] @ [NL]),
        (''p/src/m/__init__.py'', ''__version__ = '' @ [DQ] @ ''1.2.0'' @ [DQ] @ [NL])]"
    by (simp add: release_world_def)
  have descriptor: "path_exists (files release_world) ''p/pyproject.toml''"
    "read_project_version (files release_world) ''p/pyproject.toml'' = Inr ''1.2.0''"
    "check_init_version (files release_world) ''p'' ''1.2.0'' = Inr ()"
    unfolding fs by code_simp+
  have pkgs: "changed_packages
      (strip (''p/pyproject.toml'' @ [NL] @ ''p/src/m/__init__.py'' @ [NL])) = [''p'']"
    by code_simp
  have fresh: "refs release_world ''better-mcps-p-v1.2.0'' = None"
    by (simp add: release_world_def)
  have "create_tag release_env ''better-mcps-p-v1.2.0'' release_world = (Inr (), tagged_world)"
    by (simp add: create_tag_eq fresh release_env_def tagged_world_def release_world_def)
  with descriptor have "tag_package release_env ''p'' release_world = (Inr (), tagged_world)"
    by (simp add: tag_package_def)
  with pkgs have first: "tag_on_merge_main release_env [''tag_on_merge.py'', ''a'', ''b'']
      release_world = (Inr 0, tagged_world)"
    by (simp add: tag_on_merge_main_def run_git_def git_exec_def release_env_def)
  have once: "tags_created_once release_world"
    by (simp add: tags_created_once_def release_world_def)
  have there: "refs tagged_world ''better-mcps-p-v1.2.0'' \<noteq> None"
    by (simp add: tagged_world_def)
  have log: "created tagged_world = [''better-mcps-p-v1.2.0'']"
    by (simp add: tagged_world_def)
  note again = reconcile_idempotent [of release_env "[''tag_on_merge.py'', ''a'', ''b'']"
      release_world tagged_world "''better-mcps-p-v1.2.0''" "Inr 0" "Inr 0" tagged_world]
  note skip = reconcile_idempotent [of release_env "[''tag_on_merge.py'', ''a'', ''b'']"
      tagged_world tagged_world "''better-mcps-p-v1.2.0''" "Inr 0" "Inr 0" tagged_world]
  from again first have second: "tag_on_merge_main release_env
      [''tag_on_merge.py'', ''a'', ''b''] tagged_world = (Inr 0, tagged_world)"
    by blast
  from skip there have skipped: "create_tag release_env ''better-mcps-p-v1.2.0'' tagged_world
      = (Inr (), tagged_world)"
    by blast
  from again once first second have "distinct (created tagged_world)"
    by blast
  with first second there skipped once log show ?thesis by simp
qed

section \<open>Properties of reading a version\<close>

lemma dropWhile_append_cases:
  "dropWhile P (a @ x) = (case dropWhile P a of [] \<Rightarrow> dropWhile P x | c # r \<Rightarrow> c # r @ x)"
  by (induction a) auto

lemma takeWhile_append_cases:
  "takeWhile P (a @ x) = (if dropWhile P a = [] then a @ takeWhile P x else takeWhile P a)"
  by (induction a) auto

lemma prefix_line:
  assumes "NL \<notin> set key"
  shows "prefix key (l @ NL # rest) = prefix key l"
proof
  assume "prefix key (l @ NL # rest)"
  then consider "prefix key l" | k where "key = l @ k" "prefix k (NL # rest)"
    by (auto simp: prefix_append)
  then show "prefix key l"
  proof cases
    case 1
    then show ?thesis .
  next
    case 2
    show ?thesis
    proof (cases k)
      case Nil
      with 2 show ?thesis by simp
    next
      case (Cons c k')
      with 2 have "c = NL" by simp
      with 2 Cons assms show ?thesis by simp
    qed
  qed
qed auto

lemma assignment_at_line:
  assumes "NL \<notin> set key" and "NL \<notin> set l" and "\<not> unfinished key l"
  shows "assignment_at key (l @ NL # rest) = assignment_at key l"
proof (cases "prefix key l")
  case False
  with assms(1) show ?thesis by (simp add: assignment_at_def prefix_line)
next
  case True
  then obtain a where l: "l = key @ a" by (auto simp: prefix_def)
  with assms(2) have a: "NL \<notin> set a" by simp
  from assms(3) have u: "\<not> (case dropWhile isspace a of
         [] \<Rightarrow> True
       | c1 # r1 \<Rightarrow>
           c1 = CHR ''='' \<and>
           (case dropWhile isspace r1 of
              [] \<Rightarrow> True
            | c2 # r2 \<Rightarrow> c2 = DQ \<and> DQ \<notin> set r2))"
    by (simp add: unfinished_def l)
  then obtain c1 r1 where d1: "dropWhile isspace a = c1 # r1"
    by (cases "dropWhile isspace a") auto
  have r1: "set r1 \<subseteq> set a"
    using set_dropWhileD [of _ isspace a] d1 by auto
  show ?thesis
  proof (cases "c1 = CHR ''=''")
    case False
    with d1 show ?thesis by (simp add: assignment_at_def l dropWhile_append_cases)
  next
    case eq: True
    with u d1 obtain c2 r2 where d2: "dropWhile isspace r1 = c2 # r2"
      by (cases "dropWhile isspace r1") auto
    have r2: "set r2 \<subseteq> set r1"
      using set_dropWhileD [of _ isspace r1] d2 by auto
    show ?thesis
    proof (cases "c2 = DQ")
      case False
      with d1 d2 eq show ?thesis by (simp add: assignment_at_def l dropWhile_append_cases)
    next
      case quote: True
      with u d1 d2 eq have "DQ \<in> set r2" by simp
      then have ne: "dropWhile (\<lambda>c. c \<noteq> DQ) r2 \<noteq> []"
        by simp
      from hd_dropWhile [OF this] have "hd (dropWhile (\<lambda>c. c \<noteq> DQ) r2) = DQ"
        by simp
      with ne obtain r3 where d3: "dropWhile (\<lambda>c. c \<noteq> DQ) r2 = DQ # r3"
        by (cases "dropWhile (\<lambda>c. c \<noteq> DQ) r2") auto
      have r3: "set r3 \<subseteq> set r2"
        using set_dropWhileD [of _ "\<lambda>c. c \<noteq> DQ" r2] d3 by auto
      have nl: "NL \<notin> set r3" using r3 r2 r1 a by auto
      have tail: "at_line_end (r3 @ NL # rest) = at_line_end r3"
      proof (cases "dropWhile (\<lambda>c. isspace c \<and> c \<noteq> NL) r3")
        case Nil
        show ?thesis unfolding at_line_end_def dropWhile_append_cases Nil by simp
      next
        case (Cons c4 r4)
        then have "c4 \<in> set r3"
          using set_dropWhileD [of c4 "\<lambda>c. isspace c \<and> c \<noteq> NL" r3] by simp
        with nl have "c4 \<noteq> NL" by auto
        with Cons show ?thesis by (simp add: at_line_end_def dropWhile_append_cases)
      qed
      have e1: "dropWhile isspace (a @ NL # rest) = c1 # r1 @ NL # rest"
        by (simp add: dropWhile_append_cases d1)
      have e2: "dropWhile isspace (r1 @ NL # rest) = c2 # r2 @ NL # rest"
        by (simp add: dropWhile_append_cases d2)
      have e3: "dropWhile (\<lambda>c. c \<noteq> DQ) (r2 @ NL # rest) = DQ # r3 @ NL # rest"
        by (simp add: dropWhile_append_cases d3)
      have e4: "takeWhile (\<lambda>c. c \<noteq> DQ) (r2 @ NL # rest) = takeWhile (\<lambda>c. c \<noteq> DQ) r2"
        using d3 by (simp add: takeWhile_append_cases del: dropWhile_eq_Nil_conv)
      show ?thesis
        by (simp add: assignment_at_def l e1 e2 e3 e4 d1 d2 d3 tail)
    qed
  qed
qed


lemma search_rest_of_line:
  "NL \<notin> set l \<Longrightarrow>
     search_assignment key False (l @ NL # rest) = search_assignment key True rest"
  by (induction l) auto

lemma search_last_line:
  "NL \<notin> set l \<Longrightarrow> search_assignment key False l = None"
  by (induction l) auto

lemma search_line:
  assumes "NL \<notin> set l"
  shows "search_assignment key True (l @ NL # rest) =
     (case assignment_at key (l @ NL # rest) of
        Some v \<Rightarrow> Some v
      | None \<Rightarrow> search_assignment key True rest)"
proof (cases l)
  case Nil
  then show ?thesis by (simp split: option.splits)
next
  case (Cons c cs)
  with assms have "c \<noteq> NL" "NL \<notin> set cs" by auto
  with Cons show ?thesis
    by (simp add: search_rest_of_line split: option.splits)
qed

lemma search_only_line:
  assumes "NL \<notin> set l"
  shows "search_assignment key True l = assignment_at key l"
proof (cases l)
  case Nil
  then show ?thesis by simp
next
  case (Cons c cs)
  with assms have "c \<noteq> NL" "NL \<notin> set cs" by auto
  with Cons show ?thesis
    by (simp add: search_last_line split: option.splits)
qed

lemma search_skips_lines:
  assumes "NL \<notin> set key"
    and "\<forall>l\<in>set pre. NL \<notin> set l \<and> \<not> unfinished key l \<and> assignment_at key l = None"
  shows "search_assignment key True (lines_text pre @ s) = search_assignment key True s"
  using assms(2)
proof (induction pre)
  case Nil
  then show ?case by (simp add: lines_text_def)
next
  case (Cons l pre)
  then have l: "NL \<notin> set l" "\<not> unfinished key l" "assignment_at key l = None"
    and ih: "search_assignment key True (lines_text pre @ s) = search_assignment key True s"
    by simp_all
  have "lines_text (l # pre) @ s = l @ NL # (lines_text pre @ s)"
    by (simp add: lines_text_def)
  then show ?case
    using l ih assms(1) by (simp add: search_line assignment_at_line)
qed

lemma matched_line_finished:
  assumes "assignment_at key l = Some v"
  shows "\<not> unfinished key l"
proof -
  from assms obtain r1 r2 c3 r3 where
    d1: "dropWhile isspace (drop (length key) l) = CHR ''='' # r1"
    and d2: "dropWhile isspace r1 = DQ # r2"
    and d3: "dropWhile (\<lambda>c. c \<noteq> DQ) r2 = c3 # r3"
    by (auto simp: assignment_at_def simp del: dropWhile_eq_Nil_conv
        split: if_splits list.splits)
  from d3 have "dropWhile (\<lambda>c. c \<noteq> DQ) r2 \<noteq> []" by simp
  then have "DQ \<in> set r2" by simp
  with d1 d2 show ?thesis by (simp add: unfinished_def)
qed

lemma search_no_assignment:
  assumes "NL \<notin> set key"
    and "\<forall>l\<in>set (ls @ [final]). NL \<notin> set l \<and> \<not> unfinished key l \<and> assignment_at key l = None"
  shows "search_assignment key True (lines_text ls @ final) = None"
proof -
  from assms(2) have pre: "\<forall>l\<in>set ls. NL \<notin> set l \<and> \<not> unfinished key l \<and> assignment_at key l = None"
    and final: "NL \<notin> set final" "assignment_at key final = None"
    by simp_all
  from search_skips_lines [OF assms(1) pre] final show ?thesis
    by (simp add: search_only_line)
qed

lemma search_first_assignment:
  assumes "NL \<notin> set key"
    and "\<forall>l\<in>set pre. NL \<notin> set l \<and> \<not> unfinished key l \<and> assignment_at key l = None"
    and "NL \<notin> set l" and "assignment_at key l = Some v" and "rest = [] \<or> hd rest = NL"
  shows "search_assignment key True (lines_text pre @ l @ rest) = Some v"
proof (cases rest)
  case Nil
  with search_skips_lines [OF assms(1,2), of l] assms(3,4) show ?thesis
    by (simp add: search_only_line)
next
  case (Cons c cs)
  with assms(5) have rest: "rest = NL # cs" by simp
  from assms(4) have "\<not> unfinished key l" by (rule matched_line_finished)
  with assms(1,3,4) have "assignment_at key (l @ NL # cs) = Some v"
    by (simp add: assignment_at_line)
  with assms(3) have "search_assignment key True (l @ NL # cs) = Some v"
    by (simp add: search_line)
  with search_skips_lines [OF assms(1,2), of "l @ rest"] rest show ?thesis by simp
qed

text \<open>
  Claim C5, as stated, at a descriptor whose second and third lines are both version
  assignments: \<^verbatim>\<open>read_pyproject_version\<close> and \<^verbatim>\<open>read_project_version\<close> return the
  value of the first; they do not fail.
\<close>

theorem read_version_two_assignments:
  "read_text two_versions_fs ''p/pyproject.toml'' =
     Inr (lines_text [''[project]'', ''version = '' @ [DQ] @ ''1.0.0'' @ [DQ],
                      ''version = '' @ [DQ] @ ''2.0.0'' @ [DQ]]) \<and>
   assignment_at ''version'' (''version = '' @ [DQ] @ ''1.0.0'' @ [DQ]) = Some ''1.0.0'' \<and>
   assignment_at ''version'' (''version = '' @ [DQ] @ ''2.0.0'' @ [DQ]) = Some ''2.0.0'' \<and>
   read_pyproject_version two_versions_fs ''p/pyproject.toml'' = Inr ''1.0.0'' \<and>
   read_project_version two_versions_fs ''p/pyproject.toml'' = Inr ''1.0.0''"
  by code_simp

text \<open>
  Claim C5, amended. For the text of a descriptor in which no line breaks off inside an
  assignment: when no line is a version assignment, reading the version raises
  \<^verbatim>\<open>ValueError\<close>; when a line is one and no line before it is, reading returns its
  value, whatever follows, further assignments included. A line is an assignment when the
  pattern matches it, taken alone.
\<close>

theorem read_version_first_assignment:
  assumes "read_text fs p = Inr txt"
  shows "(txt = lines_text ls @ final \<and>
          (\<forall>l\<in>set (ls @ [final]). NL \<notin> set l \<and> \<not> unfinished ''version'' l \<and>
             assignment_at ''version'' l = None) \<longrightarrow>
            read_pyproject_version fs p = Inl (ValueError (''Could not find version in '' @ p)) \<and>
            read_project_version fs p = Inl (ValueError (''Could not find version in '' @ p))) \<and>
         (txt = lines_text pre @ l @ rest \<and>
          (\<forall>l'\<in>set pre. NL \<notin> set l' \<and> \<not> unfinished ''version'' l' \<and>
             assignment_at ''version'' l' = None) \<and>
          NL \<notin> set l \<and> assignment_at ''version'' l = Some v \<and> (rest = [] \<or> hd rest = NL) \<longrightarrow>
            read_pyproject_version fs p = Inr v \<and> read_project_version fs p = Inr v)"
proof -
  have key: "NL \<notin> set ''version''" by simp
  show ?thesis
    using assms search_no_assignment [OF key, of ls final]
      search_first_assignment [OF key, of pre l v rest]
    by (auto simp: read_pyproject_version_def read_project_version_def)
qed

theorem read_version_first_assignment_witness:
  "read_text no_version_fs ''p/pyproject.toml'' =
     Inr (lines_text [''[project]'', ''name = '' @ [DQ] @ ''p'' @ [DQ]] @ []) \<and>
   list_all (\<lambda>l. NL \<notin> set l \<and> \<not> unfinished ''version'' l \<and> assignment_at ''version'' l = None)
     [''[project]'', ''name = '' @ [DQ] @ ''p'' @ [DQ], []] \<and>
   read_pyproject_version no_version_fs ''p/pyproject.toml''
     = Inl (ValueError ''Could not find version in p/pyproject.toml'') \<and>
   read_text two_versions_fs ''p/pyproject.toml'' =
     Inr (lines_text [''[project]''] @ (''version = '' @ [DQ] @ ''1.0.0'' @ [DQ]) @
          (NL # ''version = '' @ [DQ] @ ''2.0.0'' @ [DQ] @ [NL])) \<and>
   assignment_at ''version'' (''version = '' @ [DQ] @ ''1.0.0'' @ [DQ]) = Some ''1.0.0'' \<and>
   read_pyproject_version two_versions_fs ''p/pyproject.toml'' = Inr ''1.0.0'' \<and>
   read_project_version two_versions_fs ''p/pyproject.toml'' = Inr ''1.0.0''"
proof -
  have file1: "read_text no_version_fs ''p/pyproject.toml'' =
     Inr (lines_text [''[project]'', ''name = '' @ [DQ] @ ''p'' @ [DQ]] @ [])"
    by code_simp
  have lines1: "\<forall>l\<in>set ([''[project]'', ''name = '' @ [DQ] @ ''p'' @ [DQ]] @ [[]]).
      NL \<notin> set l \<and> \<not> unfinished ''version'' l \<and> assignment_at ''version'' l = None"
    by code_simp
  have file2: "read_text two_versions_fs ''p/pyproject.toml'' =
     Inr (lines_text [''[project]''] @ (''version = '' @ [DQ] @ ''1.0.0'' @ [DQ]) @
          (NL # ''version = '' @ [DQ] @ ''2.0.0'' @ [DQ] @ [NL]))"
    by code_simp
  have lines2: "\<forall>l\<in>set [''[project]''].
      NL \<notin> set l \<and> \<not> unfinished ''version'' l \<and> assignment_at ''version'' l = None"
    by code_simp
  have line: "NL \<notin> set (''version = '' @ [DQ] @ ''1.0.0'' @ [DQ])"
    "assignment_at ''version'' (''version = '' @ [DQ] @ ''1.0.0'' @ [DQ]) = Some ''1.0.0''"
    by code_simp+
  from read_version_first_assignment [OF file1, of "[''[project]'', ''name = '' @ [DQ] @ ''p'' @ [DQ]]"
      "[]" "[]" "[]" "[]" "[]"] lines1
  have none: "read_pyproject_version no_version_fs ''p/pyproject.toml''
     = Inl (ValueError ''Could not find version in p/pyproject.toml'')"
    by simp
  from read_version_first_assignment [OF file2, of "[]" "[]" "[''[project]'']"
      "''version = '' @ [DQ] @ ''1.0.0'' @ [DQ]"
      "NL # ''version = '' @ [DQ] @ ''2.0.0'' @ [DQ] @ [NL]" "''1.0.0''"] lines2 line
  have first: "read_pyproject_version two_versions_fs ''p/pyproject.toml'' = Inr ''1.0.0''"
    "read_project_version two_versions_fs ''p/pyproject.toml'' = Inr ''1.0.0''"
    by simp_all
  from file1 lines1 none file2 line first show ?thesis
    by (simp add: list_all_iff)
qed

section \<open>Failing subprocesses\<close>

text \<open>
  Claim C7, as stated, at a repository whose tag listing exits non-zero: \<^verbatim>\<open>run\<close>
  raises \<^verbatim>\<open>CalledProcessError\<close>, but \<^verbatim>\<open>latest_tag_for\<close> returns \<^verbatim>\<open>None\<close>, and
  the planning and \<^verbatim>\<open>cmd_detect_changed\<close> go on as for a package without a release:
  they end without an error, and where the commands of the apply phase succeed,
  \<^verbatim>\<open>cmd_tag_main\<close> writes the versions and returns 0.
\<close>

theorem tag_listing_failure_swallowed:
  "run failing_tags_git [''git'', ''tag'', ''--list'', ''better-mcps-p-v*'', ''--sort=-creatordate'']
     = Inl (CalledProcessError [''git'', ''tag'']) \<and>
   latest_tag_for failing_tags_git example_package = None \<and>
   cmd_tag_main_plan failing_tags_git example_fs = Inr [(example_package, ''0.1.1'')] \<and>
   cmd_detect_changed failing_tags_git example_fs = Inr [''p''] \<and>
   cmd_tag_main (allowing release_commands failing_tags_git) versions_fs = (Inr (0, []), bumped_fs)"
  by code_simp

lemma bump_from_commits_passed:
  "\<forall>s\<in>set pre. commit_passed sp (name pkg) s \<Longrightarrow>
   \<exists>b'. bump_from_commits sp pkg b (pre @ rest) = bump_from_commits sp pkg b' rest"
proof (induction pre arbitrary: b)
  case Nil
  then show ?case by auto
next
  case (Cons a pre)
  have ih: "\<exists>b'. bump_from_commits sp pkg c (pre @ rest) = bump_from_commits sp pkg b' rest" for c
    using Cons.prems by (intro Cons.IH) simp
  from Cons.prems have "commit_passed sp (name pkg) a" by simp
  then show ?case
    by (auto simp: commit_passed_def split: sum.splits intro: ih)
qed

lemma bump_from_commits_fails_at:
  assumes "\<forall>s\<in>set pre. commit_passed sp (name pkg) s"
    and "\<And>b. bump_from_commits sp pkg b (sha # shas) = Inl e"
  shows "bump_from_commits sp pkg bump (pre @ sha # shas) = Inl e"
proof -
  from bump_from_commits_passed [OF assms(1)] obtain b'
    where "bump_from_commits sp pkg bump (pre @ sha # shas) = bump_from_commits sp pkg b' (sha # shas)"
    by blast
  with assms(2) show ?thesis by simp
qed

lemma bump_level_loop_passed:
  "\<forall>s\<in>set pre. commit_passed sp package s \<Longrightarrow>
   \<exists>b'. bump_level_loop sp package b (pre @ rest) = bump_level_loop sp package b' rest"
proof (induction pre arbitrary: b)
  case Nil
  then show ?case by auto
next
  case (Cons a pre)
  have ih: "\<exists>b'. bump_level_loop sp package c (pre @ rest) = bump_level_loop sp package b' rest" for c
    using Cons.prems by (intro Cons.IH) simp
  from Cons.prems have "commit_passed sp package a" by simp
  then show ?case
    by (auto simp: commit_passed_def touched_package_def subject_body_def
        split: sum.splits intro: ih)
qed

lemma bump_level_loop_fails_at:
  assumes "\<forall>s\<in>set pre. commit_passed sp package s"
    and "\<And>b. bump_level_loop sp package b (sha # shas) = Inl e"
  shows "bump_level_loop sp package level (pre @ sha # shas) = Inl e"
proof -
  from bump_level_loop_passed [OF assms(1)] obtain b'
    where "bump_level_loop sp package level (pre @ sha # shas) = bump_level_loop sp package b' (sha # shas)"
    by blast
  with assms(2) show ?thesis by simp
qed

lemma names_query_fails:
  assumes "sp [''git'', ''show'', ''--name-only'', ''--pretty=format:'', sha] = Inl e"
  shows "bump_from_commits sp pkg b (sha # shas) = Inl e"
    and "bump_level_loop sp package level (sha # shas) = Inl e"
  using assms by (simp_all add: git_show_names_def touched_package_def run_def)

lemma subject_query_fails:
  assumes "sp [''git'', ''show'', ''-s'', ''--format=%s'', sha] = Inl e"
  shows "commit_touches sp (name pkg) sha \<Longrightarrow> bump_from_commits sp pkg b (sha # shas) = Inl e"
    and "commit_touches sp package sha \<Longrightarrow> bump_level_loop sp package level (sha # shas) = Inl e"
  using assms
  by (auto simp: commit_touches_def git_show_subject_def touched_package_def subject_body_def
      run_def split: sum.splits)

lemma body_query_fails:
  assumes "sp [''git'', ''show'', ''-s'', ''--format=%s'', sha] = Inr subject"
    and "sp [''git'', ''show'', ''-s'', ''--format=%b'', sha] = Inl e"
  shows "commit_touches sp (name pkg) sha \<Longrightarrow> bump_from_commits sp pkg b (sha # shas) = Inl e"
    and "commit_touches sp package sha \<Longrightarrow> bump_level_loop sp package level (sha # shas) = Inl e"
  using assms
  by (auto simp: commit_touches_def git_show_subject_def git_show_body_def touched_package_def
      subject_body_def run_def split: sum.splits)

lemma detect_changed_append:
  "detect_changed sp changed (xs @ ys) =
     (case detect_changed sp changed xs of
        Inl e \<Rightarrow> Inl e
      | Inr c \<Rightarrow> detect_changed sp c ys)"
  by (induction xs arbitrary: changed) (auto split: sum.splits)

lemma apply_planned_append:
  "apply_planned sp fs (xs @ ys) =
     (case apply_planned sp fs xs of
        (Inl e, fs') \<Rightarrow> (Inl e, fs')
      | (Inr u, fs') \<Rightarrow> apply_planned sp fs' ys)"
  by (induction xs arbitrary: fs) (auto split: prod.splits sum.splits)

lemma tag_planned_append:
  "tag_planned sp (xs @ ys) =
     (case tag_planned sp xs of Inl e \<Rightarrow> Inl e | Inr u \<Rightarrow> tag_planned sp ys)"
  by (induction xs) (auto simp: Let_def split: sum.splits)

lemma conj_drop5: "A \<and> B \<and> C \<and> D \<and> E \<and> R \<Longrightarrow> R"
  by simp

lemma conj_drop10:
  "A \<and> B \<and> C \<and> D \<and> E \<and> F \<and> G \<and> H \<and> I \<and> J \<and> R \<Longrightarrow> R"
  by simp

text \<open>
  Claim C7, amended. \<^verbatim>\<open>run\<close> raises the failure of a command to its caller, and every
  \<^verbatim>\<open>git\<close> command that is run outside a \<^verbatim>\<open>try\<close> block ends the run with that
  failure, wherever in its loop it is reached.
  In \<^verbatim>\<open>release.py\<close>: the changed-files query (\<^verbatim>\<open>git ls-files\<close>, or
  \<^verbatim>\<open>git diff --name-only <tag>..HEAD\<close>) fails \<^verbatim>\<open>package_changed\<close>, and with it the
  planning and \<^verbatim>\<open>cmd_detect_changed\<close> at any package of the list;
  \<^verbatim>\<open>git rev-list HEAD\<close>, \<^verbatim>\<open>git rev-list <tag>..HEAD\<close> and, at any commit the loop
  reaches, the three \<^verbatim>\<open>git show\<close> queries (subject and body are asked of a commit
  that touches the package) fail the classifier, the planning and \<^verbatim>\<open>cmd_tag_main\<close>;
  in the apply phase \<^verbatim>\<open>git add\<close> of either version file, \<^verbatim>\<open>git commit\<close>,
  \<^verbatim>\<open>git push origin HEAD:main\<close>, \<^verbatim>\<open>git tag -a\<close> and \<^verbatim>\<open>git push origin <tag>\<close>
  fail \<^verbatim>\<open>cmd_tag_main\<close>, which leaves the version files as written.
  In \<^verbatim>\<open>bump_level.py\<close>: \<^verbatim>\<open>git rev-list\<close> and the three \<^verbatim>\<open>git show\<close> queries fail
  \<^verbatim>\<open>main\<close>.
  In \<^verbatim>\<open>tag_on_merge.py\<close>: the diff fails \<^verbatim>\<open>main\<close>; a refused \<^verbatim>\<open>git tag -a\<close> and a
  refused \<^verbatim>\<open>git push\<close> fail the tagging of the package, the loop over the packages
  and \<^verbatim>\<open>main\<close>.
  Two queries are caught: the tag listing of \<^verbatim>\<open>latest_tag_for\<close> (any failure gives
  \<^verbatim>\<open>None\<close>, no prior release) and the \<^verbatim>\<open>git rev-parse\<close> of \<^verbatim>\<open>tag_exists\<close> (a
  failure means the tag does not exist).
\<close>

theorem subprocess_failures:
  "(sp args = Inl e \<longrightarrow> run sp args = Inl e) \<and>
   (sp [''git'', ''ls-files''] = Inl e \<longrightarrow> package_changed sp pkg None = Inl e) \<and>
   (t \<noteq> [] \<and> sp [''git'', ''diff'', ''--name-only'', t @ ''..HEAD''] = Inl e \<longrightarrow>
      package_changed sp pkg (Some t) = Inl e) \<and>
   (package_changed sp pkg (latest_tag_for sp pkg) = Inl e \<longrightarrow>
      plan_packages sp fs planned (pkg # pkgs) = Inl e \<and>
      detect_changed sp changed (pkg # pkgs) = Inl e) \<and>
   (sp [''git'', ''rev-list'', ''HEAD''] = Inl e \<longrightarrow>
      conventional_bump_from_commits sp None pkg = Inl e \<and>
      bump_level_main sp [prog, package, []] = Inl e) \<and>
   (sp [''git'', ''show'', ''--name-only'', ''--pretty=format:'', sha] = Inl e \<longrightarrow>
      bump_from_commits sp pkg bump (sha # shas) = Inl e \<and>
      bump_level_loop sp package level (sha # shas) = Inl e) \<and>
   (sp [''git'', ''tag'', ''--list'', tag_prefix pkg @ ''*'', ''--sort=-creatordate''] = Inl e \<longrightarrow>
      latest_tag_for sp pkg = None) \<and>
   (before \<noteq> after \<and> diff_names env before after = Inl e \<longrightarrow>
      tag_on_merge_main env [prog, before, after] w = (Inl e, w)) \<and>
   (refs w tag = None \<longrightarrow> tag_exists env tag w = (Inr False, w)) \<and>
   (refs w tag = None \<and> tag_refused env tag \<longrightarrow>
      create_tag env tag w =
        (Inl (CalledProcessError [''git'', ''tag'', ''-a'', tag, ''-m'', ''Release '' @ tag]), w)) \<and>
   (t \<noteq> [] \<and> sp [''git'', ''rev-list'', t @ ''..HEAD''] = Inl e \<longrightarrow>
      conventional_bump_from_commits sp (Some t) pkg = Inl e) \<and>
   (t \<noteq> [] \<and> map lower_char t \<noteq> ''none'' \<and> sp [''git'', ''rev-list'', t @ ''..HEAD''] = Inl e \<longrightarrow>
      bump_level_main sp [prog, package, t] = Inl e) \<and>
   (map lower_char t = ''none'' \<and> sp [''git'', ''rev-list'', ''HEAD''] = Inl e \<longrightarrow>
      bump_level_main sp [prog, package, t] = Inl e) \<and>
   ((\<forall>s\<in>set earlier. commit_passed sp (name pkg) s) \<and>
    sp [''git'', ''show'', ''--name-only'', ''--pretty=format:'', sha] = Inl e \<longrightarrow>
      bump_from_commits sp pkg bump (earlier @ sha # shas) = Inl e) \<and>
   ((\<forall>s\<in>set earlier. commit_passed sp (name pkg) s) \<and> commit_touches sp (name pkg) sha \<and>
    sp [''git'', ''show'', ''-s'', ''--format=%s'', sha] = Inl e \<longrightarrow>
      bump_from_commits sp pkg bump (earlier @ sha # shas) = Inl e) \<and>
   ((\<forall>s\<in>set earlier. commit_passed sp (name pkg) s) \<and> commit_touches sp (name pkg) sha \<and>
    sp [''git'', ''show'', ''-s'', ''--format=%s'', sha] = Inr subject \<and>
    sp [''git'', ''show'', ''-s'', ''--format=%b'', sha] = Inl e \<longrightarrow>
      bump_from_commits sp pkg bump (earlier @ sha # shas) = Inl e) \<and>
   ((\<forall>s\<in>set earlier. commit_passed sp package s) \<and>
    sp [''git'', ''show'', ''--name-only'', ''--pretty=format:'', sha] = Inl e \<longrightarrow>
      bump_level_loop sp package level (earlier @ sha # shas) = Inl e) \<and>
   ((\<forall>s\<in>set earlier. commit_passed sp package s) \<and> commit_touches sp package sha \<and>
    sp [''git'', ''show'', ''-s'', ''--format=%s'', sha] = Inl e \<longrightarrow>
      bump_level_loop sp package level (earlier @ sha # shas) = Inl e) \<and>
   ((\<forall>s\<in>set earlier. commit_passed sp package s) \<and> commit_touches sp package sha \<and>
    sp [''git'', ''show'', ''-s'', ''--format=%s'', sha] = Inr subject \<and>
    sp [''git'', ''show'', ''-s'', ''--format=%b'', sha] = Inl e \<longrightarrow>
      bump_level_loop sp package level (earlier @ sha # shas) = Inl e) \<and>
   (commit_list sp last_tag = Inr commits \<and> bump_from_commits sp pkg Bump_none commits = Inl e \<longrightarrow>
      conventional_bump_from_commits sp last_tag pkg = Inl e) \<and>
   (commits_since sp since_ref = Inr commits \<and>
    bump_level_loop sp package ''none'' commits = Inl e \<longrightarrow>
      bump_level_main sp [prog, package, since_ref] = Inl e) \<and>
   (plan_packages sp fs planned before_pkgs = Inr planned' \<and>
    package_changed sp pkg (latest_tag_for sp pkg) = Inl e \<longrightarrow>
      plan_packages sp fs planned (before_pkgs @ pkg # pkgs) = Inl e) \<and>
   (detect_changed sp changed before_pkgs = Inr changed' \<and>
    package_changed sp pkg (latest_tag_for sp pkg) = Inl e \<longrightarrow>
      detect_changed sp changed (before_pkgs @ pkg # pkgs) = Inl e) \<and>
   (plan_packages sp fs planned before_pkgs = Inr planned' \<and>
    package_changed sp pkg (latest_tag_for sp pkg) = Inr True \<and>
    conventional_bump_from_commits sp (latest_tag_for sp pkg) pkg = Inl e \<longrightarrow>
      plan_packages sp fs planned (before_pkgs @ pkg # pkgs) = Inl e) \<and>
   (cmd_tag_main_plan sp fs = Inl e \<longrightarrow> cmd_tag_main sp fs = (Inl e, fs)) \<and>
   (plan_packages sp fs [] (list_packages fs) = Inl e \<longrightarrow> cmd_tag_main_plan sp fs = Inl e) \<and>
   (detect_changed sp [] (list_packages fs) = Inl e \<longrightarrow> cmd_detect_changed sp fs = Inl e) \<and>
   (sp [''git'', ''add'', path pkg @ ''/pyproject.toml''] = Inl e \<longrightarrow>
      add_versions sp pkg init_py = Inl e) \<and>
   (sp [''git'', ''add'', path pkg @ ''/pyproject.toml''] = Inr out \<and>
    sp [''git'', ''add'', init_file] = Inl e \<longrightarrow>
      add_versions sp pkg (Some init_file) = Inl e) \<and>
   (apply_planned sp fs applied = (Inr (), tree) \<and>
    write_versions tree pkg next_v = (Inr init_py, tree') \<and> add_versions sp pkg init_py = Inl e \<longrightarrow>
      apply_planned sp fs (applied @ (pkg, next_v) # todo) = (Inl e, tree')) \<and>
   (cmd_tag_main_plan sp fs = Inr plan \<and> apply_planned sp fs plan = (Inl e, fs') \<longrightarrow>
      cmd_tag_main sp fs = (Inl e, fs')) \<and>
   (cmd_tag_main_plan sp fs = Inr plan \<and> plan \<noteq> [] \<and> apply_planned sp fs plan = (Inr (), fs') \<and>
    sp [''git'', ''commit'', ''-m'', release_message plan] = Inl e \<longrightarrow>
      cmd_tag_main sp fs = (Inl e, fs')) \<and>
   (cmd_tag_main_plan sp fs = Inr plan \<and> plan \<noteq> [] \<and> apply_planned sp fs plan = (Inr (), fs') \<and>
    sp [''git'', ''commit'', ''-m'', release_message plan] = Inr out \<and>
    sp [''git'', ''push'', ''origin'', ''HEAD:main''] = Inl e \<longrightarrow>
      cmd_tag_main sp fs = (Inl e, fs')) \<and>
   (tag_planned sp applied = Inr () \<and>
    sp [''git'', ''tag'', ''-a'', tag_prefix pkg @ next_v, ''-m'',
        ''Release '' @ tag_prefix pkg @ next_v] = Inl e \<longrightarrow>
      tag_planned sp (applied @ (pkg, next_v) # todo) = Inl e) \<and>
   (tag_planned sp applied = Inr () \<and>
    sp [''git'', ''tag'', ''-a'', tag_prefix pkg @ next_v, ''-m'',
        ''Release '' @ tag_prefix pkg @ next_v] = Inr out \<and>
    sp [''git'', ''push'', ''origin'', tag_prefix pkg @ next_v] = Inl e \<longrightarrow>
      tag_planned sp (applied @ (pkg, next_v) # todo) = Inl e) \<and>
   (cmd_tag_main_plan sp fs = Inr plan \<and> plan \<noteq> [] \<and> apply_planned sp fs plan = (Inr (), fs') \<and>
    sp [''git'', ''commit'', ''-m'', release_message plan] = Inr out \<and>
    sp [''git'', ''push'', ''origin'', ''HEAD:main''] = Inr out' \<and>
    tag_planned sp plan = Inl e \<longrightarrow>
      cmd_tag_main sp fs = (Inl e, fs')) \<and>
   (refs w tag = None \<and> \<not> tag_refused env tag \<and> push_refused env tag \<longrightarrow>
      fst (create_tag env tag w) = Inl (CalledProcessError [''git'', ''push'', ''origin'', tag])) \<and>
   (path_exists (files w) (dir @ ''/pyproject.toml'') \<and>
    read_project_version (files w) (dir @ ''/pyproject.toml'') = Inr version \<and>
    check_init_version (files w) dir version = Inr () \<and>
    create_tag env (''better-mcps-'' @ dir @ ''-v'' @ version) w = (Inl e, w') \<longrightarrow>
      tag_package env dir w = (Inl e, w')) \<and>
   (tag_packages env tagged start = (Inr (), w) \<and> tag_package env dir w = (Inl e, w') \<longrightarrow>
      tag_packages env (tagged @ dir # dirs) start = (Inl e, w')) \<and>
   (before \<noteq> after \<and> diff_names env before after = Inr listing \<and>
    tag_packages env (changed_packages (strip listing)) w = (Inl e, w') \<longrightarrow>
      tag_on_merge_main env [prog, before, after] w = (Inl e, w'))"
proof (intro conjI)
  show "sp args = Inl e \<longrightarrow> run sp args = Inl e"
    by (simp add: run_def)
  show "sp [''git'', ''ls-files''] = Inl e \<longrightarrow> package_changed sp pkg None = Inl e"
    by (simp add: run_def package_changed_def changed_files_since_def git_range_since_def)
  show "t \<noteq> [] \<and> sp [''git'', ''diff'', ''--name-only'', t @ ''..HEAD''] = Inl e \<longrightarrow>
      package_changed sp pkg (Some t) = Inl e"
    by (simp add: run_def package_changed_def changed_files_since_def git_range_since_def)
  show "package_changed sp pkg (latest_tag_for sp pkg) = Inl e \<longrightarrow>
      plan_packages sp fs planned (pkg # pkgs) = Inl e \<and>
      detect_changed sp changed (pkg # pkgs) = Inl e"
    by simp
  show "sp [''git'', ''rev-list'', ''HEAD''] = Inl e \<longrightarrow>
      conventional_bump_from_commits sp None pkg = Inl e \<and>
      bump_level_main sp [prog, package, []] = Inl e"
    by (simp add: run_def conventional_bump_from_commits_def commit_list_def bump_level_main_def
        commits_since_def)
  show "sp [''git'', ''show'', ''--name-only'', ''--pretty=format:'', sha] = Inl e \<longrightarrow>
      bump_from_commits sp pkg bump (sha # shas) = Inl e \<and>
      bump_level_loop sp package level (sha # shas) = Inl e"
    by (intro impI conjI names_query_fails)
  show "sp [''git'', ''tag'', ''--list'', tag_prefix pkg @ ''*'', ''--sort=-creatordate''] = Inl e \<longrightarrow>
      latest_tag_for sp pkg = None"
    by (simp add: run_def latest_tag_for_def)
  show "before \<noteq> after \<and> diff_names env before after = Inl e \<longrightarrow>
      tag_on_merge_main env [prog, before, after] w = (Inl e, w)"
    by (simp add: tag_on_merge_main_def run_git_def git_exec_def)
  show "refs w tag = None \<longrightarrow> tag_exists env tag w = (Inr False, w)"
    by (simp add: run_git_def git_exec_def tag_exists_def)
  show "refs w tag = None \<and> tag_refused env tag \<longrightarrow>
      create_tag env tag w =
        (Inl (CalledProcessError [''git'', ''tag'', ''-a'', tag, ''-m'', ''Release '' @ tag]), w)"
    by (simp add: run_git_def git_exec_def tag_exists_def create_tag_def)
  show "t \<noteq> [] \<and> sp [''git'', ''rev-list'', t @ ''..HEAD''] = Inl e \<longrightarrow>
      conventional_bump_from_commits sp (Some t) pkg = Inl e"
    by (simp add: run_def conventional_bump_from_commits_def commit_list_def git_range_since_def)
  show "t \<noteq> [] \<and> map lower_char t \<noteq> ''none'' \<and> sp [''git'', ''rev-list'', t @ ''..HEAD''] = Inl e \<longrightarrow>
      bump_level_main sp [prog, package, t] = Inl e"
    by (simp add: run_def bump_level_main_def commits_since_def)
  show "map lower_char t = ''none'' \<and> sp [''git'', ''rev-list'', ''HEAD''] = Inl e \<longrightarrow>
      bump_level_main sp [prog, package, t] = Inl e"
    by (simp add: run_def bump_level_main_def commits_since_def)
  show "(\<forall>s\<in>set earlier. commit_passed sp (name pkg) s) \<and>
    sp [''git'', ''show'', ''--name-only'', ''--pretty=format:'', sha] = Inl e \<longrightarrow>
      bump_from_commits sp pkg bump (earlier @ sha # shas) = Inl e"
    by (blast intro: bump_from_commits_fails_at names_query_fails)
  show "(\<forall>s\<in>set earlier. commit_passed sp (name pkg) s) \<and> commit_touches sp (name pkg) sha \<and>
    sp [''git'', ''show'', ''-s'', ''--format=%s'', sha] = Inl e \<longrightarrow>
      bump_from_commits sp pkg bump (earlier @ sha # shas) = Inl e"
    by (blast intro: bump_from_commits_fails_at subject_query_fails)
  show "(\<forall>s\<in>set earlier. commit_passed sp (name pkg) s) \<and> commit_touches sp (name pkg) sha \<and>
    sp [''git'', ''show'', ''-s'', ''--format=%s'', sha] = Inr subject \<and>
    sp [''git'', ''show'', ''-s'', ''--format=%b'', sha] = Inl e \<longrightarrow>
      bump_from_commits sp pkg bump (earlier @ sha # shas) = Inl e"
    by (blast intro: bump_from_commits_fails_at body_query_fails)
  show "(\<forall>s\<in>set earlier. commit_passed sp package s) \<and>
    sp [''git'', ''show'', ''--name-only'', ''--pretty=format:'', sha] = Inl e \<longrightarrow>
      bump_level_loop sp package level (earlier @ sha # shas) = Inl e"
    by (blast intro: bump_level_loop_fails_at names_query_fails)
  show "(\<forall>s\<in>set earlier. commit_passed sp package s) \<and> commit_touches sp package sha \<and>
    sp [''git'', ''show'', ''-s'', ''--format=%s'', sha] = Inl e \<longrightarrow>
      bump_level_loop sp package level (earlier @ sha # shas) = Inl e"
    by (blast intro: bump_level_loop_fails_at subject_query_fails)
  show "(\<forall>s\<in>set earlier. commit_passed sp package s) \<and> commit_touches sp package sha \<and>
    sp [''git'', ''show'', ''-s'', ''--format=%s'', sha] = Inr subject \<and>
    sp [''git'', ''show'', ''-s'', ''--format=%b'', sha] = Inl e \<longrightarrow>
      bump_level_loop sp package level (earlier @ sha # shas) = Inl e"
    by (blast intro: bump_level_loop_fails_at body_query_fails)
  show "commit_list sp last_tag = Inr commits \<and> bump_from_commits sp pkg Bump_none commits = Inl e \<longrightarrow>
      conventional_bump_from_commits sp last_tag pkg = Inl e"
    by (simp add: conventional_bump_from_commits_def)
  show "commits_since sp since_ref = Inr commits \<and>
    bump_level_loop sp package ''none'' commits = Inl e \<longrightarrow>
      bump_level_main sp [prog, package, since_ref] = Inl e"
    by (simp add: bump_level_main_def)
  show "plan_packages sp fs planned before_pkgs = Inr planned' \<and>
    package_changed sp pkg (latest_tag_for sp pkg) = Inl e \<longrightarrow>
      plan_packages sp fs planned (before_pkgs @ pkg # pkgs) = Inl e"
    by (simp add: plan_packages_append)
  show "detect_changed sp changed before_pkgs = Inr changed' \<and>
    package_changed sp pkg (latest_tag_for sp pkg) = Inl e \<longrightarrow>
      detect_changed sp changed (before_pkgs @ pkg # pkgs) = Inl e"
    by (simp add: detect_changed_append)
  show "plan_packages sp fs planned before_pkgs = Inr planned' \<and>
    package_changed sp pkg (latest_tag_for sp pkg) = Inr True \<and>
    conventional_bump_from_commits sp (latest_tag_for sp pkg) pkg = Inl e \<longrightarrow>
      plan_packages sp fs planned (before_pkgs @ pkg # pkgs) = Inl e"
    by (simp add: plan_packages_append)
  show "cmd_tag_main_plan sp fs = Inl e \<longrightarrow> cmd_tag_main sp fs = (Inl e, fs)"
    by (simp add: cmd_tag_main_def)
  show "plan_packages sp fs [] (list_packages fs) = Inl e \<longrightarrow> cmd_tag_main_plan sp fs = Inl e"
    by (simp add: cmd_tag_main_plan_def)
  show "detect_changed sp [] (list_packages fs) = Inl e \<longrightarrow> cmd_detect_changed sp fs = Inl e"
    by (simp add: cmd_detect_changed_def)
  show "sp [''git'', ''add'', path pkg @ ''/pyproject.toml''] = Inl e \<longrightarrow>
      add_versions sp pkg init_py = Inl e"
    by (simp add: add_versions_def run_def)
  show "sp [''git'', ''add'', path pkg @ ''/pyproject.toml''] = Inr out \<and>
    sp [''git'', ''add'', init_file] = Inl e \<longrightarrow>
      add_versions sp pkg (Some init_file) = Inl e"
    by (simp add: add_versions_def run_def)
  show "apply_planned sp fs applied = (Inr (), tree) \<and>
    write_versions tree pkg next_v = (Inr init_py, tree') \<and> add_versions sp pkg init_py = Inl e \<longrightarrow>
      apply_planned sp fs (applied @ (pkg, next_v) # todo) = (Inl e, tree')"
    by (simp add: apply_planned_append)
  show "cmd_tag_main_plan sp fs = Inr plan \<and> apply_planned sp fs plan = (Inl e, fs') \<longrightarrow>
      cmd_tag_main sp fs = (Inl e, fs')"
    by (auto simp: cmd_tag_main_def)
  show "cmd_tag_main_plan sp fs = Inr plan \<and> plan \<noteq> [] \<and> apply_planned sp fs plan = (Inr (), fs') \<and>
    sp [''git'', ''commit'', ''-m'', release_message plan] = Inl e \<longrightarrow>
      cmd_tag_main sp fs = (Inl e, fs')"
    by (simp add: cmd_tag_main_def run_def)
  show "cmd_tag_main_plan sp fs = Inr plan \<and> plan \<noteq> [] \<and> apply_planned sp fs plan = (Inr (), fs') \<and>
    sp [''git'', ''commit'', ''-m'', release_message plan] = Inr out \<and>
    sp [''git'', ''push'', ''origin'', ''HEAD:main''] = Inl e \<longrightarrow>
      cmd_tag_main sp fs = (Inl e, fs')"
    by (simp add: cmd_tag_main_def run_def)
  show "tag_planned sp applied = Inr () \<and>
    sp [''git'', ''tag'', ''-a'', tag_prefix pkg @ next_v, ''-m'',
        ''Release '' @ tag_prefix pkg @ next_v] = Inl e \<longrightarrow>
      tag_planned sp (applied @ (pkg, next_v) # todo) = Inl e"
    by (simp add: tag_planned_append run_def)
  show "tag_planned sp applied = Inr () \<and>
    sp [''git'', ''tag'', ''-a'', tag_prefix pkg @ next_v, ''-m'',
        ''Release '' @ tag_prefix pkg @ next_v] = Inr out \<and>
    sp [''git'', ''push'', ''origin'', tag_prefix pkg @ next_v] = Inl e \<longrightarrow>
      tag_planned sp (applied @ (pkg, next_v) # todo) = Inl e"
    by (simp add: tag_planned_append run_def)
  show "cmd_tag_main_plan sp fs = Inr plan \<and> plan \<noteq> [] \<and> apply_planned sp fs plan = (Inr (), fs') \<and>
    sp [''git'', ''commit'', ''-m'', release_message plan] = Inr out \<and>
    sp [''git'', ''push'', ''origin'', ''HEAD:main''] = Inr out' \<and>
    tag_planned sp plan = Inl e \<longrightarrow>
      cmd_tag_main sp fs = (Inl e, fs')"
    by (simp add: cmd_tag_main_def run_def)
  show "refs w tag = None \<and> \<not> tag_refused env tag \<and> push_refused env tag \<longrightarrow>
      fst (create_tag env tag w) = Inl (CalledProcessError [''git'', ''push'', ''origin'', tag])"
    by (simp add: run_git_def git_exec_def tag_exists_def create_tag_def)
  show "path_exists (files w) (dir @ ''/pyproject.toml'') \<and>
    read_project_version (files w) (dir @ ''/pyproject.toml'') = Inr version \<and>
    check_init_version (files w) dir version = Inr () \<and>
    create_tag env (''better-mcps-'' @ dir @ ''-v'' @ version) w = (Inl e, w') \<longrightarrow>
      tag_package env dir w = (Inl e, w')"
    by (simp add: tag_package_def)
  show "tag_packages env tagged start = (Inr (), w) \<and> tag_package env dir w = (Inl e, w') \<longrightarrow>
      tag_packages env (tagged @ dir # dirs) start = (Inl e, w')"
    by (simp add: tag_packages_append)
  show "before \<noteq> after \<and> diff_names env before after = Inr listing \<and>
    tag_packages env (changed_packages (strip listing)) w = (Inl e, w') \<longrightarrow>
      tag_on_merge_main env [prog, before, after] w = (Inl e, w')"
    by (auto simp: tag_on_merge_main_def run_git_def git_exec_def Let_def)
qed

theorem subprocess_failures_witness:
  "run failing_git [''git'', ''ls-files''] = Inl (CalledProcessError [''git'', ''ls-files'']) \<and>
   latest_tag_for failing_git example_package = None \<and>
   package_changed failing_git example_package None = Inl (CalledProcessError [''git'', ''ls-files'']) \<and>
   package_changed failing_git example_package (Some ''v1'') = Inl (CalledProcessError [''git'', ''diff'', ''--name-only'', ''v1..HEAD'']) \<and>
   plan_packages failing_git example_fs [] [example_package] = Inl (CalledProcessError [''git'', ''ls-files'']) \<and>
   cmd_detect_changed failing_git example_fs = Inl (CalledProcessError [''git'', ''ls-files'']) \<and>
   cmd_tag_main failing_git example_fs = (Inl (CalledProcessError [''git'', ''ls-files'']), example_fs) \<and>
   conventional_bump_from_commits failing_git None example_package = Inl (CalledProcessError [''git'', ''rev-list'', ''HEAD'']) \<and>
   conventional_bump_from_commits failing_git (Some ''v1'') example_package = Inl (CalledProcessError [''git'', ''rev-list'', ''v1..HEAD'']) \<and>
   bump_level_main failing_git [''bump_level.py'', ''p'', []] = Inl (CalledProcessError [''git'', ''rev-list'', ''HEAD'']) \<and>
   bump_level_main failing_git [''bump_level.py'', ''p'', ''v1''] = Inl (CalledProcessError [''git'', ''rev-list'', ''v1..HEAD'']) \<and>
   bump_level_main failing_git [''bump_level.py'', ''p'', ''None''] = Inl (CalledProcessError [''git'', ''rev-list'', ''HEAD'']) \<and>
   conventional_bump_from_commits since_tag_git (Some ''better-mcps-p-v0.1.0'') example_package = Inl (CalledProcessError [''git'', ''rev-list'', ''better-mcps-p-v0.1.0..HEAD'']) \<and>
   plan_packages since_tag_git example_fs [] [example_package] = Inl (CalledProcessError [''git'', ''rev-list'', ''better-mcps-p-v0.1.0..HEAD'']) \<and>
   cmd_tag_main since_tag_git example_fs = (Inl (CalledProcessError [''git'', ''rev-list'', ''better-mcps-p-v0.1.0..HEAD'']), example_fs) \<and>
   bump_from_commits (two_commit_git [''--pretty=format:'']) example_package Bump_none [''c2'', ''c1''] = Inl (CalledProcessError [''git'', ''show'', ''--name-only'', ''--pretty=format:'', ''c1'']) \<and>
   conventional_bump_from_commits (two_commit_git [''--pretty=format:'']) None example_package = Inl (CalledProcessError [''git'', ''show'', ''--name-only'', ''--pretty=format:'', ''c1'']) \<and>
   bump_level_main (two_commit_git [''--pretty=format:'']) [''bump_level.py'', ''p'', []] = Inl (CalledProcessError [''git'', ''show'', ''--name-only'', ''--pretty=format:'', ''c1'']) \<and>
   bump_from_commits (two_commit_git [''--format=%s'']) example_package Bump_none [''c2'', ''c1''] = Inl (CalledProcessError [''git'', ''show'', ''-s'', ''--format=%s'', ''c1'']) \<and>
   conventional_bump_from_commits (two_commit_git [''--format=%s'']) None example_package = Inl (CalledProcessError [''git'', ''show'', ''-s'', ''--format=%s'', ''c1'']) \<and>
   bump_level_main (two_commit_git [''--format=%s'']) [''bump_level.py'', ''p'', []] = Inl (CalledProcessError [''git'', ''show'', ''-s'', ''--format=%s'', ''c1'']) \<and>
   bump_from_commits (two_commit_git [''--format=%b'']) example_package Bump_none [''c2'', ''c1''] = Inl (CalledProcessError [''git'', ''show'', ''-s'', ''--format=%b'', ''c1'']) \<and>
   conventional_bump_from_commits (two_commit_git [''--format=%b'']) None example_package = Inl (CalledProcessError [''git'', ''show'', ''-s'', ''--format=%b'', ''c1'']) \<and>
   bump_level_main (two_commit_git [''--format=%b'']) [''bump_level.py'', ''p'', []] = Inl (CalledProcessError [''git'', ''show'', ''-s'', ''--format=%b'', ''c1'']) \<and>
   cmd_tag_main (two_commit_git [''--format=%b'']) example_fs = (Inl (CalledProcessError [''git'', ''show'', ''-s'', ''--format=%b'', ''c1'']), example_fs) \<and>
   cmd_tag_main (allowing (take 0 release_commands) chore_git) versions_fs = (Inl (CalledProcessError [''git'', ''add'', ''p/pyproject.toml'']), bumped_fs) \<and>
   cmd_tag_main (allowing (take 1 release_commands) chore_git) versions_fs = (Inl (CalledProcessError [''git'', ''add'', ''p/src/m/__init__.py'']), bumped_fs) \<and>
   cmd_tag_main (allowing (take 2 release_commands) chore_git) versions_fs = (Inl (CalledProcessError [''git'', ''commit'', ''-m'', ''chore(release): p v0.1.1'']), bumped_fs) \<and>
   cmd_tag_main (allowing (take 3 release_commands) chore_git) versions_fs = (Inl (CalledProcessError [''git'', ''push'', ''origin'', ''HEAD:main'']), bumped_fs) \<and>
   cmd_tag_main (allowing (take 4 release_commands) chore_git) versions_fs = (Inl (CalledProcessError [''git'', ''tag'', ''-a'', ''better-mcps-p-v0.1.1'', ''-m'', ''Release better-mcps-p-v0.1.1'']), bumped_fs) \<and>
   cmd_tag_main (allowing (take 5 release_commands) chore_git) versions_fs = (Inl (CalledProcessError [''git'', ''push'', ''origin'', ''better-mcps-p-v0.1.1'']), bumped_fs) \<and>
   tag_on_merge_main failing_env [''tag_on_merge.py'', ''a1'', ''b2''] empty_world = (Inl (CalledProcessError [''git'', ''diff'']), empty_world) \<and>
   tag_exists failing_env ''better-mcps-p-v0.1.0'' empty_world = (Inr False, empty_world) \<and>
   create_tag failing_env ''better-mcps-p-v0.1.0'' empty_world = (Inl (CalledProcessError [''git'', ''tag'', ''-a'', ''better-mcps-p-v0.1.0'', ''-m'', ''Release better-mcps-p-v0.1.0'']), empty_world) \<and>
   fst (create_tag no_push_env ''better-mcps-p-v1.2.0'' release_world) = Inl (CalledProcessError [''git'', ''push'', ''origin'', ''better-mcps-p-v1.2.0'']) \<and>
   fst (tag_package no_push_env ''p'' release_world) = Inl (CalledProcessError [''git'', ''push'', ''origin'', ''better-mcps-p-v1.2.0'']) \<and>
   fst (tag_on_merge_main no_push_env [''tag_on_merge.py'', ''a1'', ''b2''] release_world) = Inl (CalledProcessError [''git'', ''push'', ''origin'', ''better-mcps-p-v1.2.0''])"
proof -
  have fg_ls: "failing_git [''git'', ''ls-files''] = Inl (CalledProcessError [''git'', ''ls-files''])"
    by (simp add: failing_git_def)
  have fg_diffv: "failing_git [''git'', ''diff'', ''--name-only'', ''v1..HEAD''] = Inl (CalledProcessError [''git'', ''diff'', ''--name-only'', ''v1..HEAD''])"
    by (simp add: failing_git_def)
  have fg_revh: "failing_git [''git'', ''rev-list'', ''HEAD''] = Inl (CalledProcessError [''git'', ''rev-list'', ''HEAD''])"
    by (simp add: failing_git_def)
  have fg_revv: "failing_git [''git'', ''rev-list'', ''v1..HEAD''] = Inl (CalledProcessError [''git'', ''rev-list'', ''v1..HEAD''])"
    by (simp add: failing_git_def)
  have fg_tags: "failing_git [''git'', ''tag'', ''--list'', tag_prefix example_package @ ''*'', ''--sort=-creatordate''] = Inl (CalledProcessError [''git'', ''tag'', ''--list'', tag_prefix example_package @ ''*'', ''--sort=-creatordate''])"
    by (simp add: failing_git_def)
  have a_run: "run failing_git [''git'', ''ls-files''] = Inl (CalledProcessError [''git'', ''ls-files''])"
    using subprocess_failures [where sp = "failing_git" and args = "[''git'', ''ls-files'']" and e = "CalledProcessError [''git'', ''ls-files'']", THEN conjunct1]
      fg_ls by simp
  have a_none: "latest_tag_for failing_git example_package = None"
    using subprocess_failures [where sp = "failing_git" and pkg = "example_package" and e = "CalledProcessError [''git'', ''tag'', ''--list'', tag_prefix example_package @ ''*'', ''--sort=-creatordate'']", THEN conj_drop5, THEN conjunct2, THEN conjunct1]
      fg_tags by simp
  have a_changed: "package_changed failing_git example_package None = Inl (CalledProcessError [''git'', ''ls-files''])"
    using subprocess_failures [where sp = "failing_git" and pkg = "example_package" and e = "CalledProcessError [''git'', ''ls-files'']", THEN conjunct2, THEN conjunct1]
      fg_ls by simp
  have a_changed_tag: "package_changed failing_git example_package (Some ''v1'') = Inl (CalledProcessError [''git'', ''diff'', ''--name-only'', ''v1..HEAD''])"
    using subprocess_failures [where sp = "failing_git" and pkg = "example_package" and t = "''v1''" and e = "CalledProcessError [''git'', ''diff'', ''--name-only'', ''v1..HEAD'']", THEN conjunct2, THEN conjunct2, THEN conjunct1]
      fg_diffv by simp
  have a_pkgs: "list_packages example_fs = [example_package]"
    by code_simp
  have a_plan: "plan_packages failing_git example_fs [] [example_package] = Inl (CalledProcessError [''git'', ''ls-files''])"
    using subprocess_failures [where sp = "failing_git" and pkg = "example_package" and e = "CalledProcessError [''git'', ''ls-files'']" and fs = "example_fs" and planned = "[]" and pkgs = "[]", THEN conjunct2, THEN conjunct2, THEN conjunct2, THEN conjunct1]
      a_changed a_none by simp
  have a_detect: "cmd_detect_changed failing_git example_fs = Inl (CalledProcessError [''git'', ''ls-files''])"
    using subprocess_failures [where sp = "failing_git" and pkg = "example_package" and e = "CalledProcessError [''git'', ''ls-files'']" and fs = "example_fs" and changed = "[]" and pkgs = "[]", THEN conjunct2, THEN conjunct2, THEN conjunct2, THEN conjunct1]
      subprocess_failures [where sp = "failing_git" and pkg = "example_package" and e = "CalledProcessError [''git'', ''ls-files'']" and fs = "example_fs" and changed = "[]" and pkgs = "[]", THEN conj_drop10, THEN conj_drop10, THEN conj_drop5, THEN conjunct2, THEN conjunct1]
      a_changed a_none a_pkgs by simp
  have a_main: "cmd_tag_main failing_git example_fs = (Inl (CalledProcessError [''git'', ''ls-files'']), example_fs)"
    using subprocess_failures [where sp = "failing_git" and e = "CalledProcessError [''git'', ''ls-files'']" and fs = "example_fs", THEN conj_drop10, THEN conj_drop10, THEN conj_drop5, THEN conjunct1]
      subprocess_failures [where sp = "failing_git" and e = "CalledProcessError [''git'', ''ls-files'']" and fs = "example_fs", THEN conj_drop10, THEN conj_drop10, THEN conjunct2, THEN conjunct2, THEN conjunct2, THEN conjunct2, THEN conjunct1]
      a_plan a_pkgs by simp
  have a_conv_head: "conventional_bump_from_commits failing_git None example_package = Inl (CalledProcessError [''git'', ''rev-list'', ''HEAD''])"
    using subprocess_failures [where sp = "failing_git" and pkg = "example_package" and e = "CalledProcessError [''git'', ''rev-list'', ''HEAD'']", THEN conjunct2, THEN conjunct2, THEN conjunct2, THEN conjunct2, THEN conjunct1]
      fg_revh by simp
  have a_conv_tag: "conventional_bump_from_commits failing_git (Some ''v1'') example_package = Inl (CalledProcessError [''git'', ''rev-list'', ''v1..HEAD''])"
    using subprocess_failures [where sp = "failing_git" and pkg = "example_package" and t = "''v1''" and e = "CalledProcessError [''git'', ''rev-list'', ''v1..HEAD'']", THEN conj_drop10, THEN conjunct1]
      fg_revv by simp
  have lower_v1: "map lower_char ''v1'' \<noteq> ''none'' \<and> map lower_char ''None'' = ''none''"
    by code_simp
  have a_level_head: "bump_level_main failing_git [''bump_level.py'', ''p'', []] = Inl (CalledProcessError [''git'', ''rev-list'', ''HEAD''])"
    using subprocess_failures [where sp = "failing_git" and prog = "''bump_level.py''" and package = "''p''" and e = "CalledProcessError [''git'', ''rev-list'', ''HEAD'']", THEN conjunct2, THEN conjunct2, THEN conjunct2, THEN conjunct2, THEN conjunct1]
      fg_revh by simp
  have a_level_tag: "bump_level_main failing_git [''bump_level.py'', ''p'', ''v1''] = Inl (CalledProcessError [''git'', ''rev-list'', ''v1..HEAD''])"
    using subprocess_failures [where sp = "failing_git" and prog = "''bump_level.py''" and package = "''p''" and t = "''v1''" and e = "CalledProcessError [''git'', ''rev-list'', ''v1..HEAD'']", THEN conj_drop10, THEN conjunct2, THEN conjunct1]
      fg_revv lower_v1 by simp
  have a_level_none: "bump_level_main failing_git [''bump_level.py'', ''p'', ''None''] = Inl (CalledProcessError [''git'', ''rev-list'', ''HEAD''])"
    using subprocess_failures [where sp = "failing_git" and prog = "''bump_level.py''" and package = "''p''" and t = "''None''" and e = "CalledProcessError [''git'', ''rev-list'', ''HEAD'']", THEN conj_drop10, THEN conjunct2, THEN conjunct2, THEN conjunct1]
      fg_revh lower_v1 by simp
  have b_tag: "latest_tag_for since_tag_git example_package = Some ''better-mcps-p-v0.1.0''"
    by code_simp
  have b_changed: "package_changed since_tag_git example_package (Some ''better-mcps-p-v0.1.0'') = Inr True"
    by code_simp
  have b_rev: "since_tag_git [''git'', ''rev-list'', ''better-mcps-p-v0.1.0..HEAD''] = Inl (CalledProcessError [''git'', ''rev-list'', ''better-mcps-p-v0.1.0..HEAD''])"
    by code_simp
  have b_conv: "conventional_bump_from_commits since_tag_git (Some ''better-mcps-p-v0.1.0'') example_package = Inl (CalledProcessError [''git'', ''rev-list'', ''better-mcps-p-v0.1.0..HEAD''])"
    using subprocess_failures [where sp = "since_tag_git" and pkg = "example_package" and t = "''better-mcps-p-v0.1.0''" and e = "CalledProcessError [''git'', ''rev-list'', ''better-mcps-p-v0.1.0..HEAD'']", THEN conj_drop10, THEN conjunct1]
      b_rev by simp
  have b_plan: "plan_packages since_tag_git example_fs [] [example_package] = Inl (CalledProcessError [''git'', ''rev-list'', ''better-mcps-p-v0.1.0..HEAD''])"
    using subprocess_failures [where sp = "since_tag_git" and pkg = "example_package" and e = "CalledProcessError [''git'', ''rev-list'', ''better-mcps-p-v0.1.0..HEAD'']" and fs = "example_fs" and planned = "[]" and before_pkgs = "[]" and planned = "[]" and pkgs = "[]", THEN conj_drop10, THEN conj_drop10, THEN conjunct2, THEN conjunct2, THEN conjunct2, THEN conjunct1]
      b_tag b_changed b_conv by simp
  have b_main: "cmd_tag_main since_tag_git example_fs = (Inl (CalledProcessError [''git'', ''rev-list'', ''better-mcps-p-v0.1.0..HEAD'']), example_fs)"
    using subprocess_failures [where sp = "since_tag_git" and e = "CalledProcessError [''git'', ''rev-list'', ''better-mcps-p-v0.1.0..HEAD'']" and fs = "example_fs", THEN conj_drop10, THEN conj_drop10, THEN conj_drop5, THEN conjunct1]
      subprocess_failures [where sp = "since_tag_git" and e = "CalledProcessError [''git'', ''rev-list'', ''better-mcps-p-v0.1.0..HEAD'']" and fs = "example_fs", THEN conj_drop10, THEN conj_drop10, THEN conjunct2, THEN conjunct2, THEN conjunct2, THEN conjunct2, THEN conjunct1]
      b_plan a_pkgs by simp
  have c_names_fail: "two_commit_git [''--pretty=format:''] [''git'', ''show'', ''--name-only'', ''--pretty=format:'', ''c1''] = Inl (CalledProcessError [''git'', ''show'', ''--name-only'', ''--pretty=format:'', ''c1''])"
    by code_simp
  have c_names_passed: "\<forall>s\<in>set [''c2'']. commit_passed (two_commit_git [''--pretty=format:'']) ''p'' s"
    by code_simp
  have c_names_list: "commit_list (two_commit_git [''--pretty=format:'']) None = Inr [''c2'', ''c1''] \<and> commits_since (two_commit_git [''--pretty=format:'']) [] = Inr [''c2'', ''c1'']"
    by code_simp
  have c_names_loop: "bump_from_commits (two_commit_git [''--pretty=format:'']) example_package Bump_none [''c2'', ''c1''] = Inl (CalledProcessError [''git'', ''show'', ''--name-only'', ''--pretty=format:'', ''c1''])"
    using subprocess_failures [where sp = "two_commit_git [''--pretty=format:'']" and pkg = "example_package" and package = "''p''" and e = "CalledProcessError [''git'', ''show'', ''--name-only'', ''--pretty=format:'', ''c1'']" and earlier = "[''c2'']" and sha = "''c1''" and shas = "[]" and bump = "Bump_none" and level = "''none''", THEN conj_drop10, THEN conjunct2, THEN conjunct2, THEN conjunct2, THEN conjunct1]
      c_names_fail c_names_passed by (simp add: example_package_def)
  have c_names_level_loop: "bump_level_loop (two_commit_git [''--pretty=format:'']) ''p'' ''none'' [''c2'', ''c1''] = Inl (CalledProcessError [''git'', ''show'', ''--name-only'', ''--pretty=format:'', ''c1''])"
    using subprocess_failures [where sp = "two_commit_git [''--pretty=format:'']" and pkg = "example_package" and package = "''p''" and e = "CalledProcessError [''git'', ''show'', ''--name-only'', ''--pretty=format:'', ''c1'']" and earlier = "[''c2'']" and sha = "''c1''" and shas = "[]" and bump = "Bump_none" and level = "''none''", THEN conj_drop10, THEN conj_drop5, THEN conjunct2, THEN conjunct1]
      c_names_fail c_names_passed by (simp add: example_package_def)
  have c_names_conv: "conventional_bump_from_commits (two_commit_git [''--pretty=format:'']) None example_package = Inl (CalledProcessError [''git'', ''show'', ''--name-only'', ''--pretty=format:'', ''c1''])"
    using subprocess_failures [where sp = "two_commit_git [''--pretty=format:'']" and pkg = "example_package" and e = "CalledProcessError [''git'', ''show'', ''--name-only'', ''--pretty=format:'', ''c1'']" and last_tag = "None" and commits = "[''c2'', ''c1'']", THEN conj_drop10, THEN conj_drop5, THEN conjunct2, THEN conjunct2, THEN conjunct2, THEN conjunct2, THEN conjunct1]
      c_names_list c_names_loop by simp
  have c_names_level: "bump_level_main (two_commit_git [''--pretty=format:'']) [''bump_level.py'', ''p'', []] = Inl (CalledProcessError [''git'', ''show'', ''--name-only'', ''--pretty=format:'', ''c1''])"
    using subprocess_failures [where sp = "two_commit_git [''--pretty=format:'']" and package = "''p''" and prog = "''bump_level.py''" and e = "CalledProcessError [''git'', ''show'', ''--name-only'', ''--pretty=format:'', ''c1'']" and since_ref = "[]" and commits = "[''c2'', ''c1'']", THEN conj_drop10, THEN conj_drop10, THEN conjunct1]
      c_names_list c_names_level_loop by simp
  have c_subject_fail: "two_commit_git [''--format=%s''] [''git'', ''show'', ''-s'', ''--format=%s'', ''c1''] = Inl (CalledProcessError [''git'', ''show'', ''-s'', ''--format=%s'', ''c1''])"
    by code_simp
  have c_subject_passed: "\<forall>s\<in>set [''c2'']. commit_passed (two_commit_git [''--format=%s'']) ''p'' s"
    by code_simp
  have c_subject_list: "commit_list (two_commit_git [''--format=%s'']) None = Inr [''c2'', ''c1''] \<and> commits_since (two_commit_git [''--format=%s'']) [] = Inr [''c2'', ''c1'']"
    by code_simp
  have c_subject_touches: "commit_touches (two_commit_git [''--format=%s'']) ''p'' ''c1''"
    by code_simp
  have c_subject_loop: "bump_from_commits (two_commit_git [''--format=%s'']) example_package Bump_none [''c2'', ''c1''] = Inl (CalledProcessError [''git'', ''show'', ''-s'', ''--format=%s'', ''c1''])"
    using subprocess_failures [where sp = "two_commit_git [''--format=%s'']" and pkg = "example_package" and package = "''p''" and e = "CalledProcessError [''git'', ''show'', ''-s'', ''--format=%s'', ''c1'']" and earlier = "[''c2'']" and sha = "''c1''" and shas = "[]" and bump = "Bump_none" and level = "''none''", THEN conj_drop10, THEN conjunct2, THEN conjunct2, THEN conjunct2, THEN conjunct2, THEN conjunct1]
      c_subject_fail c_subject_passed c_subject_touches by (simp add: example_package_def)
  have c_subject_level_loop: "bump_level_loop (two_commit_git [''--format=%s'']) ''p'' ''none'' [''c2'', ''c1''] = Inl (CalledProcessError [''git'', ''show'', ''-s'', ''--format=%s'', ''c1''])"
    using subprocess_failures [where sp = "two_commit_git [''--format=%s'']" and pkg = "example_package" and package = "''p''" and e = "CalledProcessError [''git'', ''show'', ''-s'', ''--format=%s'', ''c1'']" and earlier = "[''c2'']" and sha = "''c1''" and shas = "[]" and bump = "Bump_none" and level = "''none''", THEN conj_drop10, THEN conj_drop5, THEN conjunct2, THEN conjunct2, THEN conjunct1]
      c_subject_fail c_subject_passed c_subject_touches by (simp add: example_package_def)
  have c_subject_conv: "conventional_bump_from_commits (two_commit_git [''--format=%s'']) None example_package = Inl (CalledProcessError [''git'', ''show'', ''-s'', ''--format=%s'', ''c1''])"
    using subprocess_failures [where sp = "two_commit_git [''--format=%s'']" and pkg = "example_package" and e = "CalledProcessError [''git'', ''show'', ''-s'', ''--format=%s'', ''c1'']" and last_tag = "None" and commits = "[''c2'', ''c1'']", THEN conj_drop10, THEN conj_drop5, THEN conjunct2, THEN conjunct2, THEN conjunct2, THEN conjunct2, THEN conjunct1]
      c_subject_list c_subject_loop by simp
  have c_subject_level: "bump_level_main (two_commit_git [''--format=%s'']) [''bump_level.py'', ''p'', []] = Inl (CalledProcessError [''git'', ''show'', ''-s'', ''--format=%s'', ''c1''])"
    using subprocess_failures [where sp = "two_commit_git [''--format=%s'']" and package = "''p''" and prog = "''bump_level.py''" and e = "CalledProcessError [''git'', ''show'', ''-s'', ''--format=%s'', ''c1'']" and since_ref = "[]" and commits = "[''c2'', ''c1'']", THEN conj_drop10, THEN conj_drop10, THEN conjunct1]
      c_subject_list c_subject_level_loop by simp
  have c_body_fail: "two_commit_git [''--format=%b''] [''git'', ''show'', ''-s'', ''--format=%b'', ''c1''] = Inl (CalledProcessError [''git'', ''show'', ''-s'', ''--format=%b'', ''c1''])"
    by code_simp
  have c_body_passed: "\<forall>s\<in>set [''c2'']. commit_passed (two_commit_git [''--format=%b'']) ''p'' s"
    by code_simp
  have c_body_list: "commit_list (two_commit_git [''--format=%b'']) None = Inr [''c2'', ''c1''] \<and> commits_since (two_commit_git [''--format=%b'']) [] = Inr [''c2'', ''c1'']"
    by code_simp
  have c_body_touches: "commit_touches (two_commit_git [''--format=%b'']) ''p'' ''c1''"
    by code_simp
  have c_body_subject: "two_commit_git [''--format=%b''] [''git'', ''show'', ''-s'', ''--format=%s'', ''c1''] = Inr ''feat: add x''"
    by code_simp
  have c_body_loop: "bump_from_commits (two_commit_git [''--format=%b'']) example_package Bump_none [''c2'', ''c1''] = Inl (CalledProcessError [''git'', ''show'', ''-s'', ''--format=%b'', ''c1''])"
    using subprocess_failures [where sp = "two_commit_git [''--format=%b'']" and pkg = "example_package" and package = "''p''" and e = "CalledProcessError [''git'', ''show'', ''-s'', ''--format=%b'', ''c1'']" and earlier = "[''c2'']" and sha = "''c1''" and shas = "[]" and bump = "Bump_none" and level = "''none''" and subject = "''feat: add x''", THEN conj_drop10, THEN conj_drop5, THEN conjunct1]
      c_body_fail c_body_passed c_body_touches c_body_subject by (simp add: example_package_def)
  have c_body_level_loop: "bump_level_loop (two_commit_git [''--format=%b'']) ''p'' ''none'' [''c2'', ''c1''] = Inl (CalledProcessError [''git'', ''show'', ''-s'', ''--format=%b'', ''c1''])"
    using subprocess_failures [where sp = "two_commit_git [''--format=%b'']" and pkg = "example_package" and package = "''p''" and e = "CalledProcessError [''git'', ''show'', ''-s'', ''--format=%b'', ''c1'']" and earlier = "[''c2'']" and sha = "''c1''" and shas = "[]" and bump = "Bump_none" and level = "''none''" and subject = "''feat: add x''", THEN conj_drop10, THEN conj_drop5, THEN conjunct2, THEN conjunct2, THEN conjunct2, THEN conjunct1]
      c_body_fail c_body_passed c_body_touches c_body_subject by (simp add: example_package_def)
  have c_body_conv: "conventional_bump_from_commits (two_commit_git [''--format=%b'']) None example_package = Inl (CalledProcessError [''git'', ''show'', ''-s'', ''--format=%b'', ''c1''])"
    using subprocess_failures [where sp = "two_commit_git [''--format=%b'']" and pkg = "example_package" and e = "CalledProcessError [''git'', ''show'', ''-s'', ''--format=%b'', ''c1'']" and last_tag = "None" and commits = "[''c2'', ''c1'']", THEN conj_drop10, THEN conj_drop5, THEN conjunct2, THEN conjunct2, THEN conjunct2, THEN conjunct2, THEN conjunct1]
      c_body_list c_body_loop by simp
  have c_body_level: "bump_level_main (two_commit_git [''--format=%b'']) [''bump_level.py'', ''p'', []] = Inl (CalledProcessError [''git'', ''show'', ''-s'', ''--format=%b'', ''c1''])"
    using subprocess_failures [where sp = "two_commit_git [''--format=%b'']" and package = "''p''" and prog = "''bump_level.py''" and e = "CalledProcessError [''git'', ''show'', ''-s'', ''--format=%b'', ''c1'']" and since_ref = "[]" and commits = "[''c2'', ''c1'']", THEN conj_drop10, THEN conj_drop10, THEN conjunct1]
      c_body_list c_body_level_loop by simp
  have c_tag: "latest_tag_for (two_commit_git [''--format=%b'']) example_package = None"
    by code_simp
  have c_changed: "package_changed (two_commit_git [''--format=%b'']) example_package None = Inr True"
    by code_simp
  have c_plan: "plan_packages (two_commit_git [''--format=%b'']) example_fs [] [example_package] = Inl (CalledProcessError [''git'', ''show'', ''-s'', ''--format=%b'', ''c1''])"
    using subprocess_failures [where sp = "two_commit_git [''--format=%b'']" and pkg = "example_package" and e = "CalledProcessError [''git'', ''show'', ''-s'', ''--format=%b'', ''c1'']" and fs = "example_fs" and planned = "[]" and before_pkgs = "[]" and planned = "[]" and pkgs = "[]", THEN conj_drop10, THEN conj_drop10, THEN conjunct2, THEN conjunct2, THEN conjunct2, THEN conjunct1]
      c_tag c_changed c_body_conv by simp
  have c_main: "cmd_tag_main (two_commit_git [''--format=%b'']) example_fs = (Inl (CalledProcessError [''git'', ''show'', ''-s'', ''--format=%b'', ''c1'']), example_fs)"
    using subprocess_failures [where sp = "two_commit_git [''--format=%b'']" and e = "CalledProcessError [''git'', ''show'', ''-s'', ''--format=%b'', ''c1'']" and fs = "example_fs", THEN conj_drop10, THEN conj_drop10, THEN conj_drop5, THEN conjunct1]
      subprocess_failures [where sp = "two_commit_git [''--format=%b'']" and e = "CalledProcessError [''git'', ''show'', ''-s'', ''--format=%b'', ''c1'']" and fs = "example_fs", THEN conj_drop10, THEN conj_drop10, THEN conjunct2, THEN conjunct2, THEN conjunct2, THEN conjunct2, THEN conjunct1]
      c_plan a_pkgs by simp
  have d_write: "write_versions versions_fs example_package ''0.1.1'' = (Inr (Some ''p/src/m/__init__.py''), bumped_fs)"
    by code_simp
  have d_msg: "release_message [(example_package, ''0.1.1'')] = ''chore(release): p v0.1.1''"
    by code_simp
  have d_names: "path example_package = ''p'' \<and> tag_prefix example_package = ''better-mcps-p-v''"
    by code_simp
  have d0_plan: "cmd_tag_main_plan (allowing (take 0 release_commands) chore_git) versions_fs = Inr [(example_package, ''0.1.1'')]"
    by code_simp
  have d0_fail: "allowing (take 0 release_commands) chore_git [''git'', ''add'', ''p/pyproject.toml''] = Inl (CalledProcessError [''git'', ''add'', ''p/pyproject.toml''])"
    by code_simp
  have d0_add: "add_versions (allowing (take 0 release_commands) chore_git) example_package (Some ''p/src/m/__init__.py'') = Inl (CalledProcessError [''git'', ''add'', ''p/pyproject.toml''])"
    using subprocess_failures [where sp = "allowing (take 0 release_commands) chore_git" and e = "CalledProcessError [''git'', ''add'', ''p/pyproject.toml'']" and fs = "versions_fs" and pkg = "example_package" and next_v = "''0.1.1''" and plan = "[(example_package, ''0.1.1'')]" and out = "[]" and applied = "[]" and todo = "[]" and tree = "versions_fs" and tree' = "bumped_fs" and init_py = "Some ''p/src/m/__init__.py''" and init_file = "''p/src/m/__init__.py''", THEN conj_drop10, THEN conj_drop10, THEN conj_drop5, THEN conjunct2, THEN conjunct2, THEN conjunct1]
      d0_fail  d_names by simp
  have d0_apply: "apply_planned (allowing (take 0 release_commands) chore_git) versions_fs [(example_package, ''0.1.1'')] = (Inl (CalledProcessError [''git'', ''add'', ''p/pyproject.toml'']), bumped_fs)"
    using subprocess_failures [where sp = "allowing (take 0 release_commands) chore_git" and e = "CalledProcessError [''git'', ''add'', ''p/pyproject.toml'']" and fs = "versions_fs" and pkg = "example_package" and next_v = "''0.1.1''" and plan = "[(example_package, ''0.1.1'')]" and out = "[]" and applied = "[]" and todo = "[]" and tree = "versions_fs" and tree' = "bumped_fs" and init_py = "Some ''p/src/m/__init__.py''" and init_file = "''p/src/m/__init__.py''", THEN conj_drop10, THEN conj_drop10, THEN conj_drop5, THEN conjunct2, THEN conjunct2, THEN conjunct2, THEN conjunct2, THEN conjunct1]
      d_write d0_add by simp
  have d0_main: "cmd_tag_main (allowing (take 0 release_commands) chore_git) versions_fs = (Inl (CalledProcessError [''git'', ''add'', ''p/pyproject.toml'']), bumped_fs)"
    using subprocess_failures [where sp = "allowing (take 0 release_commands) chore_git" and e = "CalledProcessError [''git'', ''add'', ''p/pyproject.toml'']" and fs = "versions_fs" and plan = "[(example_package, ''0.1.1'')]" and fs = "bumped_fs", THEN conj_drop10, THEN conj_drop10, THEN conj_drop10, THEN conjunct1]
      d0_plan d0_apply by simp
  have d1_plan: "cmd_tag_main_plan (allowing (take 1 release_commands) chore_git) versions_fs = Inr [(example_package, ''0.1.1'')]"
    by code_simp
  have d1_fail: "allowing (take 1 release_commands) chore_git [''git'', ''add'', ''p/src/m/__init__.py''] = Inl (CalledProcessError [''git'', ''add'', ''p/src/m/__init__.py''])"
    by code_simp
  have d1_ok0: "allowing (take 1 release_commands) chore_git [''git'', ''add'', ''p/pyproject.toml''] = Inr []"
    by code_simp
  have d1_add: "add_versions (allowing (take 1 release_commands) chore_git) example_package (Some ''p/src/m/__init__.py'') = Inl (CalledProcessError [''git'', ''add'', ''p/src/m/__init__.py''])"
    using subprocess_failures [where sp = "allowing (take 1 release_commands) chore_git" and e = "CalledProcessError [''git'', ''add'', ''p/src/m/__init__.py'']" and fs = "versions_fs" and pkg = "example_package" and next_v = "''0.1.1''" and plan = "[(example_package, ''0.1.1'')]" and out = "[]" and applied = "[]" and todo = "[]" and tree = "versions_fs" and tree' = "bumped_fs" and init_py = "Some ''p/src/m/__init__.py''" and init_file = "''p/src/m/__init__.py''", THEN conj_drop10, THEN conj_drop10, THEN conj_drop5, THEN conjunct2, THEN conjunct2, THEN conjunct2, THEN conjunct1]
      d1_fail d1_ok0 d_names by simp
  have d1_apply: "apply_planned (allowing (take 1 release_commands) chore_git) versions_fs [(example_package, ''0.1.1'')] = (Inl (CalledProcessError [''git'', ''add'', ''p/src/m/__init__.py'']), bumped_fs)"
    using subprocess_failures [where sp = "allowing (take 1 release_commands) chore_git" and e = "CalledProcessError [''git'', ''add'', ''p/src/m/__init__.py'']" and fs = "versions_fs" and pkg = "example_package" and next_v = "''0.1.1''" and plan = "[(example_package, ''0.1.1'')]" and out = "[]" and applied = "[]" and todo = "[]" and tree = "versions_fs" and tree' = "bumped_fs" and init_py = "Some ''p/src/m/__init__.py''" and init_file = "''p/src/m/__init__.py''", THEN conj_drop10, THEN conj_drop10, THEN conj_drop5, THEN conjunct2, THEN conjunct2, THEN conjunct2, THEN conjunct2, THEN conjunct1]
      d_write d1_add by simp
  have d1_main: "cmd_tag_main (allowing (take 1 release_commands) chore_git) versions_fs = (Inl (CalledProcessError [''git'', ''add'', ''p/src/m/__init__.py'']), bumped_fs)"
    using subprocess_failures [where sp = "allowing (take 1 release_commands) chore_git" and e = "CalledProcessError [''git'', ''add'', ''p/src/m/__init__.py'']" and fs = "versions_fs" and plan = "[(example_package, ''0.1.1'')]" and fs = "bumped_fs", THEN conj_drop10, THEN conj_drop10, THEN conj_drop10, THEN conjunct1]
      d1_plan d1_apply by simp
  have d2_plan: "cmd_tag_main_plan (allowing (take 2 release_commands) chore_git) versions_fs = Inr [(example_package, ''0.1.1'')]"
    by code_simp
  have d2_fail: "allowing (take 2 release_commands) chore_git [''git'', ''commit'', ''-m'', ''chore(release): p v0.1.1''] = Inl (CalledProcessError [''git'', ''commit'', ''-m'', ''chore(release): p v0.1.1''])"
    by code_simp
  have d2_ok0: "allowing (take 2 release_commands) chore_git [''git'', ''add'', ''p/pyproject.toml''] = Inr []"
    by code_simp
  have d2_ok1: "allowing (take 2 release_commands) chore_git [''git'', ''add'', ''p/src/m/__init__.py''] = Inr []"
    by code_simp
  have d2_apply: "apply_planned (allowing (take 2 release_commands) chore_git) versions_fs [(example_package, ''0.1.1'')] = (Inr (), bumped_fs)"
    by code_simp
  have d2_main: "cmd_tag_main (allowing (take 2 release_commands) chore_git) versions_fs = (Inl (CalledProcessError [''git'', ''commit'', ''-m'', ''chore(release): p v0.1.1'']), bumped_fs)"
    using subprocess_failures [where sp = "allowing (take 2 release_commands) chore_git" and e = "CalledProcessError [''git'', ''commit'', ''-m'', ''chore(release): p v0.1.1'']" and fs = "versions_fs" and plan = "[(example_package, ''0.1.1'')]" and out = "[]" and pkg = "example_package" and next_v = "''0.1.1''" and applied = "[]" and todo = "[]" and fs = "bumped_fs" and out = "[]", THEN conj_drop10, THEN conj_drop10, THEN conj_drop10, THEN conjunct2, THEN conjunct1]
      d2_plan d2_apply d2_fail d2_ok0 d2_ok1 d_msg by simp
  have d3_plan: "cmd_tag_main_plan (allowing (take 3 release_commands) chore_git) versions_fs = Inr [(example_package, ''0.1.1'')]"
    by code_simp
  have d3_fail: "allowing (take 3 release_commands) chore_git [''git'', ''push'', ''origin'', ''HEAD:main''] = Inl (CalledProcessError [''git'', ''push'', ''origin'', ''HEAD:main''])"
    by code_simp
  have d3_ok0: "allowing (take 3 release_commands) chore_git [''git'', ''add'', ''p/pyproject.toml''] = Inr []"
    by code_simp
  have d3_ok1: "allowing (take 3 release_commands) chore_git [''git'', ''add'', ''p/src/m/__init__.py''] = Inr []"
    by code_simp
  have d3_ok2: "allowing (take 3 release_commands) chore_git [''git'', ''commit'', ''-m'', ''chore(release): p v0.1.1''] = Inr []"
    by code_simp
  have d3_apply: "apply_planned (allowing (take 3 release_commands) chore_git) versions_fs [(example_package, ''0.1.1'')] = (Inr (), bumped_fs)"
    by code_simp
  have d3_main: "cmd_tag_main (allowing (take 3 release_commands) chore_git) versions_fs = (Inl (CalledProcessError [''git'', ''push'', ''origin'', ''HEAD:main'']), bumped_fs)"
    using subprocess_failures [where sp = "allowing (take 3 release_commands) chore_git" and e = "CalledProcessError [''git'', ''push'', ''origin'', ''HEAD:main'']" and fs = "versions_fs" and plan = "[(example_package, ''0.1.1'')]" and out = "[]" and pkg = "example_package" and next_v = "''0.1.1''" and applied = "[]" and todo = "[]" and fs = "bumped_fs" and out = "[]", THEN conj_drop10, THEN conj_drop10, THEN conj_drop10, THEN conjunct2, THEN conjunct2, THEN conjunct1]
      d3_plan d3_apply d3_fail d3_ok0 d3_ok1 d3_ok2 d_msg by simp
  have d4_plan: "cmd_tag_main_plan (allowing (take 4 release_commands) chore_git) versions_fs = Inr [(example_package, ''0.1.1'')]"
    by code_simp
  have d4_fail: "allowing (take 4 release_commands) chore_git [''git'', ''tag'', ''-a'', ''better-mcps-p-v0.1.1'', ''-m'', ''Release better-mcps-p-v0.1.1''] = Inl (CalledProcessError [''git'', ''tag'', ''-a'', ''better-mcps-p-v0.1.1'', ''-m'', ''Release better-mcps-p-v0.1.1''])"
    by code_simp
  have d4_ok0: "allowing (take 4 release_commands) chore_git [''git'', ''add'', ''p/pyproject.toml''] = Inr []"
    by code_simp
  have d4_ok1: "allowing (take 4 release_commands) chore_git [''git'', ''add'', ''p/src/m/__init__.py''] = Inr []"
    by code_simp
  have d4_ok2: "allowing (take 4 release_commands) chore_git [''git'', ''commit'', ''-m'', ''chore(release): p v0.1.1''] = Inr []"
    by code_simp
  have d4_ok3: "allowing (take 4 release_commands) chore_git [''git'', ''push'', ''origin'', ''HEAD:main''] = Inr []"
    by code_simp
  have d4_apply: "apply_planned (allowing (take 4 release_commands) chore_git) versions_fs [(example_package, ''0.1.1'')] = (Inr (), bumped_fs)"
    by code_simp
  have d4_tags: "tag_planned (allowing (take 4 release_commands) chore_git) [(example_package, ''0.1.1'')] = Inl (CalledProcessError [''git'', ''tag'', ''-a'', ''better-mcps-p-v0.1.1'', ''-m'', ''Release better-mcps-p-v0.1.1''])"
    using subprocess_failures [where sp = "allowing (take 4 release_commands) chore_git" and e = "CalledProcessError [''git'', ''tag'', ''-a'', ''better-mcps-p-v0.1.1'', ''-m'', ''Release better-mcps-p-v0.1.1'']" and fs = "versions_fs" and plan = "[(example_package, ''0.1.1'')]" and out = "[]" and pkg = "example_package" and next_v = "''0.1.1''" and applied = "[]" and todo = "[]" and fs = "bumped_fs" and out = "[]", THEN conj_drop10, THEN conj_drop10, THEN conj_drop10, THEN conjunct2, THEN conjunct2, THEN conjunct2, THEN conjunct1]
      d4_fail d4_ok0 d4_ok1 d4_ok2 d4_ok3 d_names by simp
  have d4_main: "cmd_tag_main (allowing (take 4 release_commands) chore_git) versions_fs = (Inl (CalledProcessError [''git'', ''tag'', ''-a'', ''better-mcps-p-v0.1.1'', ''-m'', ''Release better-mcps-p-v0.1.1'']), bumped_fs)"
    using subprocess_failures [where sp = "allowing (take 4 release_commands) chore_git" and e = "CalledProcessError [''git'', ''tag'', ''-a'', ''better-mcps-p-v0.1.1'', ''-m'', ''Release better-mcps-p-v0.1.1'']" and fs = "versions_fs" and plan = "[(example_package, ''0.1.1'')]" and out = "[]" and pkg = "example_package" and next_v = "''0.1.1''" and applied = "[]" and todo = "[]" and fs = "bumped_fs" and out = "[]", THEN conj_drop10, THEN conj_drop10, THEN conj_drop10, THEN conj_drop5, THEN conjunct1]
      d4_plan d4_apply d4_tags d4_ok0 d4_ok1 d4_ok2 d4_ok3 d_msg by simp
  have d5_plan: "cmd_tag_main_plan (allowing (take 5 release_commands) chore_git) versions_fs = Inr [(example_package, ''0.1.1'')]"
    by code_simp
  have d5_fail: "allowing (take 5 release_commands) chore_git [''git'', ''push'', ''origin'', ''better-mcps-p-v0.1.1''] = Inl (CalledProcessError [''git'', ''push'', ''origin'', ''better-mcps-p-v0.1.1''])"
    by code_simp
  have d5_ok0: "allowing (take 5 release_commands) chore_git [''git'', ''add'', ''p/pyproject.toml''] = Inr []"
    by code_simp
  have d5_ok1: "allowing (take 5 release_commands) chore_git [''git'', ''add'', ''p/src/m/__init__.py''] = Inr []"
    by code_simp
  have d5_ok2: "allowing (take 5 release_commands) chore_git [''git'', ''commit'', ''-m'', ''chore(release): p v0.1.1''] = Inr []"
    by code_simp
  have d5_ok3: "allowing (take 5 release_commands) chore_git [''git'', ''push'', ''origin'', ''HEAD:main''] = Inr []"
    by code_simp
  have d5_ok4: "allowing (take 5 release_commands) chore_git [''git'', ''tag'', ''-a'', ''better-mcps-p-v0.1.1'', ''-m'', ''Release better-mcps-p-v0.1.1''] = Inr []"
    by code_simp
  have d5_apply: "apply_planned (allowing (take 5 release_commands) chore_git) versions_fs [(example_package, ''0.1.1'')] = (Inr (), bumped_fs)"
    by code_simp
  have d5_tags: "tag_planned (allowing (take 5 release_commands) chore_git) [(example_package, ''0.1.1'')] = Inl (CalledProcessError [''git'', ''push'', ''origin'', ''better-mcps-p-v0.1.1''])"
    using subprocess_failures [where sp = "allowing (take 5 release_commands) chore_git" and e = "CalledProcessError [''git'', ''push'', ''origin'', ''better-mcps-p-v0.1.1'']" and fs = "versions_fs" and plan = "[(example_package, ''0.1.1'')]" and out = "[]" and pkg = "example_package" and next_v = "''0.1.1''" and applied = "[]" and todo = "[]" and fs = "bumped_fs" and out = "[]", THEN conj_drop10, THEN conj_drop10, THEN conj_drop10, THEN conjunct2, THEN conjunct2, THEN conjunct2, THEN conjunct2, THEN conjunct1]
      d5_fail d5_ok0 d5_ok1 d5_ok2 d5_ok3 d5_ok4 d_names by simp
  have d5_main: "cmd_tag_main (allowing (take 5 release_commands) chore_git) versions_fs = (Inl (CalledProcessError [''git'', ''push'', ''origin'', ''better-mcps-p-v0.1.1'']), bumped_fs)"
    using subprocess_failures [where sp = "allowing (take 5 release_commands) chore_git" and e = "CalledProcessError [''git'', ''push'', ''origin'', ''better-mcps-p-v0.1.1'']" and fs = "versions_fs" and plan = "[(example_package, ''0.1.1'')]" and out = "[]" and pkg = "example_package" and next_v = "''0.1.1''" and applied = "[]" and todo = "[]" and fs = "bumped_fs" and out = "[]", THEN conj_drop10, THEN conj_drop10, THEN conj_drop10, THEN conj_drop5, THEN conjunct1]
      d5_plan d5_apply d5_tags d5_ok0 d5_ok1 d5_ok2 d5_ok3 d5_ok4 d_msg by simp
  have e_diff: "''a1'' \<noteq> ''b2'' \<and> diff_names failing_env ''a1'' ''b2'' = Inl (CalledProcessError [''git'', ''diff''])"
    by (simp add: failing_env_def)
  have e_absent: "refs empty_world ''better-mcps-p-v0.1.0'' = None \<and> tag_refused failing_env ''better-mcps-p-v0.1.0''"
    by (simp add: empty_world_def failing_env_def)
  have e_main: "tag_on_merge_main failing_env [''tag_on_merge.py'', ''a1'', ''b2''] empty_world = (Inl (CalledProcessError [''git'', ''diff'']), empty_world)"
    using subprocess_failures [where env = "failing_env" and w = "empty_world" and tag = "''better-mcps-p-v0.1.0''" and before = "''a1''" and after = "''b2''" and prog = "''tag_on_merge.py''" and e = "CalledProcessError [''git'', ''diff'']", THEN conj_drop5, THEN conjunct2, THEN conjunct2, THEN conjunct1]
      e_diff by simp
  have e_exists: "tag_exists failing_env ''better-mcps-p-v0.1.0'' empty_world = (Inr False, empty_world)"
    using subprocess_failures [where env = "failing_env" and w = "empty_world" and tag = "''better-mcps-p-v0.1.0''" and before = "''a1''" and after = "''b2''" and prog = "''tag_on_merge.py''" and e = "CalledProcessError [''git'', ''diff'']", THEN conj_drop5, THEN conjunct2, THEN conjunct2, THEN conjunct2, THEN conjunct1]
      e_absent by simp
  have e_tag: "create_tag failing_env ''better-mcps-p-v0.1.0'' empty_world = (Inl (CalledProcessError [''git'', ''tag'', ''-a'', ''better-mcps-p-v0.1.0'', ''-m'', ''Release better-mcps-p-v0.1.0'']), empty_world)"
    using subprocess_failures [where env = "failing_env" and w = "empty_world" and tag = "''better-mcps-p-v0.1.0''" and before = "''a1''" and after = "''b2''" and prog = "''tag_on_merge.py''" and e = "CalledProcessError [''git'', ''diff'']", THEN conj_drop5, THEN conjunct2, THEN conjunct2, THEN conjunct2, THEN conjunct2, THEN conjunct1]
      e_absent by simp
  have f_absent: "refs release_world ''better-mcps-p-v1.2.0'' = None \<and> \<not> tag_refused no_push_env ''better-mcps-p-v1.2.0'' \<and> push_refused no_push_env ''better-mcps-p-v1.2.0''"
    by (simp add: release_world_def no_push_env_def)
  have f_push: "fst (create_tag no_push_env ''better-mcps-p-v1.2.0'' release_world) = Inl (CalledProcessError [''git'', ''push'', ''origin'', ''better-mcps-p-v1.2.0''])"
    using subprocess_failures [where env = "no_push_env" and w = "release_world" and tag = "''better-mcps-p-v1.2.0''" and before = "''a1''" and after = "''b2''" and prog = "''tag_on_merge.py''" and e = "CalledProcessError [''git'', ''push'', ''origin'', ''better-mcps-p-v1.2.0'']" and dir = "''p''" and version = "''1.2.0''" and start = "release_world" and tagged = "[]" and dirs = "[]" and listing = "''p/pyproject.toml'' @ [NL]" and w = "snd (create_tag no_push_env ''better-mcps-p-v1.2.0'' release_world)", THEN conj_drop10, THEN conj_drop10, THEN conj_drop10, THEN conj_drop5, THEN conjunct2, THEN conjunct1]
      f_absent by simp
  have f_files: "path_exists (files release_world) ''p/pyproject.toml'' \<and> read_project_version (files release_world) ''p/pyproject.toml'' = Inr ''1.2.0'' \<and> check_init_version (files release_world) ''p'' ''1.2.0'' = Inr ()"
    unfolding release_world_def world.simps by code_simp
  have f_package: "fst (tag_package no_push_env ''p'' release_world) = Inl (CalledProcessError [''git'', ''push'', ''origin'', ''better-mcps-p-v1.2.0''])"
    using subprocess_failures [where env = "no_push_env" and w = "release_world" and tag = "''better-mcps-p-v1.2.0''" and before = "''a1''" and after = "''b2''" and prog = "''tag_on_merge.py''" and e = "CalledProcessError [''git'', ''push'', ''origin'', ''better-mcps-p-v1.2.0'']" and dir = "''p''" and version = "''1.2.0''" and start = "release_world" and tagged = "[]" and dirs = "[]" and listing = "''p/pyproject.toml'' @ [NL]" and w = "snd (create_tag no_push_env ''better-mcps-p-v1.2.0'' release_world)", THEN conj_drop10, THEN conj_drop10, THEN conj_drop10, THEN conj_drop5, THEN conjunct2, THEN conjunct2, THEN conjunct1]
      f_push f_files by (simp add: prod_eq_iff)
  have f_diff: "''a1'' \<noteq> ''b2'' \<and> diff_names no_push_env ''a1'' ''b2'' = Inr (''p/pyproject.toml'' @ [NL]) \<and> changed_packages (strip (''p/pyproject.toml'' @ [NL])) = [''p'']"
    unfolding no_push_env_def git_env.simps by code_simp
  have f_packages: "fst (tag_packages no_push_env [''p''] release_world) = Inl (CalledProcessError [''git'', ''push'', ''origin'', ''better-mcps-p-v1.2.0''])"
    using subprocess_failures [where env = "no_push_env" and w = "release_world" and tag = "''better-mcps-p-v1.2.0''" and before = "''a1''" and after = "''b2''" and prog = "''tag_on_merge.py''" and e = "CalledProcessError [''git'', ''push'', ''origin'', ''better-mcps-p-v1.2.0'']" and dir = "''p''" and version = "''1.2.0''" and start = "release_world" and tagged = "[]" and dirs = "[]" and listing = "''p/pyproject.toml'' @ [NL]" and w = "snd (create_tag no_push_env ''better-mcps-p-v1.2.0'' release_world)", THEN conj_drop10, THEN conj_drop10, THEN conj_drop10, THEN conj_drop5, THEN conjunct2, THEN conjunct2, THEN conjunct2, THEN conjunct1]
      f_package by (simp add: prod_eq_iff)
  have f_main: "fst (tag_on_merge_main no_push_env [''tag_on_merge.py'', ''a1'', ''b2''] release_world) = Inl (CalledProcessError [''git'', ''push'', ''origin'', ''better-mcps-p-v1.2.0''])"
    using subprocess_failures [where env = "no_push_env" and w = "release_world" and tag = "''better-mcps-p-v1.2.0''" and before = "''a1''" and after = "''b2''" and prog = "''tag_on_merge.py''" and e = "CalledProcessError [''git'', ''push'', ''origin'', ''better-mcps-p-v1.2.0'']" and dir = "''p''" and version = "''1.2.0''" and start = "release_world" and tagged = "[]" and dirs = "[]" and listing = "''p/pyproject.toml'' @ [NL]" and w = "snd (create_tag no_push_env ''better-mcps-p-v1.2.0'' release_world)", THEN conj_drop10, THEN conj_drop10, THEN conj_drop10, THEN conj_drop5, THEN conjunct2, THEN conjunct2, THEN conjunct2, THEN conjunct2]
      f_packages f_diff by (simp add: prod_eq_iff)
  show ?thesis
    by (intro conjI) (fact a_run a_none a_changed a_changed_tag a_plan a_detect a_main a_conv_head a_conv_tag a_level_head a_level_tag a_level_none b_conv b_plan b_main c_names_loop c_names_conv c_names_level c_subject_loop c_subject_conv c_subject_level c_body_loop c_body_conv c_body_level c_main d0_main d1_main d2_main d3_main d4_main d5_main e_main e_exists e_tag f_push f_package f_main)+
qed

end
